(* ===== verification/ShmPrelude.thy ===== *)
theory ShmPrelude
  imports Main "HOL-Library.Word"
begin

text \<open>
  Shared vocabulary of the development: the C types the code uses, the outcome of running a
  piece of C++ (a value with the new state, a fault where the language leaves the behaviour
  undefined or the process dies, or no return at all), the sequencing of such pieces, bounded
  reads and writes of arrays, C strings, and lists of calls with their specification.
\<close>

section \<open>C types\<close>

text \<open>
  \<open>c_int\<close> is the 32-bit \<open>int\<close>, read as a signed number by \<open>sint\<close>; \<open>c_uint\<close> is
  \<open>unsigned int\<close>, read by \<open>uint\<close>. A \<open>double\<close> is never computed with, only copied, so
  it is its 64-bit pattern.
\<close>

type_synonym byte = "8 word"
type_synonym c_int = "32 word"
type_synonym c_uint = "32 word"
type_synonym c_double = "64 word"

section \<open>Outcomes of running code\<close>

text \<open>
  \<open>Fault\<close>: the code dereferences a null pointer, accesses an array outside its bounds,
  touches a mapping with no memory behind it, or hands an invalid handle to the system.
  \<open>Blocks\<close>: it waits for an event that never comes. \<open>Ret\<close>: it returns.
\<close>

datatype fault = NullDeref | OutOfBounds | BusError | BadHandle

datatype ('a, 's) outcome = Fault fault | Blocks | Ret 'a 's

type_synonym ('a, 's) prog = "'s \<Rightarrow> ('a, 's) outcome"

definition ret :: "'a \<Rightarrow> ('a, 's) prog" where
  "ret x s = Ret x s"

definition fail :: "fault \<Rightarrow> ('a, 's) prog" where
  "fail e s = Fault e"

definition andThen :: "('a, 's) prog \<Rightarrow> ('a \<Rightarrow> ('b, 's) prog) \<Rightarrow> ('b, 's) prog" where
  "andThen m k s = (case m s of Fault e \<Rightarrow> Fault e | Blocks \<Rightarrow> Blocks | Ret x s' \<Rightarrow> k x s')"

text \<open>A value that must be there: the fault otherwise.\<close>

definition need :: "fault \<Rightarrow> 'a option \<Rightarrow> ('a, 's) prog" where
  "need e v = (case v of None \<Rightarrow> fail e | Some x \<Rightarrow> ret x)"

named_theorems prog_simps \<open>equations that run a program one step\<close>

lemma ret_run [simp, prog_simps]: "ret x s = Ret x s"
  by (simp add: ret_def)

lemma fail_run [simp, prog_simps]: "fail e s = Fault e"
  by (simp add: fail_def)

lemma andThen_ret [simp, prog_simps]: "m s = Ret x s' \<Longrightarrow> andThen m k s = k x s'"
  by (simp add: andThen_def)

lemma andThen_ret_bool [simp, prog_simps]:
  "m s = Ret True s' \<Longrightarrow> andThen m k s = k True s'"
  "m s = Ret False s' \<Longrightarrow> andThen m k s = k False s'"
  by simp_all

lemma andThen_fault [simp, prog_simps]: "m s = Fault e \<Longrightarrow> andThen m k s = Fault e"
  by (simp add: andThen_def)

lemma andThen_blocks [simp, prog_simps]: "m s = Blocks \<Longrightarrow> andThen m k s = Blocks"
  by (simp add: andThen_def)

lemma need_Some [simp, prog_simps]: "need e (Some x) s = Ret x s"
  by (simp add: need_def)

lemma need_None [simp, prog_simps]: "need e None s = Fault e"
  by (simp add: need_def)

lemma andThen_Ret_iff:
  "andThen m k s = Ret y t \<longleftrightarrow> (\<exists>x s'. m s = Ret x s' \<and> k x s' = Ret y t)"
  by (simp add: andThen_def split: outcome.splits)

lemma andThen_assoc: "andThen (andThen m k) l = andThen m (\<lambda>x. andThen (k x) l)"
  by (rule ext) (simp add: andThen_def split: outcome.splits)

lemma need_Ret_iff: "need e v s = Ret y t \<longleftrightarrow> v = Some y \<and> t = s"
  by (auto simp: need_def split: option.splits)

section \<open>Frames\<close>

text \<open>\<open>keeps f m\<close>: wherever \<open>m\<close> returns, the part \<open>f\<close> of the state is what it was.\<close>

definition keeps :: "('s \<Rightarrow> 'x) \<Rightarrow> ('a, 's) prog \<Rightarrow> bool" where
  "keeps f m \<longleftrightarrow> (\<forall>s r t. m s = Ret r t \<longrightarrow> f t = f s)"

named_theorems keeps_rules \<open>programs that keep a part of the state\<close>

lemma keepsD: "keeps f m \<Longrightarrow> m s = Ret r t \<Longrightarrow> f t = f s"
  by (auto simp: keeps_def)

lemma keepsI: "(\<And>s r t. m s = Ret r t \<Longrightarrow> f t = f s) \<Longrightarrow> keeps f m"
  by (simp add: keeps_def)

lemma keeps_ret [keeps_rules]: "keeps f (ret x)"
  by (simp add: keeps_def)

lemma keeps_fail [keeps_rules]: "keeps f (fail e)"
  by (simp add: keeps_def)

lemma keeps_need [keeps_rules]: "keeps f (need e v)"
  by (auto simp: keeps_def need_Ret_iff)

lemma keeps_andThen [keeps_rules]:
  "keeps f m \<Longrightarrow> (\<And>x. keeps f (k x)) \<Longrightarrow> keeps f (andThen m k)"
  by (fastforce simp: keeps_def andThen_Ret_iff)

lemma keeps_if [keeps_rules]: "keeps f m \<Longrightarrow> keeps f m' \<Longrightarrow> keeps f (if b then m else m')"
  by simp

lemma keeps_option [keeps_rules]:
  "keeps f m \<Longrightarrow> (\<And>x. keeps f (k x)) \<Longrightarrow> keeps f (case v of None \<Rightarrow> m | Some x \<Rightarrow> k x)"
  by (simp split: option.split)

lemma keeps_pair [keeps_rules]: "(\<And>x y. keeps f (k x y)) \<Longrightarrow> keeps f (case v of (x, y) \<Rightarrow> k x y)"
  by (simp split: prod.split)

section \<open>Arrays\<close>

text \<open>
  A C array is the list of its elements. \<open>put_prefix\<close> copies \<open>xs\<close> over its first
  elements, \<open>get_prefix\<close> reads its first \<open>n\<close> elements; both are \<open>None\<close> where the
  copy would leave the array.
\<close>

definition put_prefix :: "'a list \<Rightarrow> 'a list \<Rightarrow> 'a list option" where
  "put_prefix arr xs = (if length xs \<le> length arr then Some (xs @ drop (length xs) arr) else None)"

definition get_prefix :: "'a list \<Rightarrow> int \<Rightarrow> 'a list option" where
  "get_prefix arr n = (if 0 \<le> n \<and> n \<le> int (length arr) then Some (take (nat n) arr) else None)"

definition get_at :: "'a list \<Rightarrow> int \<Rightarrow> 'a option" where
  "get_at arr i = (if 0 \<le> i \<and> i < int (length arr) then Some (arr ! nat i) else None)"

definition put_at :: "'a list \<Rightarrow> int \<Rightarrow> 'a \<Rightarrow> 'a list option" where
  "put_at arr i x = (if 0 \<le> i \<and> i < int (length arr) then Some (arr[nat i := x]) else None)"

lemma put_prefix_length: "put_prefix arr xs = Some arr' \<Longrightarrow> length arr' = length arr"
  by (auto simp: put_prefix_def split: if_splits)

lemma put_prefix_None_iff: "put_prefix arr xs = None \<longleftrightarrow> length arr < length xs"
  by (auto simp: put_prefix_def)

lemma put_prefix_exact [simp]: "length xs = length arr \<Longrightarrow> put_prefix arr xs = Some xs"
  by (simp add: put_prefix_def)

lemma get_put_prefix:
  "put_prefix arr xs = Some arr' \<Longrightarrow> get_prefix arr' (int (length xs)) = Some xs"
  by (auto simp: put_prefix_def get_prefix_def split: if_splits)

lemma get_prefix_all [simp]: "get_prefix xs (int (length xs)) = Some xs"
  by (simp add: get_prefix_def)

lemma get_put_at:
  "put_at arr i x = Some arr' \<Longrightarrow> get_at arr' j = (if i = j then Some x else get_at arr j)"
  by (auto simp: put_at_def get_at_def split: if_splits)

lemma put_at_length: "put_at arr i x = Some arr' \<Longrightarrow> length arr' = length arr"
  by (auto simp: put_at_def split: if_splits)

lemma put_at_last: "put_at (xs @ [x]) (int (length (xs @ [x])) - 1) y = Some (xs @ [y])"
  by (simp add: put_at_def)

section \<open>C strings\<close>

text \<open>
  \<open>std::string\<close> is a list of characters of any value; a \<open>const char*\<close> taken from it
  ends at its first NUL.
\<close>

definition c_str :: "string \<Rightarrow> string" where
  "c_str s = takeWhile (\<lambda>c. c \<noteq> CHR 0x00) s"

lemma c_str_id: "CHR 0x00 \<notin> set s \<Longrightarrow> c_str s = s"
  by (simp add: c_str_def) (metis takeWhile_eq_all_conv)

lemma c_str_prefix [simp]: "c_str (xs @ CHR 0x00 # r) = c_str xs"
  by (induction xs) (simp_all add: c_str_def)

lemma c_str_idem [simp]: "c_str (c_str s) = c_str s"
  by (simp add: c_str_def)

lemma map_c_str_id: "\<forall>s\<in>set ss. CHR 0x00 \<notin> set s \<Longrightarrow> map c_str ss = ss"
  by (simp add: c_str_id map_idI)

text \<open>The conversion of a size to \<open>int\<close>: exact below \<open>2 ^ 31\<close>, negative just above.\<close>

lemma sint_of_nat_small: "n < 2 ^ 31 \<Longrightarrow> sint (of_nat n :: 32 word) = int n"
  by (simp add: signed_of_nat signed_take_bit_int_eq_self)

lemma sint_of_nat_upper:
  assumes "2 ^ 31 \<le> n" and "n < 2 ^ 32"
  shows "sint (of_nat n :: 32 word) < 0"
proof -
  have "int n div 2 ^ 31 = 1" using assms by simp
  then have "bit (int n) 31" by (simp add: bit_iff_odd)
  then show ?thesis by (simp add: signed_of_nat signed_take_bit_negative_iff)
qed

section \<open>Refining a specification call by call\<close>

text \<open>A list of calls, run and specified.\<close>

fun run_all :: "('c \<Rightarrow> ('r, 's) prog) \<Rightarrow> 'c list \<Rightarrow> ('r list, 's) prog" where
  "run_all step [] = ret []"
| "run_all step (c # cs) = andThen (step c) (\<lambda>r. andThen (run_all step cs) (\<lambda>rs. ret (r # rs)))"

fun spec_all :: "('c \<Rightarrow> 'a \<Rightarrow> 'r \<times> 'a) \<Rightarrow> 'c list \<Rightarrow> 'a \<Rightarrow> 'r list \<times> 'a" where
  "spec_all spec [] a = ([], a)"
| "spec_all spec (c # cs) a =
     (let (r, a') = spec c a; (rs, a'') = spec_all spec cs a' in (r # rs, a''))"

fun all_ok :: "('c \<Rightarrow> 'a \<Rightarrow> bool) \<Rightarrow> ('c \<Rightarrow> 'a \<Rightarrow> 'r \<times> 'a) \<Rightarrow> 'c list \<Rightarrow> 'a \<Rightarrow> bool" where
  "all_ok ok spec [] a = True"
| "all_ok ok spec (c # cs) a = (ok c a \<and> all_ok ok spec cs (snd (spec c a)))"

text \<open>
  The contract between an implementation and its specification: while they are related, every call
  that is allowed returns what is specified and leaves them related.
\<close>

locale call_refinement =
  fixes step :: "'c \<Rightarrow> ('r, 's) prog"
    and spec :: "'c \<Rightarrow> 'a \<Rightarrow> 'r \<times> 'a"
    and ok :: "'c \<Rightarrow> 'a \<Rightarrow> bool"
    and related :: "'s \<Rightarrow> 'a \<Rightarrow> bool"
  assumes step_refines: "related s a \<Longrightarrow> ok c a \<Longrightarrow>
    \<exists>s'. step c s = Ret (fst (spec c a)) s' \<and> related s' (snd (spec c a))"
begin

lemma run_refines:
  "related s a \<Longrightarrow> all_ok ok spec cs a \<Longrightarrow>
   \<exists>s'. run_all step cs s = Ret (fst (spec_all spec cs a)) s' \<and> related s' (snd (spec_all spec cs a))"
proof (induction cs arbitrary: s a)
  case (Cons c cs)
  then obtain s1 where 1: "step c s = Ret (fst (spec c a)) s1" "related s1 (snd (spec c a))"
    using step_refines [of s a c] by auto
  with Cons obtain s2 where "run_all step cs s1 = Ret (fst (spec_all spec cs (snd (spec c a)))) s2"
    "related s2 (snd (spec_all spec cs (snd (spec c a))))" by fastforce
  with 1 show ?case by (simp add: case_prod_beta Let_def)
qed simp

end

end
