(* ===== verification/SharedFmiMessage.thy ===== *)
theory SharedFmiMessage
  imports ShmPrelude
begin

text \<open>
  The message that travels through shared memory (libshmipc/SharedFmiMessage.h): the command
  codes, the fixed buffer that carries a serialized protobuf message, its size field, and the
  region \<open>SharedFmiMem\<close> that a server creates and a client maps.
\<close>

section \<open>Commands\<close>

datatype fmi2Command =
    cmd_fmi2SetDebugLogging | cmd_fmi2Instantiate | cmd_fmi2SetupExperiment
  | cmd_fmi2EnterInitializationMode | cmd_fmi2ExitInitializationMode
  | cmd_fmi2Terminate | cmd_fmi2Reset | cmd_fmi2DoStep
  | cmd_fmi2GetReal | cmd_fmi2GetInteger | cmd_fmi2GetBoolean | cmd_fmi2GetString
  | cmd_fmi2SetReal | cmd_fmi2SetInteger | cmd_fmi2SetBoolean | cmd_fmi2SetString
  | cmd_fmi2GetMaxStepSize
  | cmd_fmi2GetStatus | cmd_fmi2GetRealStatus | cmd_fmi2GetIntegerStatus
  | cmd_fmi2GetBooleanStatus | cmd_fmi2GetStringStatus
  | cmd_fmi2Log | cmd_fmi2FreeInstance

text \<open>
  The enumeration has the fixed underlying type \<open>int\<close>, so a field of that type holds any
  \<open>int\<close> (the native library casts what Java passes); \<open>cmd_code\<close> is the value of an
  enumerator and \<open>cmd_of_code\<close> is what a \<open>switch\<close> over the enumerators selects.
\<close>

fun cmd_code :: "fmi2Command \<Rightarrow> c_int" where
  "cmd_code cmd_fmi2SetDebugLogging = 0"
| "cmd_code cmd_fmi2Instantiate = 1"
| "cmd_code cmd_fmi2SetupExperiment = 2"
| "cmd_code cmd_fmi2EnterInitializationMode = 3"
| "cmd_code cmd_fmi2ExitInitializationMode = 4"
| "cmd_code cmd_fmi2Terminate = 5"
| "cmd_code cmd_fmi2Reset = 6"
| "cmd_code cmd_fmi2DoStep = 7"
| "cmd_code cmd_fmi2GetReal = 8"
| "cmd_code cmd_fmi2GetInteger = 9"
| "cmd_code cmd_fmi2GetBoolean = 10"
| "cmd_code cmd_fmi2GetString = 11"
| "cmd_code cmd_fmi2SetReal = 12"
| "cmd_code cmd_fmi2SetInteger = 13"
| "cmd_code cmd_fmi2SetBoolean = 14"
| "cmd_code cmd_fmi2SetString = 15"
| "cmd_code cmd_fmi2GetMaxStepSize = 16"
| "cmd_code cmd_fmi2GetStatus = 17"
| "cmd_code cmd_fmi2GetRealStatus = 18"
| "cmd_code cmd_fmi2GetIntegerStatus = 19"
| "cmd_code cmd_fmi2GetBooleanStatus = 20"
| "cmd_code cmd_fmi2GetStringStatus = 21"
| "cmd_code cmd_fmi2Log = 22"
| "cmd_code cmd_fmi2FreeInstance = 23"

definition all_commands :: "fmi2Command list" where
  "all_commands =
    [cmd_fmi2SetDebugLogging, cmd_fmi2Instantiate, cmd_fmi2SetupExperiment,
     cmd_fmi2EnterInitializationMode, cmd_fmi2ExitInitializationMode, cmd_fmi2Terminate,
     cmd_fmi2Reset, cmd_fmi2DoStep, cmd_fmi2GetReal, cmd_fmi2GetInteger, cmd_fmi2GetBoolean,
     cmd_fmi2GetString, cmd_fmi2SetReal, cmd_fmi2SetInteger, cmd_fmi2SetBoolean,
     cmd_fmi2SetString, cmd_fmi2GetMaxStepSize, cmd_fmi2GetStatus, cmd_fmi2GetRealStatus,
     cmd_fmi2GetIntegerStatus, cmd_fmi2GetBooleanStatus, cmd_fmi2GetStringStatus, cmd_fmi2Log,
     cmd_fmi2FreeInstance]"

definition cmd_of_code :: "c_int \<Rightarrow> fmi2Command option" where
  "cmd_of_code n = find (\<lambda>c. cmd_code c = n) all_commands"

lemma all_commands_complete: "c \<in> set all_commands"
  by (cases c) (simp_all add: all_commands_def)

lemma cmd_code_range: "uint (cmd_code c) < 24"
  by (cases c) simp_all

lemma cmd_of_code_code [simp]: "cmd_of_code (cmd_code c) = Some c"
  by (cases c) (simp_all add: cmd_of_code_def all_commands_def)

lemma cmd_code_inject [simp]: "cmd_code a = cmd_code b \<longleftrightarrow> a = b"
  by (metis cmd_of_code_code option.inject)

lemma cmd_of_code_Some: "cmd_of_code n = Some c \<longleftrightarrow> n = cmd_code c"
proof
  assume "cmd_of_code n = Some c"
  then show "n = cmd_code c"
    by (auto simp: cmd_of_code_def find_Some_iff)
qed simp

section \<open>The message and the shared region\<close>

definition SharedFmiBufferSize :: nat where
  "SharedFmiBufferSize = 10000"

record SharedFmiMessage =
  cmd :: c_int
  protoBufMsg :: "byte list"
  protoBufMsgSize :: c_int

text \<open>\<open>SharedFmiMessage()\<close>: value initialization zeroes every field.\<close>

definition SharedFmiMessage_zero :: SharedFmiMessage where
  "SharedFmiMessage_zero =
     \<lparr>cmd = 0, protoBufMsg = replicate SharedFmiBufferSize 0, protoBufMsgSize = 0\<rparr>"

definition msg_wf :: "SharedFmiMessage \<Rightarrow> bool" where
  "msg_wf m \<longleftrightarrow> length (protoBufMsg m) = SharedFmiBufferSize"

text \<open>
  \<open>SharedFmiMem\<close> holds one message and, on POSIX systems, two unnamed semaphores that the
  code never initializes or uses. Its size, with the alignment of the 64-bit ABIs, is 10072
  bytes where \<open>sem_t\<close> has 32 bytes (Linux) and 10016 where it is an \<open>int\<close> (macOS).
\<close>

record SharedFmiMem =
  message :: SharedFmiMessage

definition SharedFmiMem_zero :: SharedFmiMem where
  "SharedFmiMem_zero = \<lparr>message = SharedFmiMessage_zero\<rparr>"

lemma msg_wf_zero [simp]: "msg_wf SharedFmiMessage_zero"
  by (simp add: msg_wf_def SharedFmiMessage_zero_def)

lemma msg_wf_simps [simp]:
  "msg_wf (m\<lparr>cmd := c\<rparr>) = msg_wf m"
  "msg_wf (m\<lparr>protoBufMsgSize := n\<rparr>) = msg_wf m"
  by (simp_all add: msg_wf_def)

text \<open>
  The bytes a message announces: the first \<open>protoBufMsgSize\<close> bytes of its buffer, as
  \<open>ParseFromArray\<close> and the copy loops read them; \<open>None\<close> where the size is negative or
  exceeds the buffer.
\<close>

definition payload :: "SharedFmiMessage \<Rightarrow> byte list option" where
  "payload m = get_prefix (protoBufMsg m) (sint (protoBufMsgSize m))"

text \<open>Storing a serialized message: its bytes over the buffer, its length in the size field.\<close>

definition with_payload :: "SharedFmiMessage \<Rightarrow> byte list \<Rightarrow> SharedFmiMessage option" where
  "with_payload m bs =
     map_option (\<lambda>buf. m\<lparr>protoBufMsg := buf, protoBufMsgSize := of_nat (length bs)\<rparr>)
       (put_prefix (protoBufMsg m) bs)"

lemma with_payload_None_iff:
  "with_payload m bs = None \<longleftrightarrow> length (protoBufMsg m) < length bs"
  by (simp add: with_payload_def put_prefix_None_iff)

lemma with_payload_cmd: "with_payload m bs = Some m' \<Longrightarrow> cmd m' = cmd m"
  by (auto simp: with_payload_def)

lemma with_payload_wf: "with_payload m bs = Some m' \<Longrightarrow> msg_wf m' = msg_wf m"
  by (auto simp: with_payload_def msg_wf_def dest: put_prefix_length)

lemma payload_with_payload:
  assumes "with_payload m bs = Some m'" and "msg_wf m"
  shows "payload m' = Some bs"
proof -
  from assms(1) obtain buf where buf: "put_prefix (protoBufMsg m) bs = Some buf"
    and m': "m' = m\<lparr>protoBufMsg := buf, protoBufMsgSize := of_nat (length bs)\<rparr>"
    by (auto simp: with_payload_def)
  from buf assms(2) have "length bs \<le> 10000"
    by (auto simp: put_prefix_def msg_wf_def SharedFmiBufferSize_def split: if_splits)
  then have "sint (of_nat (length bs) :: 32 word) = int (length bs)"
    by (intro sint_of_nat_small) simp
  with buf m' show ?thesis
    by (simp add: payload_def get_put_prefix)
qed

lemma with_payload_fits:
  "msg_wf m \<Longrightarrow> length bs \<le> SharedFmiBufferSize \<Longrightarrow> \<exists>m'. with_payload m bs = Some m' \<and> msg_wf m'"
  by (metis linorder_not_less msg_wf_def not_Some_eq with_payload_None_iff with_payload_wf)

end
