(* ===== verification/Posix.thy ===== *)
theory Posix
  imports SharedFmiMessage
begin

text \<open>
  The part of POSIX that libshmipc calls: named shared-memory objects that outlive their name
  while they are open or mapped, descriptors, mappings, named counting semaphores, timed waits
  and the clock. The calls follow their manual pages; which of them the system refuses (no
  descriptors, no permission, an interrupted wait) is the field \<open>refuse\<close>, any predicate.
  The other processes are a function from the deadline of a wait to the state change they make
  while the caller sleeps (\<open>env\<close> below).
\<close>

section \<open>State of the system\<close>

datatype os_op = OpShmOpen string | OpFtruncate int | OpMmap int | OpSemOpen string | OpSemWait nat

text \<open>An object has its byte size (0 until \<open>ftruncate\<close>) and its content as a \<open>SharedFmiMem\<close>.\<close>

record shm_obj =
  shm_size :: nat
  shm_mem :: SharedFmiMem

record os =
  shm_names :: "string \<Rightarrow> nat option"
  shm_objs :: "nat \<Rightarrow> shm_obj"
  next_obj :: nat
  fds :: "int \<Rightarrow> nat option"
  next_fd :: int
  sem_names :: "string \<Rightarrow> nat option"
  sem_val :: "nat \<Rightarrow> nat"
  next_sem :: nat
  clock :: "int \<times> int"
  refuse :: "os_op \<Rightarrow> bool"
  thread_lead :: nat

text \<open>
  The two POSIX systems the code distinguishes. macOS limits names to 31 characters, so the code
  replaces long ones by \<open>std::hash\<close>, which is implementation defined: a parameter.
\<close>

datatype unix = Linux | Apple "string \<Rightarrow> nat"

fun is_Apple :: "unix \<Rightarrow> bool" where
  "is_Apple Linux = False"
| "is_Apple (Apple h) = True"

fun sizeof_SharedFmiMem :: "unix \<Rightarrow> nat" where
  "sizeof_SharedFmiMem Linux = 10072"
| "sizeof_SharedFmiMem (Apple h) = 10016"

text \<open>
  Descriptors 0, 1 and 2 are the standard streams; numbers are not reused, so a stale descriptor
  stays invalid. Objects and semaphores are identified by numbers given out in order.
\<close>

definition os_wf :: "'a os_scheme \<Rightarrow> bool" where
  "os_wf s \<longleftrightarrow> 3 \<le> next_fd s \<and>
     (\<forall>n p. shm_names s n = Some p \<longrightarrow> p < next_obj s) \<and>
     (\<forall>fd p. fds s fd = Some p \<longrightarrow> p < next_obj s \<and> fd < next_fd s) \<and>
     (\<forall>n k. sem_names s n = Some k \<longrightarrow> k < next_sem s)"

text \<open>A system with no objects that refuses nothing.\<close>

definition os_init :: os where
  "os_init = \<lparr>shm_names = (\<lambda>_. None), shm_objs = (\<lambda>_. \<lparr>shm_size = 0, shm_mem = SharedFmiMem_zero\<rparr>),
     next_obj = 0, fds = (\<lambda>_. None), next_fd = 3, sem_names = (\<lambda>_. None), sem_val = (\<lambda>_. 0),
     next_sem = 0, clock = (0, 0), refuse = (\<lambda>_. False), thread_lead = 1\<rparr>"

section \<open>Shared memory calls\<close>

definition shm_unlink :: "string \<Rightarrow> 'a os_scheme \<Rightarrow> 'a os_scheme" where
  "shm_unlink name s = s\<lparr>shm_names := (shm_names s)(name := None)\<rparr>"

definition empty_obj :: shm_obj where
  "empty_obj = \<lparr>shm_size = 0, shm_mem = SharedFmiMem_zero\<rparr>"

definition new_fd :: "nat \<Rightarrow> 'a os_scheme \<Rightarrow> int \<times> 'a os_scheme" where
  "new_fd p s = (next_fd s, s\<lparr>fds := (fds s)(next_fd s := Some p), next_fd := next_fd s + 1\<rparr>)"

definition new_obj :: "string \<Rightarrow> 'a os_scheme \<Rightarrow> nat \<times> 'a os_scheme" where
  "new_obj name s = (next_obj s,
     s\<lparr>shm_objs := (shm_objs s)(next_obj s := empty_obj),
       shm_names := (shm_names s)(name := Some (next_obj s)), next_obj := Suc (next_obj s)\<rparr>)"

text \<open>\<open>shm_open\<close> with \<open>O_RDWR\<close> and the flags \<open>O_CREAT\<close> and \<open>O_TRUNC\<close>: -1 on failure.\<close>

definition shm_open :: "string \<Rightarrow> bool \<Rightarrow> bool \<Rightarrow> 'a os_scheme \<Rightarrow> int \<times> 'a os_scheme" where
  "shm_open name o_creat o_trunc s =
     (if refuse s (OpShmOpen name) then (-1, s)
      else case shm_names s name of
        Some p \<Rightarrow> new_fd p (if o_trunc then s\<lparr>shm_objs := (shm_objs s)(p := empty_obj)\<rparr> else s)
      | None \<Rightarrow> if o_creat then (let (p, s') = new_obj name s in new_fd p s') else (-1, s))"

text \<open>
  \<open>ftruncate\<close> sets the size; growing reads as zero, and so does everything the code looks at
  when the object had no memory before.
\<close>

definition ftruncate :: "int \<Rightarrow> nat \<Rightarrow> 'a os_scheme \<Rightarrow> bool \<times> 'a os_scheme" where
  "ftruncate fd n s =
     (case fds s fd of
        None \<Rightarrow> (False, s)
      | Some p \<Rightarrow>
          if refuse s (OpFtruncate fd) then (False, s)
          else (True, s\<lparr>shm_objs := (shm_objs s)(p := (shm_objs s p)\<lparr>shm_size := n\<rparr>)\<rparr>))"

text \<open>\<open>mmap\<close> of an open object: the object itself is the mapping, \<open>None\<close> is \<open>MAP_FAILED\<close>.\<close>

definition mmap :: "int \<Rightarrow> 'a os_scheme \<Rightarrow> nat option" where
  "mmap fd s = (case fds s fd of None \<Rightarrow> None | Some p \<Rightarrow> if refuse s (OpMmap fd) then None else Some p)"

definition close_fd :: "int \<Rightarrow> 'a os_scheme \<Rightarrow> 'a os_scheme" where
  "close_fd fd s = s\<lparr>fds := (fds s)(fd := None)\<rparr>"

text \<open>
  Access through a mapping: \<open>SIGBUS\<close> where the object is smaller than the region, which is all
  or nothing here because the code only ever sizes an object to the whole region.
\<close>

definition load_msg :: "nat \<Rightarrow> (SharedFmiMessage, 'a os_scheme) prog" where
  "load_msg p s = (if shm_size (shm_objs s p) = 0 then Fault BusError
                   else Ret (message (shm_mem (shm_objs s p))) s)"

definition store_msg :: "nat \<Rightarrow> SharedFmiMessage \<Rightarrow> (unit, 'a os_scheme) prog" where
  "store_msg p m s =
     (if shm_size (shm_objs s p) = 0 then Fault BusError
      else Ret () (s\<lparr>shm_objs := (shm_objs s)(p := (shm_objs s p)\<lparr>shm_mem := \<lparr>message = m\<rparr>\<rparr>)\<rparr>))"

section \<open>Semaphores\<close>

text \<open>
  What \<open>sem_open\<close> returns: a semaphore, or \<open>SEM_FAILED\<close>, which is a null pointer in glibc and
  -1 on macOS, so that \<open>if (handle)\<close> differs.
\<close>

datatype SIGNAL_HANDLE = SigNull | SigFailed | Sig nat

fun sig_truth :: "unix \<Rightarrow> SIGNAL_HANDLE \<Rightarrow> bool" where
  "sig_truth u SigNull = False"
| "sig_truth u SigFailed = is_Apple u"
| "sig_truth u (Sig k) = True"

definition sem_unlink :: "string \<Rightarrow> 'a os_scheme \<Rightarrow> 'a os_scheme" where
  "sem_unlink name s = s\<lparr>sem_names := (sem_names s)(name := None)\<rparr>"

text \<open>\<open>sem_open(name, O_CREAT, mode, 0)\<close> and \<open>sem_open(name, 0)\<close>.\<close>

definition sem_open :: "string \<Rightarrow> bool \<Rightarrow> 'a os_scheme \<Rightarrow> SIGNAL_HANDLE \<times> 'a os_scheme" where
  "sem_open name o_creat s =
     (if refuse s (OpSemOpen name) then (SigFailed, s)
      else case sem_names s name of
        Some k \<Rightarrow> (Sig k, s)
      | None \<Rightarrow>
          if o_creat
          then (Sig (next_sem s),
                s\<lparr>sem_names := (sem_names s)(name := Some (next_sem s)),
                  sem_val := (sem_val s)(next_sem s := 0), next_sem := Suc (next_sem s)\<rparr>)
          else (SigFailed, s))"

definition SEM_VALUE_MAX :: nat where
  "SEM_VALUE_MAX = 2147483647"

text \<open>\<open>sem_post\<close>: -1 (here False) and no change at the maximal value; undefined on no semaphore.\<close>

fun sem_post :: "SIGNAL_HANDLE \<Rightarrow> (bool, 'a os_scheme) prog" where
  "sem_post (Sig k) s =
     (if sem_val s k < SEM_VALUE_MAX
      then Ret True (s\<lparr>sem_val := (sem_val s)(k := Suc (sem_val s k))\<rparr>) else Ret False s)"
| "sem_post h s = Fault BadHandle"

definition sem_take :: "nat \<Rightarrow> 'a os_scheme \<Rightarrow> 'a os_scheme" where
  "sem_take k s = s\<lparr>sem_val := (sem_val s)(k := sem_val s k - 1)\<rparr>"

text \<open>
  The other processes: \<open>env d s\<close> is the state after everything they do from \<open>s\<close> while the
  caller sleeps, until it can take the semaphore or the deadline \<open>d\<close> passes (\<open>None\<close>: forever).
\<close>

type_synonym 's env = "(int \<times> int) option \<Rightarrow> 's \<Rightarrow> 's"

text \<open>\<open>sem_wait\<close>: takes the semaphore, at once or when another process has posted it; fails
  only when interrupted by a signal handler.\<close>

fun sem_wait :: "('a os_scheme) env \<Rightarrow> SIGNAL_HANDLE \<Rightarrow> (bool, 'a os_scheme) prog" where
  "sem_wait env (Sig k) s =
     (if 0 < sem_val s k then Ret True (sem_take k s)
      else if refuse s (OpSemWait k) then Ret False s
      else let s' = env None s in if 0 < sem_val s' k then Ret True (sem_take k s') else Blocks)"
| "sem_wait env h s = Fault BadHandle"

text \<open>
  \<open>sem_timedwait\<close>: an available semaphore is taken whatever the time says; otherwise the
  nanoseconds must be below one second (\<open>EINVAL\<close> if not), and the call fails when the absolute
  time passes first (\<open>ETIMEDOUT\<close>).
\<close>

fun sem_timedwait :: "('a os_scheme) env \<Rightarrow> SIGNAL_HANDLE \<Rightarrow> int \<times> int \<Rightarrow> (bool, 'a os_scheme) prog" where
  "sem_timedwait env (Sig k) abs_timeout s =
     (if 0 < sem_val s k then Ret True (sem_take k s)
      else if snd abs_timeout < 0 \<or> 1000000000 \<le> snd abs_timeout then Ret False s
      else if refuse s (OpSemWait k) then Ret False s
      else let s' = env (Some abs_timeout) s
           in if 0 < sem_val s' k then Ret True (sem_take k s') else Ret False s')"
| "sem_timedwait env h abs_timeout s = Fault BadHandle"

section \<open>Facts the components use\<close>

lemma sizeof_pos [simp]: "0 < sizeof_SharedFmiMem u"
  by (cases u) simp_all

lemma os_init_wf [simp]: "os_wf os_init"
  by (simp add: os_wf_def os_init_def)

lemma os_init_simps [simp]:
  "refuse os_init op = False" "sem_names os_init n = None" "shm_names os_init n = None"
  "clock os_init = (0, 0)" "next_fd os_init = 3"
  by (simp_all add: os_init_def)

lemma store_load:
  "store_msg p m s = Ret () s' \<Longrightarrow> load_msg p s' = Ret m s'"
  by (auto simp: store_msg_def load_msg_def split: if_splits)

lemma os_wf_new_fd: "os_wf s \<Longrightarrow> p < next_obj s \<Longrightarrow> os_wf (snd (new_fd p s))"
  by (fastforce simp: os_wf_def new_fd_def)

lemma os_wf_new_obj: "os_wf s \<Longrightarrow> os_wf (snd (new_obj n s))"
  by (fastforce simp: os_wf_def new_obj_def)

lemma os_wf_objs [simp]: "os_wf (s\<lparr>shm_objs := f\<rparr>) = os_wf s"
  by (simp add: os_wf_def)

lemma os_wf_val [simp]: "os_wf (s\<lparr>sem_val := f\<rparr>) = os_wf s"
  by (simp add: os_wf_def)

lemma os_wf_shm_open:
  assumes "os_wf s"
  shows "os_wf (snd (shm_open n c t s))"
proof -
  have "p < next_obj s" if "shm_names s n = Some p" for p
    using assms that by (simp add: os_wf_def)
  moreover have "os_wf (snd (new_fd (fst (new_obj n s)) (snd (new_obj n s))))"
    using os_wf_new_obj [OF assms] by (intro os_wf_new_fd) (simp_all add: new_obj_def)
  ultimately show ?thesis
    using assms by (auto simp: shm_open_def case_prod_beta intro!: os_wf_new_fd split: option.split)
qed

lemma os_wf_shm_unlink [simp]: "os_wf s \<Longrightarrow> os_wf (shm_unlink n s)"
  by (simp add: os_wf_def shm_unlink_def)

lemma os_wf_sem_unlink [simp]: "os_wf s \<Longrightarrow> os_wf (sem_unlink n s)"
  by (simp add: os_wf_def sem_unlink_def)

lemma os_wf_close_fd [simp]: "os_wf s \<Longrightarrow> os_wf (close_fd fd s)"
  by (simp add: os_wf_def close_fd_def)

lemma os_wf_sem_open: "os_wf s \<Longrightarrow> os_wf (snd (sem_open n c s))"
  by (auto simp: sem_open_def os_wf_def less_Suc_eq split: option.split)

lemma os_wf_ftruncate: "os_wf s \<Longrightarrow> os_wf (snd (ftruncate fd n s))"
  by (simp add: ftruncate_def split: option.split)

lemmas os_wf_calls = os_wf_shm_open os_wf_sem_open os_wf_ftruncate

end
