(* ===== verification/IpcBase.thy ===== *)
theory IpcBase
  imports Posix
begin

text \<open>
  The common base of both ends of a channel (libshmipc/IpcBase.h, IpcBase.cpp), in its POSIX
  branches (\<open>WinIpc\<close> has the others): the object, name mapping, opening and mapping the shared
  memory, creating, waiting for and posting the named semaphores, and the destructor. Debug output
  through \<open>dprintf\<close> is not modelled; which printer is installed is.
\<close>

section \<open>The object\<close>

datatype debugPrint = NoPrint | ConsolePrint | FmuPrint

text \<open>A null \<open>m_pBuf\<close> is \<open>None\<close>; a descriptor of 0 stands for "none", as in the code.\<close>

record IpcBase =
  debugPrintPtr :: debugPrint
  m_id :: c_int
  m_hMapFile :: int
  m_hMapFileName :: "string option"
  m_hSignal :: SIGNAL_HANDLE
  m_hAvail :: SIGNAL_HANDLE
  m_hConnWatchDogSignal :: SIGNAL_HANDLE
  m_name :: string
  m_pBuf :: "nat option"
  m_log_name_id :: "string option"

definition SHARED_MEM_BASE_NAME :: string where
  "SHARED_MEM_BASE_NAME = ''/Local''"

definition SIGNAL_AVALIABLE_NAME :: string where
  "SIGNAL_AVALIABLE_NAME = ''/sigAvail''"

definition SIGNAL_NAME :: string where
  "SIGNAL_NAME = ''/sig''"

definition SIGNAL_CONN_WATCH_DOG_NAME :: string where
  "SIGNAL_CONN_WATCH_DOG_NAME = ''/connWatchDog''"

lemmas base_names =
  SHARED_MEM_BASE_NAME_def SIGNAL_AVALIABLE_NAME_def SIGNAL_NAME_def SIGNAL_CONN_WATCH_DOG_NAME_def

definition IpcBase_new :: "c_int \<Rightarrow> string \<Rightarrow> IpcBase" where
  "IpcBase_new ident shmName =
     \<lparr>debugPrintPtr = NoPrint, m_id = ident, m_hMapFile = 0, m_hMapFileName = None,
      m_hSignal = SigNull, m_hAvail = SigNull, m_hConnWatchDogSignal = SigNull,
      m_name = shmName, m_pBuf = None, m_log_name_id = None\<rparr>"

definition enableConsoleDebug :: "'b IpcBase_scheme \<Rightarrow> 'b IpcBase_scheme" where
  "enableConsoleDebug b = b\<lparr>debugPrintPtr := ConsolePrint\<rparr>"

definition getId :: "'b IpcBase_scheme \<Rightarrow> c_int" where
  "getId b = m_id b"

section \<open>Names\<close>

text \<open>\<open>std::to_string\<close> of a \<open>size_t\<close>: its decimal digits.\<close>

fun to_string :: "nat \<Rightarrow> string" where
  "to_string n = (if n < 10 then [char_of (48 + n)]
                  else to_string (n div 10) @ [char_of (48 + n mod 10)])"

declare to_string.simps [simp del]

fun getMappedName :: "unix \<Rightarrow> string \<Rightarrow> string \<Rightarrow> string" where
  "getMappedName Linux baseName name = baseName @ name"
| "getMappedName (Apple hash) baseName name =
     (let nameOfMapping = baseName @ name
      in if 29 \<le> length nameOfMapping then ''/'' @ to_string (hash nameOfMapping)
         else nameOfMapping)"

section \<open>Shared memory\<close>

text \<open>
  The \<open>bool* success\<close> of the code is threaded through: it is only ever set to false.
\<close>

definition openShm :: "unix \<Rightarrow> bool \<Rightarrow> string \<Rightarrow> bool \<Rightarrow> 'a os_scheme \<Rightarrow> bool \<times> int \<times> 'a os_scheme" where
  "openShm u success name create s =
     (let (handle, s1) =
        (if create then
           (if is_Apple u then shm_open name True False (shm_unlink name s)
            else shm_open name True True s)
         else shm_open name False False s)
      in (success \<and> handle \<noteq> -1, handle, s1))"

definition mapShm ::
  "unix \<Rightarrow> bool \<Rightarrow> 'b IpcBase_scheme \<Rightarrow> int \<Rightarrow> bool \<Rightarrow> 'a os_scheme \<Rightarrow>
   bool \<times> 'b IpcBase_scheme \<times> 'a os_scheme" where
  "mapShm u success b handle trunc s =
     (let (ok, s1) = (if trunc then ftruncate handle (sizeof_SharedFmiMem u) s else (True, s))
      in if \<not> ok then (False, b, s1)
         else case mmap handle s1 of
           None \<Rightarrow> (False, b, s1)
         | Some p \<Rightarrow> (success, b\<lparr>m_pBuf := Some p\<rparr>, s1))"

section \<open>Semaphores\<close>

text \<open>
  The code's last statement, \<open>if (!success) signal = NULL\<close>, tests the pointer and not what
  it points to; every caller passes the address of a local variable, so it never applies, and a
  failed creation returns \<open>SEM_FAILED\<close>.
\<close>

definition createSignal ::
  "unix \<Rightarrow> bool \<Rightarrow> 'b IpcBase_scheme \<Rightarrow> string \<Rightarrow> bool \<Rightarrow> 'a os_scheme \<Rightarrow>
   bool \<times> SIGNAL_HANDLE \<times> 'a os_scheme" where
  "createSignal u success b baseName create s =
     (let signalName = getMappedName u baseName (m_name b);
          (signal, s1) = (if create then sem_open signalName True (sem_unlink signalName s)
                          else sem_open signalName False s)
      in (success \<and> signal \<noteq> SigFailed, signal, s1))"

text \<open>
  The absolute deadline: the whole seconds of the timeout are added twice (the assignment to
  \<open>tv_sec\<close> is repeated in the source), and the nanoseconds are not carried into the seconds.
\<close>

definition deadline :: "int \<times> int \<Rightarrow> nat \<Rightarrow> int \<times> int" where
  "deadline now dwTimeout =
     (let tv_sec = fst now + int (dwTimeout div 1000);
          tv_sec = tv_sec + int (dwTimeout div 1000);
          tv_nsec = snd now + int (dwTimeout mod 1000) * 1000000
      in (tv_sec, tv_nsec))"

definition INFINITE :: nat where
  "INFINITE = 0"

definition signalWait ::
  "('a os_scheme) env \<Rightarrow> SIGNAL_HANDLE \<Rightarrow> nat \<Rightarrow> (bool, 'a os_scheme) prog" where
  "signalWait env signal dwTimeout s =
     (if dwTimeout = 0 then sem_wait env signal s
      else sem_timedwait env signal (deadline (clock s) dwTimeout) s)"

text \<open>A failed \<open>sem_post\<close> is only reported.\<close>

definition signalPost :: "SIGNAL_HANDLE \<Rightarrow> (unit, 'a os_scheme) prog" where
  "signalPost signal = andThen (sem_post signal) (\<lambda>_. ret ())"

section \<open>Destruction\<close>

text \<open>
  Closing a semaphore and unmapping release only this process's references. The last step
  closes the descriptor and removes the \<^emph>\<open>name\<close> of the shared memory, on either end; with a
  failed \<open>openShm\<close> the descriptor is -1, which is true, and a name that was never set is a
  null pointer.
\<close>

definition signalClose :: "SIGNAL_HANDLE \<Rightarrow> 'a os_scheme \<Rightarrow> 'a os_scheme" where
  "signalClose signal s = s"

definition unmap :: "nat \<Rightarrow> 'a os_scheme \<Rightarrow> 'a os_scheme" where
  "unmap p s = s"

definition IpcBase_delete :: "unix \<Rightarrow> 'b IpcBase_scheme \<Rightarrow> (unit, 'a os_scheme) prog" where
  "IpcBase_delete u b s =
     (let s1 = (if sig_truth u (m_hSignal b) then signalClose (m_hSignal b) s else s);
          s2 = (if sig_truth u (m_hAvail b) then signalClose (m_hAvail b) s1 else s1);
          s3 = (if sig_truth u (m_hConnWatchDogSignal b)
                then signalClose (m_hConnWatchDogSignal b) s2 else s2);
          s4 = (case m_pBuf b of None \<Rightarrow> s3 | Some p \<Rightarrow> unmap p s3)
      in if m_hMapFile b \<noteq> 0 then
           (case m_hMapFileName b of
              None \<Rightarrow> Fault NullDeref
            | Some n \<Rightarrow> Ret () (shm_unlink n (close_fd (m_hMapFile b) s4)))
         else Ret () s4)"

section \<open>Facts\<close>

text \<open>
  The three semaphores of one channel have three names: always on Linux, and on macOS unless the
  hashes of long names collide.
\<close>

definition signal_names_distinct :: "unix \<Rightarrow> string \<Rightarrow> bool" where
  "signal_names_distinct u key \<longleftrightarrow>
     distinct (map (\<lambda>b. getMappedName u b key)
       [SIGNAL_NAME, SIGNAL_AVALIABLE_NAME, SIGNAL_CONN_WATCH_DOG_NAME])"

lemma append_key_inject [simp]:
  fixes a b :: string
  shows "a @ key = b @ key \<longleftrightarrow> a = b"
  by simp

lemma signal_names_distinct_Linux: "signal_names_distinct Linux key"
  by (simp add: signal_names_distinct_def base_names)

lemma signal_names_distinct_Apple_short:
  "length key < 16 \<Longrightarrow> signal_names_distinct (Apple h) key"
  by (simp add: signal_names_distinct_def base_names Let_def)

lemma openShm_wf: "os_wf s \<Longrightarrow> os_wf (snd (snd (openShm u ok n c s)))"
  by (auto simp: openShm_def case_prod_beta intro!: os_wf_calls)

lemma mapShm_wf: "os_wf s \<Longrightarrow> os_wf (snd (snd (mapShm u ok b h t s)))"
  by (auto simp: mapShm_def case_prod_beta os_wf_calls split: option.split)

lemma createSignal_wf: "os_wf s \<Longrightarrow> os_wf (snd (snd (createSignal u ok b n c s)))"
  by (auto simp: createSignal_def case_prod_beta Let_def intro!: os_wf_calls)

lemma openShm_wfD: "openShm u ok n c s = (ok', h, s') \<Longrightarrow> os_wf s \<Longrightarrow> os_wf s'"
  by (metis openShm_wf snd_conv)

lemma mapShm_wfD: "mapShm u ok b h t s = (ok', b', s') \<Longrightarrow> os_wf s \<Longrightarrow> os_wf s'"
  by (metis mapShm_wf snd_conv)

lemma createSignal_wfD: "createSignal u ok b n c s = (ok', h, s') \<Longrightarrow> os_wf s \<Longrightarrow> os_wf s'"
  by (metis createSignal_wf snd_conv)

lemmas ipc_wfD = openShm_wfD mapShm_wfD createSignal_wfD

lemma signalWait_available:
  "0 < sem_val s k \<Longrightarrow> signalWait env (Sig k) t s = Ret True (sem_take k s)"
  by (simp add: signalWait_def)

lemma signalPost_Sig:
  "sem_val s k < SEM_VALUE_MAX \<Longrightarrow>
   signalPost (Sig k) s = Ret () (s\<lparr>sem_val := (sem_val s)(k := Suc (sem_val s k))\<rparr>)"
  by (simp add: signalPost_def)

section \<open>Properties\<close>

definition in_ns :: "int \<times> int \<Rightarrow> int" where
  "in_ns t = fst t * 1000000000 + snd t"

lemma deadline_in_ns:
  "in_ns (deadline now t) - in_ns now = int (2000 * (t div 1000) + t mod 1000) * 1000000"
  by (simp add: in_ns_def deadline_def Let_def algebra_simps)

text \<open>
  The deadline of a timed wait lies exactly the requested number of milliseconds ahead if and
  only if less than a second is asked for: \<open>signalWait\<close> adds the whole seconds twice.
\<close>

theorem deadline_exact_iff:
  "in_ns (deadline now t) - in_ns now = int t * 1000000 \<longleftrightarrow> t < 1000"
proof -
  have "int (2000 * (t div 1000) + t mod 1000) = int t + 1000 * int (t div 1000)"
    by (simp add: zdiv_int zmod_int)
  then show ?thesis
    unfolding deadline_in_ns by auto
qed

text \<open>
  A timed wait on an unposted semaphore gives up at once, without letting any other process
  run, whenever the milliseconds of the timeout carry the clock's nanoseconds past a second; so
  for each timeout that is not a whole number of seconds there are clock readings at which it
  does not wait.
\<close>

theorem timed_wait_no_carry:
  assumes "0 < t mod 1000" and "sem_val s k = 0"
    and "1000000000 - int (t mod 1000) * 1000000 \<le> snd (clock s)"
  shows "signalWait env (Sig k) t s = Ret False s"
proof -
  have "t \<noteq> 0" using assms(1) by auto
  then show ?thesis
    using assms by (simp add: signalWait_def deadline_def Let_def)
qed

theorem timed_wait_no_carry_witness:
  "snd (clock (os_init\<lparr>clock := (5, 995000000)\<rparr>)) < 1000000000 \<and>
   signalWait (\<lambda>_ s. s\<lparr>sem_val := \<lambda>_. 1\<rparr>) (Sig 0) 10 (os_init\<lparr>clock := (5, 995000000)\<rparr>) =
     Ret False (os_init\<lparr>clock := (5, 995000000)\<rparr>)"
  using timed_wait_no_carry [of 10 "os_init\<lparr>clock := (5, 995000000)\<rparr>" 0 "\<lambda>_ s. s\<lparr>sem_val := \<lambda>_. 1\<rparr>"]
  by (simp add: os_init_def)

end
