(* ===== verification/IpcServer.thy ===== *)
theory IpcServer
  imports IpcBase
begin

text \<open>
  The serving end of a channel (libshmipc/IpcServer.h, IpcServer.cpp): it creates the shared
  memory and the three semaphores, starts the thread that posts the watch-dog semaphore, and
  sends a message by writing it, posting \<open>avail\<close> and waiting for \<open>signal\<close>.
\<close>

section \<open>Object and operations\<close>

text \<open>\<open>m_connWatchDogThread\<close> says whether the thread pointer is not null.\<close>

record IpcServer = IpcBase +
  m_connected :: bool
  m_connWatchDogThread :: bool

definition ALIVE_DELAY :: nat where
  "ALIVE_DELAY = 200"

definition IpcServer_new :: "c_int \<Rightarrow> string \<Rightarrow> IpcServer" where
  "IpcServer_new ident name =
     (IpcBase.extend (IpcBase_new ident name)
        \<lparr>m_connected = False, m_connWatchDogThread = False\<rparr>)\<lparr>m_log_name_id := Some ''server''\<rparr>"

text \<open>
  One pass of the watch-dog thread's loop (\<open>None\<close> when \<open>m_connected\<close> is seen false and the
  thread ends), and the passes it makes when it sees the flag as \<open>flags\<close> say; sleeping between
  two passes changes nothing.
\<close>

definition connWatchDog_pass :: "IpcServer \<Rightarrow> bool \<Rightarrow> (bool, 'a os_scheme) prog" where
  "connWatchDog_pass srv connected =
     (if connected then andThen (signalPost (m_hConnWatchDogSignal srv)) (\<lambda>_. ret True)
      else ret False)"

fun connWatchDog :: "IpcServer \<Rightarrow> bool list \<Rightarrow> (unit, 'a os_scheme) prog" where
  "connWatchDog srv [] = ret ()"
| "connWatchDog srv (c # cs) =
     andThen (connWatchDog_pass srv c) (\<lambda>go. if go then connWatchDog srv cs else ret ())"

text \<open>
  Starting it. How far the new thread comes before the one that starts it returns is for the scheduler:
  \<open>thread_lead\<close> passes. The later ones, which post the same semaphore, are \<open>connWatchDog\<close> again; nothing
  waits on that semaphore.
\<close>

definition start_watchdog :: "IpcServer \<Rightarrow> 'a os_scheme \<Rightarrow> 'a os_scheme" where
  "start_watchdog srv s = (case connWatchDog srv (replicate (thread_lead s) True) s of Ret _ t \<Rightarrow> t | _ \<Rightarrow> s)"

text \<open>
  \<open>create\<close> in its two halves, the shared memory and then the semaphores and the thread: other
  processes can run in between.
\<close>

definition create_shm ::
  "unix \<Rightarrow> IpcServer \<Rightarrow> 'a os_scheme \<Rightarrow> bool \<times> IpcServer \<times> 'a os_scheme" where
  "create_shm u srv s =
     (let nameOfMapping = getMappedName u SHARED_MEM_BASE_NAME (m_name srv);
          (success, h, s) = openShm u True nameOfMapping True s;
          srv = srv\<lparr>m_hMapFile := h\<rparr>
      in if \<not> success then (False, srv, s) else
      let srv = srv\<lparr>m_hMapFileName := Some nameOfMapping\<rparr>;
          (success, srv, s) = mapShm u success srv (m_hMapFile srv) True s
      in if \<not> success then (False, srv, s) else
      (success, srv, s))"

definition create_signals ::
  "unix \<Rightarrow> IpcServer \<Rightarrow> 'a os_scheme \<Rightarrow> bool \<times> IpcServer \<times> 'a os_scheme" where
  "create_signals u srv s =
     (let (success, h, s) = createSignal u True srv SIGNAL_NAME True s;
          srv = srv\<lparr>m_hSignal := h\<rparr>
      in if \<not> success then (success, srv, s) else
      let (success, h, s) = createSignal u success srv SIGNAL_AVALIABLE_NAME True s;
          srv = srv\<lparr>m_hAvail := h\<rparr>
      in if \<not> success then (success, srv, s) else
      let (success, h, s) = createSignal u success srv SIGNAL_CONN_WATCH_DOG_NAME True s;
          srv = srv\<lparr>m_hConnWatchDogSignal := h\<rparr>
      in if \<not> success then (success, srv, s) else
      let srv = srv\<lparr>m_connected := True, m_connWatchDogThread := True\<rparr>
      in (success, srv, start_watchdog srv s))"

definition IpcServer_create ::
  "unix \<Rightarrow> IpcServer \<Rightarrow> 'a os_scheme \<Rightarrow> bool \<times> IpcServer \<times> 'a os_scheme" where
  "IpcServer_create u srv s =
     (let (success, srv, s) = create_shm u srv s
      in if \<not> success then (False, srv, s) else create_signals u srv s)"

definition IpcServer_close :: "IpcServer \<Rightarrow> IpcServer" where
  "IpcServer_close srv = srv\<lparr>m_connected := False\<rparr>"

text \<open>
  \<open>send\<close> returns a pointer into the shared region: the mapping, or \<open>None\<close> for NULL.
\<close>

definition IpcServer_send ::
  "('a os_scheme) env \<Rightarrow> IpcServer \<Rightarrow> SharedFmiMessage \<Rightarrow> nat \<Rightarrow> (nat option, 'a os_scheme) prog"
where
  "IpcServer_send env srv msg dwTimeout =
     andThen (need NullDeref (m_pBuf srv)) (\<lambda>p.
     andThen (store_msg p msg) (\<lambda>_.
     andThen (signalPost (m_hAvail srv)) (\<lambda>_.
     andThen (signalWait env (m_hSignal srv) dwTimeout) (\<lambda>ok.
     ret (if ok then Some p else None)))))"

text \<open>
  The destructor joins the watch-dog thread without asking whether \<open>create\<close> ever started it.
\<close>

definition IpcServer_delete :: "unix \<Rightarrow> IpcServer \<Rightarrow> (unit, 'a os_scheme) prog" where
  "IpcServer_delete u srv =
     (let srv = (IpcServer_close srv)\<lparr>m_connected := False\<rparr>
      in if m_connWatchDogThread srv then IpcBase_delete u srv else fail NullDeref)"

text \<open>The tokens of the watch-dog's semaphore after some passes, of which those at the maximum post nothing.\<close>

fun watchdog_posts :: "SIGNAL_HANDLE \<Rightarrow> nat \<Rightarrow> (nat \<Rightarrow> nat) \<Rightarrow> nat \<Rightarrow> nat" where
  "watchdog_posts (Sig k) n v = v(k := max (v k) (min SEM_VALUE_MAX (v k + n)))"
| "watchdog_posts _ n v = v"

lemma connWatchDog_run:
  assumes "m_hConnWatchDogSignal srv = Sig k"
  shows "connWatchDog srv (replicate n True) s = Ret () (s\<lparr>sem_val := watchdog_posts (Sig k) n (sem_val s)\<rparr>)"
proof (induction n arbitrary: s)
  case (Suc n)
  have "signalPost (Sig k) s = Ret () (s\<lparr>sem_val := watchdog_posts (Sig k) 1 (sem_val s)\<rparr>)"
    by (cases "sem_val s k < SEM_VALUE_MAX") (auto simp: signalPost_def fun_upd_idem)
  moreover have "watchdog_posts (Sig k) n (watchdog_posts (Sig k) 1 v) = watchdog_posts (Sig k) (Suc n) v" for v
    by (rule ext) auto
  ultimately show ?case
    using assms Suc.IH by (simp add: connWatchDog_pass_def del: watchdog_posts.simps)
qed (simp add: fun_upd_idem)

lemma start_watchdog_run [simp]:
  "start_watchdog srv s = s\<lparr>sem_val := watchdog_posts (m_hConnWatchDogSignal srv) (thread_lead s) (sem_val s)\<rparr>"
proof (cases "m_hConnWatchDogSignal srv")
  case (Sig k)
  then show ?thesis by (simp add: start_watchdog_def connWatchDog_run)
qed (cases "thread_lead s"; simp add: start_watchdog_def connWatchDog_pass_def signalPost_def)+

text \<open>Closing first makes no difference.\<close>

lemma IpcServer_delete_close: "IpcServer_delete u (IpcServer_close srv) = IpcServer_delete u srv"
  by (rule ext) (simp add: IpcServer_delete_def IpcServer_close_def)

section \<open>A channel that was created\<close>

text \<open>
  What a successful \<open>create\<close> establishes: the region is mapped at its full size, and each of the
  handles is the semaphore registered under its own name, new and zero.
\<close>

definition server_ready :: "unix \<Rightarrow> IpcServer \<Rightarrow> 'a os_scheme \<Rightarrow> bool" where
  "server_ready u srv s \<longleftrightarrow>
     m_connected srv \<and> m_connWatchDogThread srv \<and>
     (\<exists>p. m_pBuf srv = Some p \<and> shm_size (shm_objs s p) = sizeof_SharedFmiMem u \<and>
        shm_names s (getMappedName u SHARED_MEM_BASE_NAME (m_name srv)) = Some p) \<and>
     (\<exists>k. m_hSignal srv = Sig k \<and> sem_names s (getMappedName u SIGNAL_NAME (m_name srv)) = Some k) \<and>
     (\<exists>k. m_hAvail srv = Sig k \<and>
        sem_names s (getMappedName u SIGNAL_AVALIABLE_NAME (m_name srv)) = Some k) \<and>
     (\<exists>k. m_hConnWatchDogSignal srv = Sig k \<and>
        sem_names s (getMappedName u SIGNAL_CONN_WATCH_DOG_NAME (m_name srv)) = Some k)"

end
