(* ===== verification/IpcClient.thy ===== *)
theory IpcClient
  imports IpcBase
begin

text \<open>
  The connecting end of a channel (libshmipc/IpcClient.h, IpcClient.cpp): it opens what the
  server created, waits for a message on \<open>avail\<close> and replies by overwriting the message and
  posting \<open>signal\<close>. It adds no field to \<open>IpcBase\<close>.
\<close>

type_synonym IpcClient = IpcBase

definition IpcClient_new :: "c_int \<Rightarrow> string \<Rightarrow> IpcClient" where
  "IpcClient_new ident name = (IpcBase_new ident name)\<lparr>m_log_name_id := Some ''client''\<rparr>"

definition IpcClient_delete :: "unix \<Rightarrow> IpcClient \<Rightarrow> (unit, 'a os_scheme) prog" where
  "IpcClient_delete u cl = IpcBase_delete u cl"

text \<open>
  \<open>&m_pBuf->message\<close>: the message is the first field, so the pointer is the mapping's, null
  with it.
\<close>

definition getMessage ::
  "('a os_scheme) env \<Rightarrow> IpcClient \<Rightarrow> nat \<Rightarrow> (nat option, 'a os_scheme) prog" where
  "getMessage env cl dwTimeout =
     andThen (signalWait env (m_hAvail cl) dwTimeout) (\<lambda>ok. ret (if ok then m_pBuf cl else None))"

definition sendReply :: "IpcClient \<Rightarrow> SharedFmiMessage \<Rightarrow> (unit, 'a os_scheme) prog" where
  "sendReply cl reply =
     andThen (need NullDeref (m_pBuf cl)) (\<lambda>p.
     andThen (store_msg p reply) (\<lambda>_. signalPost (m_hSignal cl)))"

definition IpcClient_connect ::
  "unix \<Rightarrow> IpcClient \<Rightarrow> 'a os_scheme \<Rightarrow> bool \<times> IpcClient \<times> 'a os_scheme" where
  "IpcClient_connect u cl s =
     (let cl = cl\<lparr>m_hMapFile := 0, m_hSignal := SigNull, m_hAvail := SigNull, m_pBuf := None\<rparr>;
          nameOfMapping = getMappedName u SHARED_MEM_BASE_NAME (m_name cl);
          (success, h, s) = openShm u True nameOfMapping False s;
          cl = cl\<lparr>m_hMapFile := h, m_hMapFileName := Some nameOfMapping\<rparr>
      in if \<not> success then (success, cl, s) else
      let (success, cl, s) = mapShm u success cl (m_hMapFile cl) False s
      in if \<not> success then (success, cl, s) else
      let (success, h, s) = createSignal u success cl SIGNAL_NAME False s;
          cl = cl\<lparr>m_hSignal := h\<rparr>
      in if \<not> success then (success, cl, s) else
      let (success, h, s) = createSignal u success cl SIGNAL_AVALIABLE_NAME False s;
          cl = cl\<lparr>m_hAvail := h\<rparr>
      in if \<not> success then (success, cl, s) else
      let (success, h, s) = createSignal u success cl SIGNAL_CONN_WATCH_DOG_NAME False s;
          cl = cl\<lparr>m_hConnWatchDogSignal := h\<rparr>
      in (success, cl, s))"

definition waitForWatchDogEvent ::
  "('a os_scheme) env \<Rightarrow> IpcClient \<Rightarrow> nat \<Rightarrow> (unit, 'a os_scheme) prog" where
  "waitForWatchDogEvent env cl dwTimeout =
     andThen (signalWait env (m_hConnWatchDogSignal cl) dwTimeout) (\<lambda>_. ret ())"

definition IsOk :: "IpcClient \<Rightarrow> bool" where
  "IsOk cl \<longleftrightarrow> m_pBuf cl \<noteq> None"

end
