(* ===== verification/Rendezvous.thy ===== *)
theory Rendezvous
  imports IpcServer IpcClient
begin

text \<open>
  How a server and a client find each other through the names of the operating system: when
  creating and connecting succeed, that they end up with the same memory and the same
  semaphores, what a failed connection leaves behind, and what destroying either end does.
\<close>

section \<open>The base operations\<close>

named_theorems os_ops \<open>definitions of the system calls and the base operations\<close>

lemmas os_calls [os_ops] =
  openShm_def shm_open_def new_fd_def new_obj_def shm_unlink_def close_fd_def mapShm_def
  ftruncate_def mmap_def createSignal_def sem_open_def sem_unlink_def

lemma openShm_create:
  assumes "os_wf s" and "openShm u True n True s = (ok, h, s')"
  shows "ok \<longleftrightarrow> \<not> refuse s (OpShmOpen n)"
    and "\<not> ok \<Longrightarrow> h = -1"
    and "ok \<Longrightarrow> h = next_fd s \<and> 3 \<le> h"
    and "ok \<Longrightarrow> fds s' h = shm_names s' n \<and> fds s' h \<noteq> None"
    and "refuse s' = refuse s" and "next_sem s' = next_sem s"
    and "sem_val s' = sem_val s" and "sem_names s' = sem_names s"
  using assms by (auto simp: os_ops Let_def os_wf_def split: if_splits option.splits)

lemma createSignal_create:
  assumes "createSignal u True b base True s = (ok, h, s')"
  shows "ok \<longleftrightarrow> \<not> refuse s (OpSemOpen (getMappedName u base (m_name b)))"
    and "ok \<Longrightarrow> h = Sig (next_sem s)" and "\<not> ok \<Longrightarrow> h = SigFailed"
    and "ok \<Longrightarrow> sem_names s' = (sem_names s)(getMappedName u base (m_name b) := Some (next_sem s))"
    and "ok \<Longrightarrow> sem_val s' = (sem_val s)(next_sem s := 0)"
    and "ok \<Longrightarrow> next_sem s' = Suc (next_sem s)"
    and "refuse s' = refuse s" and "shm_names s' = shm_names s" and "shm_objs s' = shm_objs s"
    and "fds s' = fds s"
  using assms by (auto simp: os_ops Let_def split: if_splits option.splits)

lemma createSignal_open:
  "createSignal u True b base False s =
     (let n = getMappedName u base (m_name b)
      in if refuse s (OpSemOpen n) then (False, SigFailed, s)
         else case sem_names s n of None \<Rightarrow> (False, SigFailed, s) | Some k \<Rightarrow> (True, Sig k, s))"
  by (auto simp: os_ops Let_def split: option.split)

section \<open>Creating\<close>

text \<open>The system calls that can make \<open>create\<close> fail, in their order.\<close>

definition create_ops :: "unix \<Rightarrow> string \<Rightarrow> int \<Rightarrow> os_op list" where
  "create_ops u key fd =
     [OpShmOpen (getMappedName u SHARED_MEM_BASE_NAME key), OpFtruncate fd, OpMmap fd,
      OpSemOpen (getMappedName u SIGNAL_NAME key),
      OpSemOpen (getMappedName u SIGNAL_AVALIABLE_NAME key),
      OpSemOpen (getMappedName u SIGNAL_CONN_WATCH_DOG_NAME key)]"

lemma create_shm_wf: "create_shm u srv s = (ok, srv', s') \<Longrightarrow> os_wf s \<Longrightarrow> os_wf s'"
  by (auto simp: create_shm_def Let_def dest!: ipc_wfD split: prod.splits if_splits)

lemma create_signals_wf: "create_signals u srv s = (ok, srv', s') \<Longrightarrow> os_wf s \<Longrightarrow> os_wf s'"
  by (auto simp: create_signals_def Let_def dest!: ipc_wfD split: prod.splits if_splits)

lemma create_shm_ok:
  assumes "os_wf s" and "create_shm u srv s = (ok, srv', s')"
  shows "ok \<longleftrightarrow> (\<forall>op\<in>set (take 3 (create_ops u (m_name srv) (next_fd s))). \<not> refuse s op)"
    and "m_name srv' = m_name srv" and "refuse s' = refuse s"
    and "m_connWatchDogThread srv' = m_connWatchDogThread srv"
    and "sem_names s' = sem_names s"
    and "ok \<Longrightarrow> \<exists>p. m_pBuf srv' = Some p \<and> shm_size (shm_objs s' p) = sizeof_SharedFmiMem u \<and>
           shm_names s' (getMappedName u SHARED_MEM_BASE_NAME (m_name srv)) = Some p"
proof -
  have "3 \<le> next_fd s" using assms(1) by (simp add: os_wf_def)
  note facts = assms(2) this
  show "ok \<longleftrightarrow> (\<forall>op\<in>set (take 3 (create_ops u (m_name srv) (next_fd s))). \<not> refuse s op)"
    using facts by (auto simp: create_shm_def create_ops_def os_ops Let_def
        split: if_splits option.splits prod.splits)
  show "m_name srv' = m_name srv" and "refuse s' = refuse s"
    and "m_connWatchDogThread srv' = m_connWatchDogThread srv"
    and "sem_names s' = sem_names s"
    using facts by (auto simp: create_shm_def os_ops Let_def
        split: if_splits option.splits prod.splits)
  show "\<exists>p. m_pBuf srv' = Some p \<and> shm_size (shm_objs s' p) = sizeof_SharedFmiMem u \<and>
           shm_names s' (getMappedName u SHARED_MEM_BASE_NAME (m_name srv)) = Some p" if ok
    using facts that by (auto simp: create_shm_def os_ops Let_def
        split: if_splits option.splits prod.splits)
qed

lemma create_shm_lead: "create_shm u srv s = (ok, srv', s') \<Longrightarrow> thread_lead s' = thread_lead s"
  by (auto simp: create_shm_def os_ops Let_def split: if_splits option.splits prod.splits)

lemma create_signals_ok:
  assumes "create_signals u srv s = (ok, srv', s')"
  shows "ok \<longleftrightarrow> (\<forall>op\<in>set (drop 3 (create_ops u (m_name srv) fd)). \<not> refuse s op)"
    and "\<not> ok \<Longrightarrow> m_connWatchDogThread srv' = m_connWatchDogThread srv"
    and "m_name srv' = m_name srv" and "m_pBuf srv' = m_pBuf srv"
    and "m_hMapFile srv' = m_hMapFile srv"
    and "shm_names s' = shm_names s" and "shm_objs s' = shm_objs s" and "refuse s' = refuse s"
  using assms
  by (auto simp: create_signals_def create_ops_def os_ops Let_def
      split: if_splits option.splits prod.splits)

lemma create_signals_ready:
  assumes "create_signals u srv s = (True, srv', s')"
    and "signal_names_distinct u (m_name srv)"
    and "m_pBuf srv = Some p" and "shm_size (shm_objs s p) = sizeof_SharedFmiMem u"
    and "shm_names s (getMappedName u SHARED_MEM_BASE_NAME (m_name srv)) = Some p"
  shows "server_ready u srv' s'"
    and "\<exists>a b c. m_hSignal srv' = Sig a \<and> m_hAvail srv' = Sig b \<and> m_hConnWatchDogSignal srv' = Sig c \<and>
           distinct [a, b, c] \<and> sem_val s' a = 0 \<and> sem_val s' b = 0 \<and> sem_val s' c = min SEM_VALUE_MAX (thread_lead s)"
  using assms
  by (auto simp: create_signals_def server_ready_def signal_names_distinct_def os_ops Let_def
      split: if_splits option.splits prod.splits)

lemma IpcServer_create_split:
  assumes "IpcServer_create u srv s = (ok, srv', s')"
  obtains srv1 s1 where "create_shm u srv s = (True, srv1, s1)"
      and "create_signals u srv1 s1 = (ok, srv', s')"
    | "create_shm u srv s = (False, srv', s')" and "\<not> ok"
  using assms by (auto simp: IpcServer_create_def split: prod.splits if_splits)

lemma IpcServer_create_ready:
  assumes "os_wf s" and "signal_names_distinct u (m_name srv)"
    and "IpcServer_create u srv s = (True, srv', s')"
  shows "server_ready u srv' s'" and "os_wf s'" and "m_name srv' = m_name srv"
    and "\<exists>a b c. m_hSignal srv' = Sig a \<and> m_hAvail srv' = Sig b \<and> m_hConnWatchDogSignal srv' = Sig c \<and>
           distinct [a, b, c] \<and> sem_val s' a = 0 \<and> sem_val s' b = 0 \<and> sem_val s' c = min SEM_VALUE_MAX (thread_lead s)"
proof -
  obtain srv1 s1 where 1: "create_shm u srv s = (True, srv1, s1)"
    and 2: "create_signals u srv1 s1 = (True, srv', s')"
    using assms(3) by (blast elim: IpcServer_create_split)
  note shm = create_shm_ok [OF assms(1) 1]
  from shm(6) obtain p where p: "m_pBuf srv1 = Some p"
      "shm_size (shm_objs s1 p) = sizeof_SharedFmiMem u"
      "shm_names s1 (getMappedName u SHARED_MEM_BASE_NAME (m_name srv1)) = Some p"
    using shm(2) by auto
  have d: "signal_names_distinct u (m_name srv1)"
    using assms(2) shm(2) by simp
  show "server_ready u srv' s'" by (rule create_signals_ready(1) [OF 2 d p])
  show "os_wf s'" by (rule create_signals_wf [OF 2 create_shm_wf [OF 1 assms(1)]])
  show "m_name srv' = m_name srv" using create_signals_ok(3) [OF 2] shm(2) by simp
  show "\<exists>a b c. m_hSignal srv' = Sig a \<and> m_hAvail srv' = Sig b \<and> m_hConnWatchDogSignal srv' = Sig c \<and>
           distinct [a, b, c] \<and> sem_val s' a = 0 \<and> sem_val s' b = 0 \<and> sem_val s' c = min SEM_VALUE_MAX (thread_lead s)"
    using create_signals_ready(2) [OF 2 d p] create_shm_lead [OF 1] by simp
qed

text \<open>A failed \<open>create\<close> never starts the watch-dog thread.\<close>

lemma IpcServer_create_failed:
  assumes "os_wf s" and "IpcServer_create u srv s = (False, srv', s')"
  shows "m_connWatchDogThread srv' = m_connWatchDogThread srv"
  using assms
  by (elim IpcServer_create_split)
    (auto dest: create_shm_ok(4) create_signals_ok(2))

lemma create_success_iff_aux:
  assumes "os_wf s"
  shows "fst (IpcServer_create u srv s) \<longleftrightarrow>
    (\<forall>op\<in>set (create_ops u (m_name srv) (next_fd s)). \<not> refuse s op)"
proof -
  obtain ok1 srv1 s1 where 1: "create_shm u srv s = (ok1, srv1, s1)" by (metis prod_cases3)
  obtain ok2 srv2 s2 where 2: "create_signals u srv1 s1 = (ok2, srv2, s2)" by (metis prod_cases3)
  have "fst (IpcServer_create u srv s) \<longleftrightarrow> ok1 \<and> ok2"
    by (simp add: IpcServer_create_def 1 2)
  also have "\<dots> \<longleftrightarrow> (\<forall>op\<in>set (take 3 (create_ops u (m_name srv) (next_fd s))). \<not> refuse s op) \<and>
      (\<forall>op\<in>set (drop 3 (create_ops u (m_name srv) (next_fd s))). \<not> refuse s op)"
    using create_shm_ok(1-3) [OF assms 1] create_signals_ok(1) [OF 2] by simp
  finally show ?thesis by (simp add: create_ops_def)
qed

section \<open>Connecting\<close>

definition connect_names :: "unix \<Rightarrow> string \<Rightarrow> string list" where
  "connect_names u key =
     map (\<lambda>b. getMappedName u b key) [SIGNAL_NAME, SIGNAL_AVALIABLE_NAME, SIGNAL_CONN_WATCH_DOG_NAME]"

text \<open>What a connection needs: the region and the three semaphores registered, nothing refused.\<close>

definition connectable :: "unix \<Rightarrow> string \<Rightarrow> 'a os_scheme \<Rightarrow> bool" where
  "connectable u key s \<longleftrightarrow>
     shm_names s (getMappedName u SHARED_MEM_BASE_NAME key) \<noteq> None \<and>
     \<not> refuse s (OpShmOpen (getMappedName u SHARED_MEM_BASE_NAME key)) \<and>
     \<not> refuse s (OpMmap (next_fd s)) \<and>
     (\<forall>n\<in>set (connect_names u key). sem_names s n \<noteq> None \<and> \<not> refuse s (OpSemOpen n))"

lemma connect_iff:
  assumes "os_wf s"
  shows "fst (IpcClient_connect u cl s) \<longleftrightarrow> connectable u (m_name cl) s"
proof -
  have "3 \<le> next_fd s" using assms by (simp add: os_wf_def)
  then show ?thesis
    by (auto simp: IpcClient_connect_def connectable_def connect_names_def createSignal_open
        openShm_def shm_open_def new_fd_def mapShm_def mmap_def Let_def
        split: if_splits option.splits prod.splits)
qed

text \<open>Connecting only opens: names, objects and semaphores are as before.\<close>

lemma connect_frame:
  assumes "IpcClient_connect u cl s = (ok, cl', s')"
  shows "shm_names s' = shm_names s" and "shm_objs s' = shm_objs s"
    and "sem_names s' = sem_names s" and "sem_val s' = sem_val s"
    and "refuse s' = refuse s" and "next_sem s' = next_sem s"
    and "m_name cl' = m_name cl"
    and "m_hMapFileName cl' = Some (getMappedName u SHARED_MEM_BASE_NAME (m_name cl))"
  using assms
  by (auto simp: IpcClient_connect_def createSignal_open openShm_def shm_open_def new_fd_def
      mapShm_def mmap_def Let_def split: if_splits option.splits prod.splits)

lemma connect_state:
  assumes "IpcClient_connect u cl s = (ok, cl', s')"
  shows "s' = s\<lparr>fds := fds s', next_fd := next_fd s'\<rparr>"
  using assms
  by (auto simp: IpcClient_connect_def createSignal_open openShm_def shm_open_def new_fd_def
      mapShm_def mmap_def Let_def split: if_splits option.splits prod.splits)

lemma connect_fd:
  assumes "os_wf s" and "IpcClient_connect u cl s = (ok, cl', s')"
  shows "m_hMapFile cl' \<noteq> 0"
proof -
  have "3 \<le> next_fd s" using assms(1) by (simp add: os_wf_def)
  then show ?thesis using assms(2)
    by (auto simp: IpcClient_connect_def createSignal_open openShm_def shm_open_def new_fd_def
      mapShm_def mmap_def Let_def split: if_splits option.splits prod.splits)
qed

lemma connect_wf: "IpcClient_connect u cl s = (ok, cl', s') \<Longrightarrow> os_wf s \<Longrightarrow> os_wf s'"
  by (auto simp: IpcClient_connect_def Let_def dest!: ipc_wfD split: prod.splits if_splits)

lemma connect_handles:
  assumes "IpcClient_connect u cl s = (True, cl', s')" and "os_wf s"
  shows "m_pBuf cl' = shm_names s (getMappedName u SHARED_MEM_BASE_NAME (m_name cl))"
    and "\<exists>k. m_hSignal cl' = Sig k \<and> sem_names s (getMappedName u SIGNAL_NAME (m_name cl)) = Some k"
    and "\<exists>k. m_hAvail cl' = Sig k \<and>
           sem_names s (getMappedName u SIGNAL_AVALIABLE_NAME (m_name cl)) = Some k"
    and "\<exists>k. m_hConnWatchDogSignal cl' = Sig k \<and>
           sem_names s (getMappedName u SIGNAL_CONN_WATCH_DOG_NAME (m_name cl)) = Some k"
  using assms
  by (auto simp: IpcClient_connect_def createSignal_open openShm_def shm_open_def new_fd_def
      mapShm_def mmap_def Let_def os_wf_def split: if_splits option.splits prod.splits)

text \<open>Both ends of a channel hold the same mapping and the same semaphores.\<close>

definition same_channel :: "'a IpcBase_scheme \<Rightarrow> 'b IpcBase_scheme \<Rightarrow> bool" where
  "same_channel a b \<longleftrightarrow>
     m_pBuf a = m_pBuf b \<and> m_pBuf a \<noteq> None \<and> m_hSignal a = m_hSignal b \<and> m_hAvail a = m_hAvail b \<and>
     m_hConnWatchDogSignal a = m_hConnWatchDogSignal b"

lemma server_ready_connect:
  assumes "server_ready u srv s" and "os_wf s" and "m_name cl = m_name srv"
    and "\<And>op. \<not> refuse s op" and "IpcClient_connect u cl s = (ok, cl', s')"
  shows "ok" and "same_channel srv cl'" and "server_ready u srv s'"
proof -
  have "connectable u (m_name cl) s"
    using assms(1,3,4) by (auto simp: server_ready_def connectable_def connect_names_def)
  then show ok using connect_iff [OF assms(2), of u cl] assms(5) by simp
  then have c: "IpcClient_connect u cl s = (True, cl', s')" using assms(5) by simp
  show "same_channel srv cl'"
    using connect_handles [OF c assms(2)] assms(1,3)
    by (auto simp: same_channel_def server_ready_def)
  show "server_ready u srv s'"
    using assms(1) connect_frame [OF c] by (auto simp: server_ready_def)
qed

lemma IpcServer_create_wf:
  "IpcServer_create u srv s = (ok, srv', s') \<Longrightarrow> os_wf s \<Longrightarrow> os_wf s'"
  by (elim IpcServer_create_split) (auto dest: create_shm_wf create_signals_wf)

lemma create_connectable:
  assumes "os_wf s" and "\<And>op. \<not> refuse s op" and "signal_names_distinct u key" and "m_name srv = key"
  shows "connectable u key (snd (snd (IpcServer_create u srv s)))"
proof -
  obtain ok srv' s' where c: "IpcServer_create u srv s = (ok, srv', s')" by (metis prod_cases3)
  then have "ok" using create_success_iff_aux [OF assms(1), of u srv] assms(2) by simp
  with c have c: "IpcServer_create u srv s = (True, srv', s')" by simp
  have "refuse s' = refuse s"
    using c by (rule IpcServer_create_split)
      (use create_shm_ok(3) [OF assms(1), of u srv] create_signals_ok(8) in fastforce)+
  moreover have "server_ready u srv' s'" and "m_name srv' = key"
    using IpcServer_create_ready [OF assms(1) _ c] assms(3,4) by auto
  ultimately show ?thesis
    using assms(2) c by (auto simp: server_ready_def connectable_def connect_names_def)
qed


text \<open>What a successful \<open>create\<close> leaves for the destructor, and what that does then.\<close>

lemma create_shm_file:
  assumes "create_shm u srv s = (True, srv', s')" and "os_wf s"
  shows "m_hMapFileName srv' = Some (getMappedName u SHARED_MEM_BASE_NAME (m_name srv)) \<and> m_hMapFile srv' \<noteq> 0"
proof -
  have "3 \<le> next_fd s" using assms(2) by (simp add: os_wf_def)
  then show ?thesis using assms(1)
    by (auto simp: create_shm_def os_ops Let_def split: if_splits option.splits prod.splits)
qed

lemma create_signals_file:
  "create_signals u srv s = (ok, srv', s') \<Longrightarrow> m_hMapFileName srv' = m_hMapFileName srv"
  by (auto simp: create_signals_def Let_def split: if_splits prod.splits)

lemma IpcServer_create_done:
  assumes "os_wf s" and "signal_names_distinct u (m_name srv)"
    and "IpcServer_create u srv s = (True, srv', s')"
  shows "refuse s' = refuse s"
    and "IpcServer_delete u srv' t = Ret () (shm_unlink (getMappedName u SHARED_MEM_BASE_NAME (m_name srv))
      (close_fd (m_hMapFile srv') t))"
proof -
  obtain srv1 s1 where 1: "create_shm u srv s = (True, srv1, s1)"
    and 2: "create_signals u srv1 s1 = (True, srv', s')"
    using assms(3) by (blast elim: IpcServer_create_split)
  show "refuse s' = refuse s" using create_shm_ok(3) [OF assms(1) 1] create_signals_ok(8) [OF 2] by simp
  have f: "m_hMapFileName srv' = Some (getMappedName u SHARED_MEM_BASE_NAME (m_name srv))" "m_hMapFile srv' \<noteq> 0"
    using create_shm_file [OF 1 assms(1)] create_signals_file [OF 2] create_signals_ok(5) [OF 2] by auto
  have "m_connWatchDogThread srv'"
    using IpcServer_create_ready(1) [OF assms] by (simp add: server_ready_def)
  with f show "IpcServer_delete u srv' t = Ret () (shm_unlink (getMappedName u SHARED_MEM_BASE_NAME (m_name srv))
      (close_fd (m_hMapFile srv') t))"
    by (simp add: IpcServer_delete_def IpcServer_close_def IpcBase_delete_def signalClose_def unmap_def Let_def
        split: option.split)
qed

section \<open>Connecting in a loop\<close>

text \<open>
  Three programs connect in a loop with a new client each time, without deleting the one that
  failed. \<open>cl\<close> is the new client, \<open>n\<close> bounds the attempts looked at, and the others run between two.
\<close>

fun connect_loop ::
  "unix \<Rightarrow> ('a os_scheme) env \<Rightarrow> IpcClient \<Rightarrow> nat \<Rightarrow> (IpcClient option, 'a os_scheme) prog" where
  "connect_loop u env cl 0 = ret None"
| "connect_loop u env cl (Suc n) =
     (\<lambda>s. case IpcClient_connect u cl s of
        (success, client, s) \<Rightarrow>
          if success then Ret (Some client) s else connect_loop u env cl n (env None s))"

text \<open>The state before the attempt number \<open>i\<close>: each attempt that fails is followed by the others.\<close>

fun connect_waits :: "unix \<Rightarrow> ('a os_scheme) env \<Rightarrow> IpcClient \<Rightarrow> nat \<Rightarrow> 'a os_scheme \<Rightarrow> 'a os_scheme" where
  "connect_waits u env cl 0 s = s"
| "connect_waits u env cl (Suc i) s =
     connect_waits u env cl i (env None (snd (snd (IpcClient_connect u cl s))))"

lemma ex_less_Suc_shift: "(\<exists>i<Suc n. P i) \<longleftrightarrow> P 0 \<or> (\<exists>i<n. P (Suc i))"
  by (metis less_Suc_eq_0_disj)

lemma connect_loop_iff:
  assumes "\<And>t. os_wf t \<Longrightarrow> os_wf (env None t)"
  shows "os_wf s \<Longrightarrow> \<exists>c t. connect_loop u env cl n s = Ret c t \<and>
    (c \<noteq> None \<longleftrightarrow> (\<exists>i<n. connectable u (m_name cl) (connect_waits u env cl i s)))"
proof (induction n arbitrary: s)
  case 0
  then show ?case by (simp add: ret_def)
next
  case (Suc n)
  obtain ok c s1 where c: "IpcClient_connect u cl s = (ok, c, s1)" by (metis prod_cases3)
  have ok: "ok \<longleftrightarrow> connectable u (m_name cl) s" using connect_iff [OF Suc.prems, of u cl] c by simp
  have "os_wf (env None s1)" using connect_wf [OF c Suc.prems] assms by simp
  from Suc.IH [OF this] ok c show ?case
    by (cases ok) (auto simp: ex_less_Suc_shift)
qed

text \<open>As long as the region has no name every attempt fails.\<close>

lemma connect_loop_nameless:
  assumes "\<And>t. os_wf t \<Longrightarrow> os_wf (env None t)"
    and "\<And>t. shm_names t (getMappedName u SHARED_MEM_BASE_NAME (m_name cl)) = None \<Longrightarrow>
      shm_names (env None t) (getMappedName u SHARED_MEM_BASE_NAME (m_name cl)) = None"
    and "os_wf s" and "shm_names s (getMappedName u SHARED_MEM_BASE_NAME (m_name cl)) = None"
  shows "\<exists>t. connect_loop u env cl n s = Ret None t"
  using assms(3,4)
proof (induction n arbitrary: s)
  case (Suc n)
  obtain ok c s1 where c: "IpcClient_connect u cl s = (ok, c, s1)" by (metis prod_cases3)
  with connect_iff [OF Suc.prems(1), of u cl] Suc.prems(2) have "\<not> ok" by (simp add: connectable_def)
  moreover have "\<exists>t. connect_loop u env cl n (env None s1) = Ret None t"
    using Suc assms(1,2) connect_wf [OF c] connect_frame(1) [OF c] by simp
  ultimately show ?case using c by simp
qed (simp add: ret_def)

lemma connect_loop_first:
  "IpcClient_connect u cl s = (True, c, s') \<Longrightarrow> 0 < n \<Longrightarrow> connect_loop u env cl n s = Ret (Some c) s'"
  by (cases n) simp_all

lemma m_name_client [simp]: "m_name (IpcClient_new i key) = key"
  by (simp add: IpcClient_new_def IpcBase_new_def)

section \<open>Destroying\<close>

text \<open>Deleting a client that has tried to connect removes the name of the region.\<close>

lemma delete_connected_client:
  assumes "os_wf s" and "IpcClient_connect u cl s = (ok, cl', s')"
  shows "IpcClient_delete u cl' s' =
     Ret () (shm_unlink (getMappedName u SHARED_MEM_BASE_NAME (m_name cl)) (close_fd (m_hMapFile cl') s'))"
  using connect_fd [OF assms] connect_frame(8) [OF assms(2)]
  by (simp add: IpcClient_delete_def IpcBase_delete_def signalClose_def unmap_def Let_def
      split: option.split)

lemma delete_unstarted_server:
  "\<not> m_connWatchDogThread srv \<Longrightarrow> IpcServer_delete u srv s = Fault NullDeref"
  by (simp add: IpcServer_delete_def IpcServer_close_def)

section \<open>Two channels side by side\<close>

definition signal_names :: "unix \<Rightarrow> string \<Rightarrow> string set" where
  "signal_names u key = set (connect_names u key)"

lemma createSignal_other:
  assumes "createSignal u ok b base True s = (ok', h, s')" and "n \<noteq> getMappedName u base (m_name b)"
  shows "sem_names s' n = sem_names s n"
  using assms by (auto simp: os_ops Let_def split: if_splits option.splits)

lemma create_signals_other:
  assumes "create_signals u srv s = (ok, srv', s')" and "n \<notin> signal_names u (m_name srv)"
  shows "sem_names s' n = sem_names s n"
  using assms
  by (auto simp: create_signals_def signal_names_def connect_names_def os_ops Let_def
      split: if_splits option.splits prod.splits)

lemma create_shm_other:
  assumes "os_wf s" and "create_shm u srv s = (ok, srv', s')"
    and "n \<noteq> getMappedName u SHARED_MEM_BASE_NAME (m_name srv)" and "shm_names s n = Some p"
    and "shm_names s (getMappedName u SHARED_MEM_BASE_NAME (m_name srv)) \<noteq> Some p"
  shows "shm_names s' n = Some p" and "shm_objs s' p = shm_objs s p"
proof -
  have np: "p < next_obj s" and "\<forall>fd q. fds s fd = Some q \<longrightarrow> fd < next_fd s"
    using assms(1,4) by (auto simp: os_wf_def)
  note facts = assms(2-5) np
  show "shm_names s' n = Some p"
    using facts by (auto simp: create_shm_def os_ops Let_def
        split: if_splits option.splits prod.splits)
  show "shm_objs s' p = shm_objs s p"
    using facts by (auto simp: create_shm_def os_ops Let_def
        split: if_splits option.splits prod.splits)
qed

lemma create_shm_names:
  assumes "create_shm u srv s = (ok, srv', s')"
    and "n \<noteq> getMappedName u SHARED_MEM_BASE_NAME (m_name srv)"
  shows "shm_names s' n = shm_names s n"
  using assms
  by (auto simp: create_shm_def os_ops Let_def split: if_splits option.splits prod.splits)

lemma new_names [simp]:
  "m_name (IpcServer_new i key) = key" "m_name (IpcClient_new i key) = key"
  "m_pBuf (IpcServer_new i key) = None" "m_connWatchDogThread (IpcServer_new i key) = False"
  by (simp_all add: IpcServer_new_def IpcClient_new_def IpcBase_new_def IpcBase.defs)

text \<open>A server that is ready stays so when another is created whose names and memory are different.\<close>

lemma create_keeps_other:
  assumes "os_wf s" and "server_ready u srv s" and "IpcServer_create u srv2 s = (ok, srv2', s')"
    and "getMappedName u SHARED_MEM_BASE_NAME (m_name srv2) \<noteq> getMappedName u SHARED_MEM_BASE_NAME (m_name srv)"
    and "shm_names s (getMappedName u SHARED_MEM_BASE_NAME (m_name srv2)) \<noteq> m_pBuf srv"
    and "signal_names u (m_name srv) \<inter> signal_names u (m_name srv2) = {}"
  shows "server_ready u srv s'" and "m_pBuf srv = Some q \<Longrightarrow> shm_objs s' q = shm_objs s q"
proof -
  obtain ok1 srv1 s1 where 1: "create_shm u srv2 s = (ok1, srv1, s1)" by (metis prod_cases3)
  obtain ok2 srv3 s2 where 2: "create_signals u srv1 s1 = (ok2, srv3, s2)" by (metis prod_cases3)
  from assms(2) obtain p where p: "m_pBuf srv = Some p"
      "shm_names s (getMappedName u SHARED_MEM_BASE_NAME (m_name srv)) = Some p"
    by (auto simp: server_ready_def)
  have o: "shm_names s1 (getMappedName u SHARED_MEM_BASE_NAME (m_name srv)) = Some p" "shm_objs s1 p = shm_objs s p"
    using create_shm_other [OF assms(1) 1 _ p(2)] assms(4,5) p(1) by simp_all
  have sem1: "sem_names s1 = sem_names s" by (rule create_shm_ok(5) [OF assms(1) 1])
  have nm: "m_name srv1 = m_name srv2" by (rule create_shm_ok(2) [OF assms(1) 1])
  have sem2: "sem_names s2 n = sem_names s n" if "n \<in> signal_names u (m_name srv)" for n
    using create_signals_other [OF 2, of n] that assms(6) nm sem1 by auto
  have shm2: "shm_names s2 = shm_names s1" "shm_objs s2 = shm_objs s1"
    using create_signals_ok [OF 2] by auto
  have "server_ready u srv s1" and "server_ready u srv s2"
    using assms(2) p o sem1 sem2 shm2
    by (auto simp: server_ready_def signal_names_def connect_names_def)
  then show "server_ready u srv s'"
    using assms(3) 1 2 by (auto simp: IpcServer_create_def split: if_splits)
  show "shm_objs s' q = shm_objs s q" if "m_pBuf srv = Some q"
    using assms(3) 1 2 that p(1) o(2) shm2 by (auto simp: IpcServer_create_def split: if_splits)
qed

text \<open>What a server creates under a name that was free is new.\<close>

lemma create_new_objects:
  assumes "shm_names s (getMappedName u SHARED_MEM_BASE_NAME (m_name srv)) = None"
    and "IpcServer_create u srv s = (True, srv', s')"
  shows "m_pBuf srv' = Some (next_obj s)"
    and "m_hSignal srv' = Sig k \<Longrightarrow> next_sem s \<le> k" and "m_hAvail srv' = Sig k \<Longrightarrow> next_sem s \<le> k"
    and "k < next_sem s \<Longrightarrow> sem_val s' k = sem_val s k"
proof -
  obtain srv1 s1 where 1: "create_shm u srv s = (True, srv1, s1)" and 2: "create_signals u srv1 s1 = (True, srv', s')"
    using assms(2) by (blast elim: IpcServer_create_split)
  have shm: "m_pBuf srv1 = Some (next_obj s)" "next_sem s1 = next_sem s" "sem_val s1 = sem_val s"
    using assms(1) 1 by (auto simp: create_shm_def os_ops Let_def split: if_splits option.splits prod.splits)
  show "m_pBuf srv' = Some (next_obj s)" using create_signals_ok(4) [OF 2] shm(1) by simp
  show "m_hSignal srv' = Sig k \<Longrightarrow> next_sem s \<le> k" and "m_hAvail srv' = Sig k \<Longrightarrow> next_sem s \<le> k"
    and "k < next_sem s \<Longrightarrow> sem_val s' k = sem_val s k"
    using 2 shm(2,3) by (auto simp: create_signals_def os_ops Let_def split: if_splits option.splits prod.splits)
qed

section \<open>Properties\<close>

text \<open>
  C31: \<open>IpcServer::create\<close> succeeds exactly when the system refuses none of its six calls: opening
  the object under the mapped name, sizing it, mapping it, and creating the three semaphores.
\<close>

theorem create_success_iff:
  assumes "os_wf s"
  shows "fst (IpcServer_create u srv s) \<longleftrightarrow>
    (\<forall>op\<in>set (create_ops u (m_name srv) (next_fd s)). \<not> refuse s op)"
  by (rule create_success_iff_aux [OF assms])

theorem create_success_iff_witness:
  "fst (IpcServer_create Linux (IpcServer_new 0 ''key'') os_init) \<and>
   \<not> fst (IpcServer_create Linux (IpcServer_new 0 ''key'') (os_init\<lparr>refuse := (\<lambda>op. op = OpMmap 3)\<rparr>))"
  using create_success_iff [of os_init Linux "IpcServer_new 0 ''key''"]
    create_success_iff [of "os_init\<lparr>refuse := (\<lambda>op. op = OpMmap 3)\<rparr>" Linux "IpcServer_new 0 ''key''"]
  by (simp add: create_ops_def os_wf_def os_init_def)

text \<open>
  C7: On a system that refuses nothing, and under a key for which the names of the three semaphores differ, a
  server that is created and a client that then connects under the same key meet, however often the server's
  watch-dog thread has come round in between: the connection succeeds, both hold the same mapping at its full
  size and the same three semaphores, which are different ones; the two that carry the messages are at zero,
  and the watch-dog's holds one token for each pass of the thread.
\<close>

theorem create_connect_rendezvous:
  assumes "os_wf s" and "\<And>op. \<not> refuse s op"
    and "signal_names_distinct u key" and "m_name srv = key" and "m_name cl = key"
    and "IpcServer_create u srv s = (ok, srv', s1)" and "connWatchDog srv' (replicate n True) s1 = Ret () t"
    and "IpcClient_connect u cl t = (ok', cl', s2)"
  shows "ok \<and> ok' \<and> same_channel srv' cl' \<and> server_ready u srv' s2 \<and>
    (\<exists>g a w. m_hSignal srv' = Sig g \<and> m_hAvail srv' = Sig a \<and> m_hConnWatchDogSignal srv' = Sig w \<and>
       distinct [g, a, w] \<and> sem_val s2 g = 0 \<and> sem_val s2 a = 0 \<and>
       sem_val s2 w = min SEM_VALUE_MAX (thread_lead s + n))"
proof -
  have ok using create_success_iff_aux [OF assms(1), of u srv] assms(2,6) by simp
  then have c: "IpcServer_create u srv s = (True, srv', s1)" using assms(6) by simp
  have d: "signal_names_distinct u (m_name srv)" using assms(3,4) by simp
  note ready = IpcServer_create_ready [OF assms(1) d c]
  from ready(4) obtain g a w where h: "m_hSignal srv' = Sig g" "m_hAvail srv' = Sig a" "m_hConnWatchDogSignal srv' = Sig w"
    "distinct [g, a, w]" "sem_val s1 g = 0" "sem_val s1 a = 0" "sem_val s1 w = min SEM_VALUE_MAX (thread_lead s)" by auto
  have t: "t = s1\<lparr>sem_val := watchdog_posts (Sig w) n (sem_val s1)\<rparr>"
    using assms(7) connWatchDog_run [OF h(3), of n s1] by simp
  have "server_ready u srv' t" and wf: "os_wf t" using ready(1,2) by (simp_all add: t server_ready_def os_wf_def)
  moreover have "\<not> refuse t op" for op using IpcServer_create_done(1) [OF assms(1) d c] assms(2) by (simp add: t)
  moreover have "m_name cl = m_name srv'" using ready(3) assms(4,5) by simp
  ultimately have "ok'" "same_channel srv' cl'" "server_ready u srv' s2"
    using server_ready_connect [OF _ wf _ _ assms(8)] by simp_all
  moreover have "sem_val s2 = sem_val t" by (rule connect_frame(4) [OF assms(8)])
  then have "sem_val s2 g = 0" "sem_val s2 a = 0" "sem_val s2 w = min SEM_VALUE_MAX (thread_lead s + n)"
    using h by (simp_all add: t)
  ultimately show ?thesis using \<open>ok\<close> h(1-4) by blast
qed

text \<open>The thread makes one pass before \<open>create\<close> returns and two until the client connects.\<close>

theorem create_connect_rendezvous_witness:
  "\<exists>srv' s1 t cl' s2. IpcServer_create Linux (IpcServer_new 0 ''key'') os_init = (True, srv', s1) \<and>
     connWatchDog srv' (replicate 2 True) s1 = Ret () t \<and>
     IpcClient_connect Linux (IpcClient_new 1 ''key'') t = (True, cl', s2) \<and> same_channel srv' cl' \<and>
     (\<exists>w. m_hConnWatchDogSignal srv' = Sig w \<and> sem_val s2 w = 3)"
proof -
  obtain ok srv' s1 where 1: "IpcServer_create Linux (IpcServer_new 0 ''key'') os_init = (ok, srv', s1)"
    by (metis prod_cases3)
  have n: "m_name (IpcServer_new 0 ''key'') = ''key''" "m_name (IpcClient_new 1 ''key'') = ''key''"
    by (simp_all add: IpcServer_new_def IpcClient_new_def IpcBase_new_def IpcBase.defs)
  have "ok" using create_success_iff_aux [OF os_init_wf, of Linux "IpcServer_new 0 ''key''"] 1 by simp
  then obtain w where "m_hConnWatchDogSignal srv' = Sig w"
    using IpcServer_create_ready(4) [OF os_init_wf, of Linux "IpcServer_new 0 ''key''" srv' s1] 1 n signal_names_distinct_Linux
    by auto
  from connWatchDog_run [OF this, of 2 s1] obtain t where t: "connWatchDog srv' (replicate 2 True) s1 = Ret () t" ..
  obtain ok' cl' s2 where 2: "IpcClient_connect Linux (IpcClient_new 1 ''key'') t = (ok', cl', s2)"
    by (metis prod_cases3)
  have "thread_lead os_init = 1" by (simp add: os_init_def)
  with create_connect_rendezvous [OF os_init_wf _ signal_names_distinct_Linux n 1 t 2]
  have "ok \<and> ok' \<and> same_channel srv' cl' \<and> (\<exists>w. m_hConnWatchDogSignal srv' = Sig w \<and> sem_val s2 w = 3)"
    by (auto simp: SEM_VALUE_MAX_def)
  with 1 2 t show ?thesis by auto
qed

text \<open>
  Connecting succeeds exactly when the region and the three semaphores are registered under
  the key's names and none of the opening calls is refused.
\<close>

theorem connect_success_iff:
  assumes "os_wf s"
  shows "fst (IpcClient_connect u cl s) \<longleftrightarrow>
    shm_names s (getMappedName u SHARED_MEM_BASE_NAME (m_name cl)) \<noteq> None \<and>
    (\<forall>b\<in>{SIGNAL_NAME, SIGNAL_AVALIABLE_NAME, SIGNAL_CONN_WATCH_DOG_NAME}.
       sem_names s (getMappedName u b (m_name cl)) \<noteq> None \<and>
       \<not> refuse s (OpSemOpen (getMappedName u b (m_name cl)))) \<and>
    \<not> refuse s (OpShmOpen (getMappedName u SHARED_MEM_BASE_NAME (m_name cl))) \<and>
    \<not> refuse s (OpMmap (next_fd s))"
  using connect_iff [OF assms, of u cl] by (auto simp: connectable_def connect_names_def)

theorem connect_success_iff_witness:
  "\<not> fst (IpcClient_connect Linux (IpcClient_new 0 ''key'') os_init)"
  using connect_success_iff [OF os_init_wf, of Linux "IpcClient_new 0 ''key''"] by simp

text \<open>
  C36: On a system that refuses nothing and has no semaphore left over under the signal's name, a client
  that tries to connect between the server's creation of the region and of the semaphores fails, and
  deleting it, as the callback thread does before it retries, removes the name of the server's region.
  The server then finishes its creation successfully, but no client that tries in a loop ever connects to it
  under its key, in any number of attempts, as long as nobody gives the name to a region again.
\<close>

theorem failed_connect_orphans_server:
  assumes "os_wf s" and "\<And>op. \<not> refuse s op"
    and "sem_names s (getMappedName u SIGNAL_NAME key) = None"
    and "m_name srv = key" and "m_name cl = key" and "m_name cl2 = key"
    and "create_shm u srv s = (ok, srv1, s1)"
    and "IpcClient_connect u cl s1 = (ok1, cl1, s2)"
    and "IpcClient_delete u cl1 s2 = Ret () s3"
    and "create_signals u srv1 s3 = (ok2, srv2, s4)"
    and "\<And>t. os_wf t \<Longrightarrow> os_wf (env None t)"
    and "\<And>t. shm_names t (getMappedName u SHARED_MEM_BASE_NAME key) = None \<Longrightarrow>
      shm_names (env None t) (getMappedName u SHARED_MEM_BASE_NAME key) = None"
  shows "\<not> ok1 \<and> ok2 \<and> (\<forall>n. \<exists>t. connect_loop u env cl2 n s4 = Ret None t)"
proof -
  let ?n = "getMappedName u SHARED_MEM_BASE_NAME key"
  note shm = create_shm_ok [OF assms(1,7)] and w1 = create_shm_wf [OF assms(7,1)]
  have "\<not> connectable u (m_name cl) s1"
    using shm(5) assms(3,5) by (simp add: connectable_def connect_names_def)
  then have "\<not> ok1" using connect_iff [OF w1, of u cl] assms(8) by simp
  moreover have s3: "s3 = shm_unlink ?n (close_fd (m_hMapFile cl1) s2)"
    using delete_connected_client [OF w1 assms(8)] assms(5,9) by simp
  moreover have "refuse s3 = refuse s"
    using s3 connect_frame(5) [OF assms(8)] shm(3) by (simp add: shm_unlink_def close_fd_def)
  then have ok2: "ok2" using create_signals_ok(1) [OF assms(10)] assms(2) by simp
  moreover have "shm_names s4 ?n = None"
    using create_signals_ok(6) [OF assms(10)] s3 by (simp add: shm_unlink_def)
  moreover have "os_wf s4"
    using create_signals_wf [OF assms(10)] s3 connect_wf [OF assms(8) w1] by simp
  ultimately show ?thesis
    using connect_loop_nameless [of env u cl2 s4, OF assms(11)] assms(6,12) by simp
qed

theorem failed_connect_orphans_server_witness:
  "\<exists>srv1 s1 cl1 s2 s3 srv2 s4.
     create_shm Linux (IpcServer_new 0 ''key'') os_init = (True, srv1, s1) \<and>
     IpcClient_connect Linux (IpcClient_new 1 ''key'') s1 = (False, cl1, s2) \<and>
     IpcClient_delete Linux cl1 s2 = Ret () s3 \<and>
     create_signals Linux srv1 s3 = (True, srv2, s4) \<and>
     (\<exists>t. connect_loop Linux (\<lambda>_ s. s) (IpcClient_new 2 ''key'') 3 s4 = Ret None t)"
proof -
  obtain ok srv1 s1 where 1: "create_shm Linux (IpcServer_new 0 ''key'') os_init = (ok, srv1, s1)"
    by (metis prod_cases3)
  obtain ok1 cl1 s2 where 2: "IpcClient_connect Linux (IpcClient_new 1 ''key'') s1 = (ok1, cl1, s2)"
    by (metis prod_cases3)
  obtain s3 where 3: "IpcClient_delete Linux cl1 s2 = Ret () s3"
    using delete_connected_client [OF create_shm_wf [OF 1 os_init_wf] 2] by blast
  obtain ok2 srv2 s4 where 4: "create_signals Linux srv1 s3 = (ok2, srv2, s4)" by (metis prod_cases3)
  have n: "m_name (IpcServer_new 0 ''key'') = ''key''" "m_name (IpcClient_new i ''key'') = ''key''" for i
    by (simp_all add: IpcServer_new_def IpcClient_new_def IpcBase_new_def IpcBase.defs)
  have "ok" using create_shm_ok(1) [OF os_init_wf 1] by simp
  moreover have "\<not> ok1 \<and> ok2 \<and> (\<forall>n. \<exists>t. connect_loop Linux (\<lambda>_ s. s) (IpcClient_new 2 ''key'') n s4 = Ret None t)"
    by (rule failed_connect_orphans_server [OF os_init_wf _ _ n(1) n(2) n(2) 1 2 3 4]) simp_all
  ultimately show ?thesis using 1 2 3 4 by auto
qed

text \<open>
  Deleting a server whose \<open>create\<close> failed dereferences the null pointer of a watch-dog
  thread that was never started.
\<close>

theorem delete_after_failed_create_faults:
  assumes "os_wf s" and "IpcServer_create u (IpcServer_new i key) s = (False, srv', s')"
  shows "IpcServer_delete u srv' t = Fault NullDeref"
proof -
  have "\<not> m_connWatchDogThread srv'"
    using IpcServer_create_failed [OF assms] by (simp add: IpcServer_new_def IpcBase.defs)
  then show ?thesis by (rule delete_unstarted_server)
qed

theorem delete_after_failed_create_faults_witness:
  "\<exists>srv' s'. IpcServer_create Linux (IpcServer_new 0 ''key'') (os_init\<lparr>refuse := (\<lambda>op. op = OpShmOpen ''/Localkey'')\<rparr>)
       = (False, srv', s') \<and> IpcServer_delete Linux srv' s' = Fault NullDeref"
proof -
  let ?s = "os_init\<lparr>refuse := (\<lambda>op. op = OpShmOpen ''/Localkey'')\<rparr>"
  have w: "os_wf ?s" by (simp add: os_wf_def os_init_def)
  obtain srv' s' where c: "IpcServer_create Linux (IpcServer_new 0 ''key'') ?s = (False, srv', s')"
    by (simp add: IpcServer_create_def create_shm_def os_ops IpcServer_new_def IpcBase_new_def
        IpcBase.defs base_names Let_def)
  from delete_after_failed_create_faults [OF w c] c show ?thesis by blast
qed

text \<open>
  Creating a second server leaves a ready channel ready, provided the names of the two do
  not meet: on Linux that is so when neither key is the other nor the other with \<open>Avail\<close> in
  front.
\<close>

theorem create_preserves_other_channel:
  assumes "os_wf s" and "server_ready Linux srv s" and "IpcServer_create Linux srv2 s = (ok, srv2', s')"
    and "m_name srv2 \<noteq> m_name srv" and "m_name srv2 \<noteq> ''Avail'' @ m_name srv"
    and "m_name srv \<noteq> ''Avail'' @ m_name srv2"
    and "\<And>n p. n \<noteq> ''/Local'' @ m_name srv \<Longrightarrow> shm_names s n = Some p \<Longrightarrow> m_pBuf srv \<noteq> Some p"
  shows "server_ready Linux srv s'"
proof -
  have "signal_names Linux (m_name srv) \<inter> signal_names Linux (m_name srv2) = {}"
    using assms(4-6) by (auto simp: signal_names_def connect_names_def base_names)
  moreover have "shm_names s (''/Local'' @ m_name srv2) \<noteq> m_pBuf srv"
    using assms(2) assms(7) [of "''/Local'' @ m_name srv2"] assms(4) by (auto simp: server_ready_def)
  ultimately show ?thesis
    using create_keeps_other(1) [OF assms(1-3)] assms(4) by (simp add: base_names)
qed

theorem create_preserves_other_channel_witness:
  "\<exists>srv s1 srv2 s2. IpcServer_create Linux (IpcServer_new 0 ''a'') os_init = (True, srv, s1) \<and>
     IpcServer_create Linux (IpcServer_new 1 ''b'') s1 = (True, srv2, s2) \<and> server_ready Linux srv s2"
proof -
  obtain ok1 srv1 t1 where 1: "create_shm Linux (IpcServer_new 0 ''a'') os_init = (ok1, srv1, t1)"
    by (metis prod_cases3)
  obtain ok srv s1 where 2: "create_signals Linux srv1 t1 = (ok, srv, s1)" by (metis prod_cases3)
  note shm = create_shm_ok [OF os_init_wf 1] and sig = create_signals_ok [OF 2]
  have ok: "ok1" "ok" using shm(1,3) sig(1) by simp_all
  then have c: "IpcServer_create Linux (IpcServer_new 0 ''a'') os_init = (True, srv, s1)"
    using 1 2 by (simp add: IpcServer_create_def)
  note ready = IpcServer_create_ready [OF os_init_wf signal_names_distinct_Linux c]
  have names: "shm_names s1 n = None" if "n \<noteq> ''/Local'' @ m_name srv" for n
    using create_shm_names [OF 1, of n] sig(6) that ready(3) by (simp add: base_names)
  obtain ok2 srv2 s2 where c2: "IpcServer_create Linux (IpcServer_new 1 ''b'') s1 = (ok2, srv2, s2)"
    by (metis prod_cases3)
  have "refuse s1 = refuse os_init" using shm(3) sig(8) by simp
  then have "fst (IpcServer_create Linux (IpcServer_new 1 ''b'') s1)"
    by (simp add: create_success_iff_aux [OF ready(2)])
  then have "ok2" using c2 by simp
  have "server_ready Linux srv s2"
    by (rule create_preserves_other_channel [OF ready(2) ready(1) c2]) (use ready(3) names in auto)
  with c c2 \<open>ok2\<close> show ?thesis by auto
qed

end
