(* ===== verification/Channel.thy ===== *)
theory Channel
  imports Rendezvous
begin

text \<open>
  The two ends of a channel running concurrently. Each thread is cut into its atomic accesses to
  shared state (the buffer and the two semaphores), in the order \<open>IpcServer::send\<close>,
  \<open>IpcClient::getMessage\<close> and \<open>IpcClient::sendReply\<close> make them, and any interleaving of the
  two is allowed. The handler that turns a request into a reply is a parameter.
\<close>

section \<open>The machine\<close>

datatype srv_pc = SIdle | SWritten | SWaiting | SReturned

datatype cl_pc = CIdle | CGot | CComputed SharedFmiMessage | CWritten

record 'p world = os +
  peer :: 'p

text \<open>
  \<open>todo\<close>: the messages the serving thread has yet to send; \<open>sent\<close>: those it has begun to send;
  \<open>results\<close>: what the finished sends gave their caller, \<open>None\<close> for NULL.
\<close>

record 'p chan = "'p world" +
  srv_pc :: srv_pc
  cl_pc :: cl_pc
  todo :: "SharedFmiMessage list"
  sent :: "SharedFmiMessage list"
  results :: "SharedFmiMessage option list"

text \<open>
  \<open>p\<close> is the mapping, \<open>a\<close> the \<open>avail\<close> and \<open>g\<close> the \<open>signal\<close> semaphore, \<open>f\<close> the handler. With
  \<open>timed\<close> the sender's wait has a finite timeout, so it may also give up.
\<close>

inductive chan_step ::
  "nat \<Rightarrow> nat \<Rightarrow> nat \<Rightarrow> ('p \<Rightarrow> SharedFmiMessage \<Rightarrow> SharedFmiMessage \<times> 'p) \<Rightarrow> bool \<Rightarrow>
   'p chan \<Rightarrow> 'p chan \<Rightarrow> bool"
  for p a g :: nat and f :: "'p \<Rightarrow> SharedFmiMessage \<Rightarrow> SharedFmiMessage \<times> 'p" and timed :: bool
where
  srv_write: "srv_pc s = SIdle \<Longrightarrow> todo s = m # ms \<Longrightarrow> store_msg p m s = Ret () t \<Longrightarrow>
     chan_step p a g f timed s (t\<lparr>srv_pc := SWritten, todo := ms, sent := sent s @ [m]\<rparr>)"
| srv_post: "srv_pc s = SWritten \<Longrightarrow> signalPost (Sig a) s = Ret () t \<Longrightarrow>
     chan_step p a g f timed s (t\<lparr>srv_pc := SWaiting\<rparr>)"
| srv_take: "srv_pc s = SWaiting \<Longrightarrow> 0 < sem_val s g \<Longrightarrow>
     chan_step p a g f timed s ((sem_take g s)\<lparr>srv_pc := SReturned\<rparr>)"
| srv_timeout: "srv_pc s = SWaiting \<Longrightarrow> timed \<Longrightarrow> sem_val s g = 0 \<Longrightarrow>
     chan_step p a g f timed s (s\<lparr>srv_pc := SIdle, results := results s @ [None]\<rparr>)"
| srv_read: "srv_pc s = SReturned \<Longrightarrow> load_msg p s = Ret m t \<Longrightarrow>
     chan_step p a g f timed s (t\<lparr>srv_pc := SIdle, results := results s @ [Some m]\<rparr>)"
| cl_take: "cl_pc s = CIdle \<Longrightarrow> 0 < sem_val s a \<Longrightarrow>
     chan_step p a g f timed s ((sem_take a s)\<lparr>cl_pc := CGot\<rparr>)"
| cl_compute: "cl_pc s = CGot \<Longrightarrow> load_msg p s = Ret m t \<Longrightarrow> f (peer s) m = (r, q) \<Longrightarrow>
     chan_step p a g f timed s (t\<lparr>cl_pc := CComputed r, peer := q\<rparr>)"
| cl_write: "cl_pc s = CComputed r \<Longrightarrow> store_msg p r s = Ret () t \<Longrightarrow>
     chan_step p a g f timed s (t\<lparr>cl_pc := CWritten\<rparr>)"
| cl_post: "cl_pc s = CWritten \<Longrightarrow> signalPost (Sig g) s = Ret () t \<Longrightarrow>
     chan_step p a g f timed s (t\<lparr>cl_pc := CIdle\<rparr>)"

inductive_cases chan_stepE: "chan_step p a g f timed s t"

text \<open>
  The start: the region has its memory, both semaphores are zero, both threads idle, \<open>ms\<close> to be
  sent.
\<close>

definition chan_init :: "nat \<Rightarrow> nat \<Rightarrow> nat \<Rightarrow> 'p \<Rightarrow> SharedFmiMessage list \<Rightarrow> 'p chan \<Rightarrow> bool" where
  "chan_init p a g q ms s \<longleftrightarrow>
     a \<noteq> g \<and> 0 < shm_size (shm_objs s p) \<and> sem_val s a = 0 \<and> sem_val s g = 0 \<and>
     srv_pc s = SIdle \<and> cl_pc s = CIdle \<and> todo s = ms \<and> sent s = [] \<and> results s = [] \<and> peer s = q"

definition chan_reach ::
  "nat \<Rightarrow> nat \<Rightarrow> nat \<Rightarrow> ('p \<Rightarrow> SharedFmiMessage \<Rightarrow> SharedFmiMessage \<times> 'p) \<Rightarrow> bool \<Rightarrow>
   'p \<Rightarrow> SharedFmiMessage list \<Rightarrow> 'p chan \<Rightarrow> bool" where
  "chan_reach p a g f timed q ms s \<longleftrightarrow>
     (\<exists>s0. chan_init p a g q ms s0 \<and> (chan_step p a g f timed)\<^sup>*\<^sup>* s0 s)"

section \<open>Specification: the peer as a function of the requests\<close>

fun serve :: "('p \<Rightarrow> 'm \<Rightarrow> 'r \<times> 'p) \<Rightarrow> 'p \<Rightarrow> 'm list \<Rightarrow> 'r list \<times> 'p" where
  "serve f q [] = ([], q)"
| "serve f q (m # ms) = (let (r, q1) = f q m; (rs, q2) = serve f q1 ms in (r # rs, q2))"

lemma serve_append:
  "serve f q (xs @ ys) =
     (fst (serve f q xs) @ fst (serve f (snd (serve f q xs)) ys), snd (serve f (snd (serve f q xs)) ys))"
  by (induction xs arbitrary: q) (auto simp: case_prod_beta Let_def)

lemma serve_snoc:
  "serve f q (xs @ [m]) =
     (fst (serve f q xs) @ [fst (f (snd (serve f q xs)) m)], snd (f (snd (serve f q xs)) m))"
  by (simp add: serve_append case_prod_beta Let_def)

lemma length_serve [simp]: "length (fst (serve f q ms)) = length ms"
  by (induction ms arbitrary: q) (auto simp: case_prod_beta Let_def)

section \<open>The invariant of a channel without timeouts\<close>

text \<open>
  Where the exchange stands: the phases of one round trip, numbered by the steps left in it.
  \<open>old\<close> are the requests already answered, \<open>m\<close> the one under way.
\<close>

definition idle_inv ::
  "nat \<Rightarrow> nat \<Rightarrow> ('p \<Rightarrow> SharedFmiMessage \<Rightarrow> SharedFmiMessage \<times> 'p) \<Rightarrow> 'p \<Rightarrow> 'p chan \<Rightarrow> bool" where
  "idle_inv a g f q s \<longleftrightarrow>
     srv_pc s = SIdle \<and> cl_pc s = CIdle \<and> sem_val s a = 0 \<and> sem_val s g = 0 \<and>
     map Some (fst (serve f q (sent s))) = results s \<and> snd (serve f q (sent s)) = peer s"

definition busy_inv ::
  "nat \<Rightarrow> nat \<Rightarrow> nat \<Rightarrow> ('p \<Rightarrow> SharedFmiMessage \<Rightarrow> SharedFmiMessage \<times> 'p) \<Rightarrow> 'p \<Rightarrow> nat \<Rightarrow> 'p chan \<Rightarrow> bool"
where
  "busy_inv p a g f q n s \<longleftrightarrow>
     (\<exists>old m. sent s = old @ [m] \<and> map Some (fst (serve f q old)) = results s \<and>
       (let q0 = snd (serve f q old); r = fst (f q0 m); q1 = snd (f q0 m);
            buf = message (shm_mem (shm_objs s p)); A = sem_val s a; G = sem_val s g
        in (n = 7 \<and> srv_pc s = SWritten \<and> cl_pc s = CIdle \<and> A = 0 \<and> G = 0 \<and> buf = m \<and> peer s = q0) \<or>
           (n = 6 \<and> srv_pc s = SWaiting \<and> cl_pc s = CIdle \<and> A = 1 \<and> G = 0 \<and> buf = m \<and> peer s = q0) \<or>
           (n = 5 \<and> srv_pc s = SWaiting \<and> cl_pc s = CGot \<and> A = 0 \<and> G = 0 \<and> buf = m \<and> peer s = q0) \<or>
           (n = 4 \<and> srv_pc s = SWaiting \<and> cl_pc s = CComputed r \<and> A = 0 \<and> G = 0 \<and> peer s = q1) \<or>
           (n = 3 \<and> srv_pc s = SWaiting \<and> cl_pc s = CWritten \<and> A = 0 \<and> G = 0 \<and> buf = r \<and> peer s = q1) \<or>
           (n = 2 \<and> srv_pc s = SWaiting \<and> cl_pc s = CIdle \<and> A = 0 \<and> G = 1 \<and> buf = r \<and> peer s = q1) \<or>
           (n = 1 \<and> srv_pc s = SReturned \<and> cl_pc s = CIdle \<and> A = 0 \<and> G = 0 \<and> buf = r \<and> peer s = q1)))"

definition chan_inv ::
  "nat \<Rightarrow> nat \<Rightarrow> nat \<Rightarrow> ('p \<Rightarrow> SharedFmiMessage \<Rightarrow> SharedFmiMessage \<times> 'p) \<Rightarrow> 'p \<Rightarrow>
   SharedFmiMessage list \<Rightarrow> nat \<Rightarrow> 'p chan \<Rightarrow> bool" where
  "chan_inv p a g f q ms n s \<longleftrightarrow>
     a \<noteq> g \<and> 0 < shm_size (shm_objs s p) \<and> sent s @ todo s = ms \<and>
     (\<exists>k. n = 8 * length (todo s) + k \<and> (k = 0 \<and> idle_inv a g f q s \<or> busy_inv p a g f q k s))"

lemma chan_init_inv:
  "chan_init p a g q ms s \<Longrightarrow> chan_inv p a g f q ms (8 * length ms) s"
  by (auto simp: chan_init_def chan_inv_def idle_inv_def)

lemmas chan_acts = store_msg_def load_msg_def signalPost_def sem_take_def SEM_VALUE_MAX_def

lemma idle_step:
  assumes "idle_inv a g f q s" and "chan_step p a g f False s t" and "a \<noteq> g"
  shows "\<exists>m. todo s = m # todo t \<and> sent t = sent s @ [m] \<and> busy_inv p a g f q 7 t \<and>
    shm_size (shm_objs t p) = shm_size (shm_objs s p)"
  using assms(2,1,3)
  by (cases rule: chan_step.cases)
    (auto simp: idle_inv_def busy_inv_def chan_acts Let_def split: if_splits)

lemma busy_step:
  assumes "busy_inv p a g f q n s" and "chan_step p a g f False s t" and "a \<noteq> g"
  shows "todo t = todo s \<and> sent t = sent s \<and> shm_size (shm_objs t p) = shm_size (shm_objs s p) \<and>
    (n = 1 \<and> idle_inv a g f q t \<or> 1 < n \<and> busy_inv p a g f q (n - 1) t)"
proof -
  from assms(1) obtain old m where om: "sent s = old @ [m]"
    "map Some (fst (serve f q old)) = results s" by (auto simp: busy_inv_def)
  show ?thesis
    using assms(2,1,3) om
    by (cases rule: chan_step.cases)
      (auto simp: idle_inv_def busy_inv_def chan_acts Let_def serve_snoc split: if_splits)
qed

lemma chan_inv_step:
  assumes "chan_inv p a g f q ms n s" and "chan_step p a g f False s t"
  shows "\<exists>n'. n = Suc n' \<and> chan_inv p a g f q ms n' t"
proof -
  from assms(1) obtain k where k: "n = 8 * length (todo s) + k"
    and d: "a \<noteq> g" and sz: "0 < shm_size (shm_objs s p)" and ms: "sent s @ todo s = ms"
    and c: "k = 0 \<and> idle_inv a g f q s \<or> busy_inv p a g f q k s"
    by (auto simp: chan_inv_def)
  from c show ?thesis
  proof
    assume "k = 0 \<and> idle_inv a g f q s"
    with idle_step [OF _ assms(2) d] k sz ms d show ?thesis
      by (fastforce simp: chan_inv_def)
  next
    assume b: "busy_inv p a g f q k s"
    then have "0 < k" by (auto simp: busy_inv_def Let_def)
    then show ?thesis
      using busy_step [OF b assms(2) d] k sz ms d
      by (intro exI [of _ "n - 1"]) (auto simp: chan_inv_def intro: exI [of _ "k - 1"])
  qed
qed

lemma chan_inv_enabled:
  assumes "chan_inv p a g f q ms (Suc n) s"
  shows "\<exists>t. chan_step p a g f timed s t"
proof -
  from assms obtain k where k: "Suc n = 8 * length (todo s) + k"
    and sz: "0 < shm_size (shm_objs s p)"
    and c: "k = 0 \<and> idle_inv a g f q s \<or> busy_inv p a g f q k s"
    by (auto simp: chan_inv_def)
  have load: "load_msg p s = Ret (message (shm_mem (shm_objs s p))) s"
    using sz by (simp add: load_msg_def)
  have store: "\<exists>t. store_msg p m s = Ret () t" for m
    using sz by (simp add: store_msg_def)
  have post: "\<exists>t. signalPost (Sig h) s = Ret () t" for h
    by (simp add: signalPost_def andThen_def)
  from c show ?thesis
  proof
    assume i: "k = 0 \<and> idle_inv a g f q s"
    with k obtain m l where "todo s = m # l" by (cases "todo s") auto
    with i store show ?thesis by (meson chan_step.srv_write idle_inv_def)
  next
    assume "busy_inv p a g f q k s"
    then show ?thesis
      unfolding busy_inv_def Let_def
      using load store post
      by (elim exE conjE disjE; (simp; fail)?)
        (metis (no_types, lifting) chan_step.intros prod.exhaust zero_less_one)+
  qed
qed

lemma chan_inv_steps:
  assumes "chan_inv p a g f q ms n s" and "(chan_step p a g f False ^^ j) s t"
  shows "\<exists>n'. n = j + n' \<and> chan_inv p a g f q ms n' t"
  using assms(2)
proof (induction j arbitrary: t)
  case 0
  with assms(1) show ?case by simp
next
  case (Suc j)
  then obtain u where "(chan_step p a g f False ^^ j) s u" and st: "chan_step p a g f False u t"
    by auto
  then obtain n1 where "n = j + n1" and "chan_inv p a g f q ms n1 u"
    using Suc.IH by blast
  with chan_inv_step [OF _ st] show ?case by fastforce
qed

lemma chan_reach_inv:
  assumes "chan_reach p a g f False q ms s"
  shows "\<exists>n. chan_inv p a g f q ms n s"
proof -
  from assms obtain s0 where s0: "chan_init p a g q ms s0"
    and st: "(chan_step p a g f False)\<^sup>*\<^sup>* s0 s" by (auto simp: chan_reach_def)
  then obtain j where "(chan_step p a g f False ^^ j) s0 s"
    by (auto dest: rtranclp_imp_relpowp)
  from chan_inv_steps [OF chan_init_inv [OF s0] this] show ?thesis by blast
qed

lemma serve_prefix: "fst (serve f q xs) = take (length xs) (fst (serve f q (xs @ ys)))"
  by (simp add: serve_append)

lemma chan_inv_results:
  assumes "chan_inv p a g f q ms n s"
  shows "results s = map Some (take (length (results s)) (fst (serve f q ms)))"
proof -
  from assms obtain old rest where "map Some (fst (serve f q old)) = results s" "ms = old @ rest"
    by (auto simp: chan_inv_def idle_inv_def busy_inv_def)
  then show ?thesis
    by (metis length_map length_serve serve_prefix)
qed

lemma chan_inv_done:
  assumes "chan_inv p a g f q ms 0 s"
  shows "todo s = []" and "results s = map Some (fst (serve f q ms))" and "sent s = ms"
  using assms by (auto simp: chan_inv_def idle_inv_def busy_inv_def)

section \<open>One exchange as one call\<close>

text \<open>
  The client's turn of the loop, as one program: take the message, compute, reply. The handler
  \<open>h\<close> may fault. As an environment the turn runs whenever \<open>avail\<close> has been posted; a client
  that dies in its handler has taken the token and does not reply.
\<close>

definition client_turn ::
  "(SharedFmiMessage \<Rightarrow> (SharedFmiMessage, 'p) prog) \<Rightarrow> IpcClient \<Rightarrow> (unit, ('p, 'z) world_scheme) prog"
where
  "client_turn h cl =
     andThen (getMessage (\<lambda>_ s. s) cl INFINITE) (\<lambda>r. case r of None \<Rightarrow> ret () | Some p \<Rightarrow>
     andThen (load_msg p) (\<lambda>m s.
       case h m (peer s) of
         Fault e \<Rightarrow> Fault e
       | Blocks \<Rightarrow> Blocks
       | Ret reply q \<Rightarrow> sendReply cl reply (s\<lparr>peer := q\<rparr>)))"

definition turn_env ::
  "(SharedFmiMessage \<Rightarrow> (SharedFmiMessage, 'p) prog) \<Rightarrow> IpcClient \<Rightarrow> (('p, 'z) world_scheme) env"
where
  "turn_env h cl d s =
     (case m_hAvail cl of
        Sig a \<Rightarrow> if 0 < sem_val s a
                then (case client_turn h cl s of Ret _ t \<Rightarrow> t | _ \<Rightarrow> sem_take a s) else s
      | _ \<Rightarrow> s)"

text \<open>A channel at rest between two calls.\<close>

definition at_rest :: "IpcServer \<Rightarrow> IpcClient \<Rightarrow> 'a os_scheme \<Rightarrow> bool" where
  "at_rest srv cl s \<longleftrightarrow>
     same_channel srv cl \<and>
     (\<exists>p a g. m_pBuf srv = Some p \<and> m_hAvail srv = Sig a \<and> m_hSignal srv = Sig g \<and> a \<noteq> g \<and>
        0 < shm_size (shm_objs s p) \<and> sem_val s a = 0 \<and> sem_val s g = 0 \<and> \<not> refuse s (OpSemWait g))"

text \<open>The timeouts under which the wait is not refused: none, or a deadline with valid nanoseconds.\<close>

definition deadline_valid :: "int \<times> int \<Rightarrow> nat \<Rightarrow> bool" where
  "deadline_valid now t \<longleftrightarrow> t = 0 \<or> 0 \<le> snd (deadline now t) \<and> snd (deadline now t) < 1000000000"

lemma deadline_valid_INFINITE [simp]: "deadline_valid now INFINITE"
  by (simp add: deadline_valid_def INFINITE_def)

text \<open>The state after an exchange: the reply in the buffer, the peer's new state, nothing else.\<close>

definition after_exchange ::
  "SharedFmiMessage \<Rightarrow> 'p \<Rightarrow> nat \<Rightarrow> ('p, 'z) world_scheme \<Rightarrow> ('p, 'z) world_scheme" where
  "after_exchange r q p s =
     s\<lparr>shm_objs := (shm_objs s)(p := (shm_objs s p)\<lparr>shm_mem := \<lparr>message = r\<rparr>\<rparr>), peer := q\<rparr>"

lemma turn_env_posted:
  assumes "m_hAvail cl = Sig a" and "m_hSignal cl = Sig g" and "m_pBuf cl = Some p" and "a \<noteq> g"
    and "sem_val s a = 1" and "sem_val s g = 0" and "0 < shm_size (shm_objs s p)"
    and "h (message (shm_mem (shm_objs s p))) (peer s) = Ret r q"
  shows "turn_env h cl d s =
    (after_exchange r q p s)\<lparr>sem_val := (sem_val s)(a := 0, g := 1)\<rparr>"
  using assms
  by (simp add: turn_env_def client_turn_def getMessage_def sendReply_def signalWait_def INFINITE_def
      andThen_def chan_acts after_exchange_def)

lemma send_at_rest:
  fixes s :: "('p, 'z) world_scheme"
  assumes rest: "at_rest srv cl s" and d: "deadline_valid (clock s) t" and p: "m_pBuf srv = Some p"
    and f: "h m (peer s) = Ret r q"
  shows "IpcServer_send (turn_env h cl) srv m t s = Ret (Some p) (after_exchange r q p s)"
proof -
  from rest p obtain a g where h: "m_hAvail srv = Sig a" "m_hSignal srv = Sig g" "a \<noteq> g"
      "0 < shm_size (shm_objs s p)" "sem_val s a = 0" "sem_val s g = 0" "\<not> refuse s (OpSemWait g)"
      "m_hAvail cl = Sig a" "m_hSignal cl = Sig g" "m_pBuf cl = Some p"
    by (auto simp: at_rest_def same_channel_def)
  let ?s1 = "s\<lparr>shm_objs := (shm_objs s)(p := (shm_objs s p)\<lparr>shm_mem := \<lparr>message = m\<rparr>\<rparr>),
               sem_val := (sem_val s)(a := 1)\<rparr>"
  let ?s2 = "(after_exchange r q p s)\<lparr>sem_val := (sem_val s)(a := 0, g := 1)\<rparr>"
  have env: "turn_env h cl dl ?s1 = ?s2" for dl
    using turn_env_posted [of cl a g p ?s1 h r q dl] h f by (simp add: after_exchange_def)
  have take: "sem_take g ?s2 = after_exchange r q p s"
    using h by (simp add: sem_take_def after_exchange_def fun_upd_idem)
  have wait: "signalWait (turn_env h cl) (Sig g) t ?s1 = Ret True (after_exchange r q p s)"
    using h d env take
    by (auto simp: signalWait_def deadline_valid_def Let_def after_exchange_def)
  have "signalPost (Sig a) (s\<lparr>shm_objs := (shm_objs s)(p := (shm_objs s p)\<lparr>shm_mem := \<lparr>message = m\<rparr>\<rparr>)\<rparr>)
      = Ret () ?s1"
    using h by (simp add: signalPost_Sig SEM_VALUE_MAX_def)
  with h p wait show ?thesis
    by (simp add: IpcServer_send_def store_msg_def)
qed

lemma at_rest_after [simp]: "at_rest srv cl s \<Longrightarrow> at_rest srv cl (after_exchange r q p s)"
  by (auto simp: at_rest_def after_exchange_def)

lemma after_exchange_simps [simp]:
  "peer (after_exchange r q p s) = q"
  "clock (after_exchange r q p s) = clock s"
  "world.more (after_exchange r q p s) = world.more s"
  "sem_val (after_exchange r q p s) = sem_val s"
  "shm_names (after_exchange r q p s) = shm_names s"
  "sem_names (after_exchange r q p s) = sem_names s"
  "fds (after_exchange r q p s) = fds s"
  "refuse (after_exchange r q p s) = refuse s"
  by (simp_all add: after_exchange_def)

lemma load_after_exchange:
  "0 < shm_size (shm_objs s p) \<Longrightarrow>
   load_msg p (after_exchange r q p s) = Ret r (after_exchange r q p s)"
  by (simp add: load_msg_def after_exchange_def)

text \<open>A message is sent, and comes back when the others answer it while the server waits.\<close>

lemma send_ready:
  assumes "m_pBuf srv = Some p" and "m_hAvail srv = Sig a" and "m_hSignal srv = Sig g" and "a \<noteq> g"
    and "0 < shm_size (shm_objs s p)" and "sem_val s a = 0" and "sem_val s g = 0" and "\<not> refuse s (OpSemWait g)"
    and "env None (s\<lparr>shm_objs := (shm_objs s)(p := (shm_objs s p)\<lparr>shm_mem := \<lparr>message = m\<rparr>\<rparr>),
      sem_val := (sem_val s)(a := 1)\<rparr>) = t" and "0 < sem_val t g"
  shows "IpcServer_send env srv m 0 s = Ret (Some p) (sem_take g t)"
  using assms
  by (simp add: IpcServer_send_def store_msg_def signalPost_Sig SEM_VALUE_MAX_def signalWait_def)

text \<open>
  The contract of a channel as its caller sees it: while it is ready, a call returns what the
  peer's handler answers and leaves it ready, with the peer in its next state.
\<close>

locale request_reply =
  fixes call :: "SharedFmiMessage \<Rightarrow> (SharedFmiMessage option, 's) prog"
    and ready :: "'s \<Rightarrow> bool"
    and far :: "'s \<Rightarrow> 'p"
    and h :: "SharedFmiMessage \<Rightarrow> (SharedFmiMessage, 'p) prog"
  assumes call_ready: "ready s \<Longrightarrow> h m (far s) = Ret r q \<Longrightarrow>
    \<exists>s'. call m s = Ret (Some r) s' \<and> ready s' \<and> far s' = q"
begin

text \<open>A handler that never faults, called once per message: the replies are \<open>serve\<close>'s.\<close>

fun calls :: "SharedFmiMessage list \<Rightarrow> (SharedFmiMessage option list, 's) prog" where
  "calls [] = ret []"
| "calls (m # ms) = andThen (call m) (\<lambda>r. andThen (calls ms) (\<lambda>rs. ret (r # rs)))"

lemma calls_serve:
  assumes "ready s" and "\<And>m q. h m q = Ret (fst (f q m)) (snd (f q m))"
  shows "\<exists>s'. calls ms s = Ret (map Some (fst (serve f (far s) ms))) s' \<and> ready s' \<and>
    far s' = snd (serve f (far s) ms)"
  using assms(1)
proof (induction ms arbitrary: s)
  case Nil
  then show ?case by simp
next
  case (Cons m ms)
  from call_ready [of s m, OF Cons.prems assms(2)] obtain t where
    t: "call m s = Ret (Some (fst (f (far s) m))) t" "ready t" "far t = snd (f (far s) m)" by blast
  from Cons.IH [OF t(2)] obtain u where
    u: "calls ms t = Ret (map Some (fst (serve f (far t) ms))) u" "ready u"
       "far u = snd (serve f (far t) ms)" by blast
  with t show ?case by (simp add: case_prod_beta Let_def)
qed

end

text \<open>\<open>send\<close> with the caller's reading of \<open>*reply\<close>, and its contract.\<close>

definition exchange ::
  "('a os_scheme) env \<Rightarrow> IpcServer \<Rightarrow> nat \<Rightarrow> SharedFmiMessage \<Rightarrow> (SharedFmiMessage option, 'a os_scheme) prog"
where
  "exchange env srv t m =
     andThen (IpcServer_send env srv m t) (\<lambda>r. case r of
       None \<Rightarrow> ret None
     | Some p \<Rightarrow> andThen (load_msg p) (\<lambda>reply. ret (Some reply)))"

lemma exchange_at_rest:
  fixes s :: "('p, 'z) world_scheme"
  assumes "at_rest srv cl s" and "deadline_valid (clock s) t" and "h m (peer s) = Ret r q"
  shows "\<exists>p. m_pBuf srv = Some p \<and>
    exchange (turn_env h cl) srv t m s = Ret (Some r) (after_exchange r q p s)"
proof -
  from assms(1) obtain p where p: "m_pBuf srv = Some p" "0 < shm_size (shm_objs s p)"
    by (auto simp: at_rest_def)
  from send_at_rest [of srv cl s t p h m r q, OF assms(1,2) p(1) assms(3)] load_after_exchange [OF p(2), of r q]
  have "exchange (turn_env h cl) srv t m s = Ret (Some r) (after_exchange r q p s)"
    by (simp add: exchange_def)
  with p(1) show ?thesis by blast
qed

interpretation ipc: request_reply "exchange (turn_env h cl) srv INFINITE" "at_rest srv cl" peer h
  for h :: "SharedFmiMessage \<Rightarrow> (SharedFmiMessage, 'p) prog" and srv cl
proof unfold_locales
  fix s :: "('p, 'z) world_scheme" and m r q
  assume s: "at_rest srv cl s" and f: "h m (peer s) = Ret r q"
  from exchange_at_rest [of srv cl s INFINITE h m r q, OF s deadline_valid_INFINITE f] at_rest_after [OF s]
  show "\<exists>s'. exchange (turn_env h cl) srv INFINITE m s = Ret (Some r) s' \<and> at_rest srv cl s' \<and> peer s' = q"
    by (metis after_exchange_simps(1))
qed

section \<open>Running a schedule\<close>

text \<open>
  A schedule names the thread that moves; \<open>chan_do\<close> makes its step if it has one. With it a
  reachable state is computed rather than searched for.
\<close>

datatype chan_act = Server | ServerGivesUp | Client

fun chan_do ::
  "nat \<Rightarrow> nat \<Rightarrow> nat \<Rightarrow> ('p \<Rightarrow> SharedFmiMessage \<Rightarrow> SharedFmiMessage \<times> 'p) \<Rightarrow> chan_act \<Rightarrow>
   'p chan \<Rightarrow> 'p chan option" where
  "chan_do p a g f Server s =
     (case srv_pc s of
        SIdle \<Rightarrow> (case todo s of [] \<Rightarrow> None | m # ms \<Rightarrow>
           (case store_msg p m s of
              Ret _ t \<Rightarrow> Some (t\<lparr>srv_pc := SWritten, todo := ms, sent := sent s @ [m]\<rparr>) | _ \<Rightarrow> None))
      | SWritten \<Rightarrow> (case signalPost (Sig a) s of Ret _ t \<Rightarrow> Some (t\<lparr>srv_pc := SWaiting\<rparr>) | _ \<Rightarrow> None)
      | SWaiting \<Rightarrow> if 0 < sem_val s g then Some ((sem_take g s)\<lparr>srv_pc := SReturned\<rparr>) else None
      | SReturned \<Rightarrow> (case load_msg p s of
           Ret m t \<Rightarrow> Some (t\<lparr>srv_pc := SIdle, results := results s @ [Some m]\<rparr>) | _ \<Rightarrow> None))"
| "chan_do p a g f ServerGivesUp s =
     (if srv_pc s = SWaiting \<and> sem_val s g = 0
      then Some (s\<lparr>srv_pc := SIdle, results := results s @ [None]\<rparr>) else None)"
| "chan_do p a g f Client s =
     (case cl_pc s of
        CIdle \<Rightarrow> if 0 < sem_val s a then Some ((sem_take a s)\<lparr>cl_pc := CGot\<rparr>) else None
      | CGot \<Rightarrow> (case load_msg p s of
           Ret m t \<Rightarrow> (case f (peer s) m of (r, q) \<Rightarrow> Some (t\<lparr>cl_pc := CComputed r, peer := q\<rparr>))
         | _ \<Rightarrow> None)
      | CComputed r \<Rightarrow> (case store_msg p r s of Ret _ t \<Rightarrow> Some (t\<lparr>cl_pc := CWritten\<rparr>) | _ \<Rightarrow> None)
      | CWritten \<Rightarrow> (case signalPost (Sig g) s of Ret _ t \<Rightarrow> Some (t\<lparr>cl_pc := CIdle\<rparr>) | _ \<Rightarrow> None))"

fun chan_run ::
  "nat \<Rightarrow> nat \<Rightarrow> nat \<Rightarrow> ('p \<Rightarrow> SharedFmiMessage \<Rightarrow> SharedFmiMessage \<times> 'p) \<Rightarrow> chan_act list \<Rightarrow>
   'p chan \<Rightarrow> 'p chan option" where
  "chan_run p a g f [] s = Some s"
| "chan_run p a g f (x # xs) s = (case chan_do p a g f x s of None \<Rightarrow> None | Some t \<Rightarrow> chan_run p a g f xs t)"

lemma chan_do_step:
  assumes "chan_do p a g f x s = Some t" and "x \<noteq> ServerGivesUp \<or> timed"
  shows "chan_step p a g f timed s t"
  using assms
  by (cases x)
    (auto split: srv_pc.splits cl_pc.splits list.splits outcome.splits if_splits prod.splits
      intro: chan_step.intros)

lemma chan_run_steps:
  assumes "chan_run p a g f xs s = Some t" and "ServerGivesUp \<notin> set xs \<or> timed"
  shows "(chan_step p a g f timed)\<^sup>*\<^sup>* s t"
  using assms
proof (induction xs arbitrary: s)
  case Nil
  then show ?case by simp
next
  case (Cons x xs)
  then obtain u where "chan_do p a g f x s = Some u" and "chan_run p a g f xs u = Some t"
    by (auto split: option.splits)
  with Cons show ?case
    by (metis chan_do_step converse_rtranclp_into_rtranclp list.set_intros)
qed

text \<open>A concrete channel at its start, with region 0 and semaphores 0 and 1.\<close>

definition chan0 :: "'p \<Rightarrow> SharedFmiMessage list \<Rightarrow> 'p chan" where
  "chan0 q ms =
     \<lparr>shm_names = (\<lambda>_. None), shm_objs = (\<lambda>_. \<lparr>shm_size = 10072, shm_mem = SharedFmiMem_zero\<rparr>),
      next_obj = 1, fds = (\<lambda>_. None), next_fd = 3, sem_names = (\<lambda>_. None), sem_val = (\<lambda>_. 0),
      next_sem = 3, clock = (0, 0), refuse = (\<lambda>_. False), thread_lead = 1, peer = q,
      srv_pc = SIdle, cl_pc = CIdle, todo = ms, sent = [], results = []\<rparr>"

text \<open>The same channel seen by a caller: two connected ends and a world at rest.\<close>

definition ends_srv :: IpcServer where
  "ends_srv = (IpcServer_new 1 ''key'')\<lparr>m_pBuf := Some 0, m_hAvail := Sig 0, m_hSignal := Sig 1\<rparr>"

definition ends_cl :: IpcClient where
  "ends_cl = (IpcClient_new 1 ''key'')\<lparr>m_pBuf := Some 0, m_hAvail := Sig 0, m_hSignal := Sig 1\<rparr>"

definition world0 :: "'p \<Rightarrow> 'p world" where
  "world0 q =
     \<lparr>shm_names = (\<lambda>_. None), shm_objs = (\<lambda>_. \<lparr>shm_size = 10072, shm_mem = SharedFmiMem_zero\<rparr>),
      next_obj = 1, fds = (\<lambda>_. None), next_fd = 3, sem_names = (\<lambda>_. None), sem_val = (\<lambda>_. 0),
      next_sem = 3, clock = (0, 0), refuse = (\<lambda>_. False), thread_lead = 1, peer = q\<rparr>"

lemma world0_simps [simp]: "peer (world0 q) = q" "clock (world0 q) = (0, 0)"
  by (simp_all add: world0_def)

lemma ends_at_rest: "at_rest ends_srv ends_cl (world0 q)"
  by (simp add: at_rest_def same_channel_def ends_srv_def ends_cl_def world0_def IpcServer_new_def
      IpcClient_new_def IpcBase_new_def IpcBase.defs)

lemma chan0_init: "chan_init 0 0 1 q ms (chan0 q ms)"
  by (simp add: chan_init_def chan0_def)

lemma chan_reach_run:
  assumes "chan_init p a g q ms s0" and "chan_run p a g f xs s0 = Some t"
    and "ServerGivesUp \<notin> set xs \<or> timed"
  shows "chan_reach p a g f timed q ms t"
  unfolding chan_reach_def
  by (rule exI [of _ s0], rule conjI, rule assms(1), rule chan_run_steps [OF assms(2,3)])

lemma chan0_reach: "chan_reach 0 0 1 f timed q ms (chan0 q ms)"
  by (rule chan_reach_run [OF chan0_init, of _ "[]"]) simp_all

section \<open>Properties\<close>

text \<open>
  C2: In every interleaving of a sender without timeouts and its client, the messages that the
  finished sends return are, in order, the peer's replies to the messages sent: no reply is
  lost, stale, or given to another request.
\<close>

theorem chan_replies_match:
  assumes "chan_reach p a g f False q ms s"
  shows "results s = map Some (take (length (results s)) (fst (serve f q ms)))"
proof -
  from chan_reach_inv [OF assms] obtain n where "chan_inv p a g f q ms n s" ..
  then show ?thesis by (rule chan_inv_results)
qed

theorem chan_replies_match_witness:
  "\<exists>s. chan_reach 0 0 1 (\<lambda>q m. (m\<lparr>cmd := 9\<rparr>, Suc q)) False 0 [SharedFmiMessage_zero] s \<and>
     results s = [Some (SharedFmiMessage_zero\<lparr>cmd := 9\<rparr>)] \<and>
     results s = map Some (take (length (results s))
       (fst (serve (\<lambda>q m. (m\<lparr>cmd := 9\<rparr>, Suc q)) 0 [SharedFmiMessage_zero])))"
proof -
  let ?f = "\<lambda>q m. (m\<lparr>cmd := 9\<rparr>, Suc q)"
  let ?acts = "[Server, Server, Client, Client, Client, Client, Server, Server]"
  let ?s0 = "chan0 0 [SharedFmiMessage_zero]"
  have "\<exists>t. chan_run 0 0 1 ?f ?acts ?s0 = Some t \<and> results t = [Some (SharedFmiMessage_zero\<lparr>cmd := 9\<rparr>)]"
    by (simp add: chan0_def chan_acts andThen_def)
  then obtain t where t: "chan_run 0 0 1 ?f ?acts ?s0 = Some t"
    and r: "results t = [Some (SharedFmiMessage_zero\<lparr>cmd := 9\<rparr>)]" by blast
  have reach: "chan_reach 0 0 1 ?f False 0 [SharedFmiMessage_zero] t"
    by (rule chan_reach_run [OF chan0_init t]) simp
  show ?thesis by (intro exI [of _ t] conjI reach r chan_replies_match [OF reach])
qed

text \<open>
  C9: The buffer is never touched by both threads: while the client holds the message or
  is about to write its reply, the sender waits, and the two semaphores never hold more than one
  token between them.
\<close>

theorem chan_mutual_exclusion:
  assumes "chan_reach p a g f False q ms s"
  shows "(cl_pc s = CIdle \<or> srv_pc s = SWaiting) \<and> sem_val s a + sem_val s g \<le> 1 \<and>
    (0 < sem_val s a + sem_val s g \<longrightarrow> cl_pc s = CIdle \<and> srv_pc s = SWaiting)"
  using chan_reach_inv [OF assms]
  by (auto simp: chan_inv_def idle_inv_def busy_inv_def Let_def)

theorem chan_mutual_exclusion_witness:
  "chan_reach 0 0 1 (\<lambda>q m. (m, q)) False () [SharedFmiMessage_zero] (chan0 () [SharedFmiMessage_zero]) \<and>
   cl_pc (chan0 () [SharedFmiMessage_zero]) = CIdle \<and>
   sem_val (chan0 () [SharedFmiMessage_zero]) 0 + sem_val (chan0 () [SharedFmiMessage_zero]) 1 \<le> 1"
proof -
  let ?s = "chan0 () [SharedFmiMessage_zero]"
  have "chan_reach 0 0 1 (\<lambda>q m. (m, q)) False () [SharedFmiMessage_zero] ?s"
    by (rule chan0_reach)
  from this chan_mutual_exclusion [OF this] show ?thesis by (simp add: chan0_def)
qed

text \<open>
  C1: Without timeouts the exchange is live and bounded: no run has more than eight steps per
  message, a shorter run can always go on, and after exactly that many steps every message
  has been sent and answered.
\<close>

theorem chan_total_correctness:
  assumes "chan_init p a g q ms s0" and "(chan_step p a g f False ^^ n) s0 s"
  shows "n \<le> 8 * length ms \<and> (n < 8 * length ms \<longrightarrow> (\<exists>t. chan_step p a g f False s t)) \<and>
    (n = 8 * length ms \<longrightarrow> todo s = [] \<and> results s = map Some (fst (serve f q ms)))"
proof -
  from chan_inv_steps [OF chan_init_inv [OF assms(1)] assms(2)]
  obtain k where k: "8 * length ms = n + k" and inv: "chan_inv p a g f q ms k s" by blast
  show ?thesis
  proof (cases k)
    case 0
    with k inv chan_inv_done [of p a g f q ms s] show ?thesis by simp
  next
    case (Suc j)
    with k inv chan_inv_enabled [of p a g f q ms j s False] show ?thesis by simp
  qed
qed

theorem chan_total_correctness_witness:
  "\<exists>t. chan_step 0 0 1 (\<lambda>q m. (m, q)) False (chan0 () [SharedFmiMessage_zero]) t"
  using chan_total_correctness [OF chan0_init [of "()" "[SharedFmiMessage_zero]"], of 0]
  by simp

text \<open>
  C35: With a finite timeout the exchange is not safe, whatever the peer answers: after one send
  that timed out, the late reply's signal lets the next send return at once, and what it
  returns as the reply is the message it has just written itself.
\<close>

theorem timed_send_returns_own_request:
  assumes "chan_init p a g q [m1, m2] s0"
  shows "\<exists>s. (chan_step p a g f True)\<^sup>*\<^sup>* s0 s \<and> sent s = [m1, m2] \<and> results s = [None, Some m2]"
proof -
  let ?acts = "[Server, Server, ServerGivesUp, Client, Client, Client, Client, Server, Server, Server, Server]"
  obtain r q' where f: "f q m1 = (r, q')" by fastforce
  have "\<exists>t. chan_run p a g f ?acts s0 = Some t \<and> sent t = [m1, m2] \<and> results t = [None, Some m2]"
    using assms f by (simp add: chan_init_def chan_acts andThen_def)
  then obtain t where "chan_run p a g f ?acts s0 = Some t" and t: "sent t = [m1, m2] \<and> results t = [None, Some m2]" by blast
  from chan_run_steps [OF this(1), of True] t show ?thesis by auto
qed

theorem timed_send_returns_own_request_witness:
  "\<exists>s. (chan_step 0 0 1 (\<lambda>q m. (m\<lparr>cmd := 9\<rparr>, q)) True)\<^sup>*\<^sup>*
     (chan0 () [SharedFmiMessage_zero, SharedFmiMessage_zero\<lparr>cmd := 1\<rparr>]) s \<and>
     results s = [None, Some (SharedFmiMessage_zero\<lparr>cmd := 1\<rparr>)]"
  using timed_send_returns_own_request [OF chan0_init, of "\<lambda>q m. (m\<lparr>cmd := 9\<rparr>, q)" "()"
      "SharedFmiMessage_zero" "SharedFmiMessage_zero\<lparr>cmd := 1\<rparr>"] by auto

text \<open>
  With a finite timeout a message can be lost, and the peer can be made to handle its own
  reply as a request: the second message overwrites the first before the peer has read it, and
  the second token then finds the reply in the buffer.
\<close>

theorem timed_send_loses_message:
  assumes "chan_init p a g [] [m1, m2] s0" and "f = (\<lambda>q m. (reply m, q @ [m]))"
  shows "\<exists>s. (chan_step p a g f True)\<^sup>*\<^sup>* s0 s \<and> sent s = [m1, m2] \<and> peer s = [m2, reply m2]"
proof -
  let ?acts = "[Server, Server, ServerGivesUp, Server, Server, Client, Client, Client, Client, Client, Client]"
  have "\<exists>t. chan_run p a g f ?acts s0 = Some t \<and> sent t = [m1, m2] \<and> peer t = [m2, reply m2]"
    using assms by (simp add: chan_init_def chan_acts andThen_def)
  then obtain t where "chan_run p a g f ?acts s0 = Some t" and t: "sent t = [m1, m2] \<and> peer t = [m2, reply m2]" by blast
  from chan_run_steps [OF this(1), of True] t show ?thesis by auto
qed

theorem timed_send_loses_message_witness:
  "\<exists>s. (chan_step 0 0 1 (\<lambda>q m. (m\<lparr>cmd := 22\<rparr>, q @ [m])) True)\<^sup>*\<^sup>*
     (chan0 [] [SharedFmiMessage_zero, SharedFmiMessage_zero\<lparr>cmd := 1\<rparr>]) s \<and>
     peer s = [SharedFmiMessage_zero\<lparr>cmd := 1\<rparr>, SharedFmiMessage_zero\<lparr>cmd := 22\<rparr>]"
  using timed_send_loses_message [OF chan0_init refl, of "\<lambda>m. m\<lparr>cmd := 22\<rparr>"
      "SharedFmiMessage_zero" "SharedFmiMessage_zero\<lparr>cmd := 1\<rparr>"] by auto

text \<open>A wait during which the peer does nothing ends with the timeout, and never ends without one.\<close>

lemma send_left_alone:
  assumes rest: "at_rest srv cl s" and p: "m_pBuf srv = Some p" and a: "m_hAvail srv = Sig a"
  shows "IpcServer_send (\<lambda>_ s. s) srv m t s =
    (if t = 0 then Blocks
     else Ret None (s\<lparr>shm_objs := (shm_objs s)(p := (shm_objs s p)\<lparr>shm_mem := \<lparr>message = m\<rparr>\<rparr>),
                     sem_val := (sem_val s)(a := 1)\<rparr>))"
proof -
  from rest p a obtain g where h: "m_hSignal srv = Sig g" "a \<noteq> g" "0 < shm_size (shm_objs s p)"
      "sem_val s a = 0" "sem_val s g = 0" "\<not> refuse s (OpSemWait g)"
    by (auto simp: at_rest_def)
  let ?s1 = "s\<lparr>shm_objs := (shm_objs s)(p := (shm_objs s p)\<lparr>shm_mem := \<lparr>message = m\<rparr>\<rparr>),
               sem_val := (sem_val s)(a := 1)\<rparr>"
  have "signalWait (\<lambda>_ s. s) (Sig g) t ?s1 = (if t = 0 then Blocks else Ret False ?s1)"
    using h by (simp add: signalWait_def Let_def)
  with h p a show ?thesis
    by (simp add: IpcServer_send_def store_msg_def signalPost_Sig SEM_VALUE_MAX_def andThen_def)
qed

text \<open>
  C10: \<open>IpcServer::send\<close> on a channel at rest, for a message that the peer's handler answers and a
  timeout whose deadline the system accepts (its nanoseconds are in range; no timeout is always
  accepted). If the client makes one whole turn (\<open>getMessage\<close>, the handler, \<open>sendReply\<close>) while
  \<open>send\<close> waits, \<open>send\<close> is one call of the handler: it returns a pointer to the buffer, which holds
  the answer, the peer has moved as its handler does, the channel is at rest again, and
  semaphores, names and descriptors are as they were. If the client does nothing during the wait,
  \<open>send\<close> returns NULL once a finite timeout is over, and never without a timeout; after NULL the
  message is still in the buffer with its token posted, so the channel is not at rest.
\<close>

theorem send_is_one_call:
  fixes s :: "('p, 'z) world_scheme"
  assumes "at_rest srv cl s" and "deadline_valid (clock s) t" and "h m (peer s) = Ret r q"
  shows "(\<exists>p s'. m_pBuf srv = Some p \<and> IpcServer_send (turn_env h cl) srv m t s = Ret (Some p) s' \<and>
      load_msg p s' = Ret r s' \<and> peer s' = q \<and> at_rest srv cl s' \<and>
      sem_val s' = sem_val s \<and> shm_names s' = shm_names s \<and> sem_names s' = sem_names s \<and>
      fds s' = fds s \<and> world.more s' = world.more s) \<and>
    (if t = 0 then IpcServer_send (\<lambda>_ s. s) srv m t s = Blocks
     else \<exists>p a s'. m_pBuf srv = Some p \<and> m_hAvail srv = Sig a \<and>
       IpcServer_send (\<lambda>_ s. s) srv m t s = Ret None s' \<and> load_msg p s' = Ret m s' \<and>
       sem_val s' a = 1 \<and> peer s' = peer s \<and> \<not> at_rest srv cl s')"
proof -
  from assms(1) obtain p a where p: "m_pBuf srv = Some p" "0 < shm_size (shm_objs s p)"
    and a: "m_hAvail srv = Sig a" by (auto simp: at_rest_def)
  have "IpcServer_send (turn_env h cl) srv m t s = Ret (Some p) (after_exchange r q p s)"
    by (rule send_at_rest [of srv cl s t p h m r q, OF assms(1,2) p(1) assms(3)])
  moreover note load_after_exchange [OF p(2), of r q] at_rest_after [OF assms(1), of r q p]
  moreover have "if t = 0 then IpcServer_send (\<lambda>_ s. s) srv m t s = Blocks
      else \<exists>s'. IpcServer_send (\<lambda>_ s. s) srv m t s = Ret None s' \<and> load_msg p s' = Ret m s' \<and>
       sem_val s' a = 1 \<and> peer s' = peer s \<and> \<not> at_rest srv cl s'"
    using p(2) a by (simp add: send_left_alone [OF assms(1) p(1) a] load_msg_def at_rest_def)
  ultimately show ?thesis using p(1) a by auto
qed

theorem send_is_one_call_witness:
  "(\<exists>p s'. IpcServer_send (turn_env (\<lambda>m q. Ret (m\<lparr>cmd := 9\<rparr>) (Suc q)) ends_cl) ends_srv
     SharedFmiMessage_zero 10 (world0 (4 :: nat)) = Ret (Some p) s' \<and>
     load_msg p s' = Ret (SharedFmiMessage_zero\<lparr>cmd := 9\<rparr>) s' \<and> peer s' = 5) \<and>
   (\<exists>s'. IpcServer_send (\<lambda>_ s. s) ends_srv SharedFmiMessage_zero 10 (world0 (4 :: nat)) = Ret None s' \<and>
     peer s' = 4)"
proof -
  have d: "deadline_valid (clock (world0 (4 :: nat))) 10"
    by (simp add: deadline_valid_def deadline_def)
  from send_is_one_call [OF ends_at_rest d, of "\<lambda>m q. Ret (m\<lparr>cmd := 9\<rparr>) (Suc q)" SharedFmiMessage_zero
      "SharedFmiMessage_zero\<lparr>cmd := 9\<rparr>" 5]
  show ?thesis by auto
qed

end
