(* ===== verification/ChannelRefinement.thy ===== *)
theory ChannelRefinement
  imports Channel
begin

text \<open>
  The abstract specification of a channel and its refinement. To its caller a channel is a peer
  that answers one request after the other, each in one atomic step; the interleaved accesses to
  buffer and semaphores in \<open>Channel\<close> implement it, the answer taking effect when the client's
  handler has run.
\<close>

section \<open>Refinement mappings\<close>

text \<open>
  What is to be shown of a mapping from concrete to abstract states: a concrete step from a state
  in the invariant keeps the invariant, and is an abstract step or changes nothing abstract.
\<close>

locale refinement_mapping =
  fixes cstep :: "'c \<Rightarrow> 'c \<Rightarrow> bool" and inv :: "'c \<Rightarrow> bool" and abs_of :: "'c \<Rightarrow> 'a"
    and astep :: "'a \<Rightarrow> 'a \<Rightarrow> bool"
  assumes inv_step: "inv s \<Longrightarrow> cstep s t \<Longrightarrow> inv t"
    and step_abs: "inv s \<Longrightarrow> cstep s t \<Longrightarrow> abs_of t = abs_of s \<or> astep (abs_of s) (abs_of t)"
begin

lemma run_abs:
  assumes "cstep\<^sup>*\<^sup>* s t" and "inv s"
  shows "inv t \<and> astep\<^sup>*\<^sup>* (abs_of s) (abs_of t)"
  using assms
proof (induction rule: rtranclp_induct)
  case base
  then show ?case by simp
next
  case (step t u)
  then have "inv t" and run: "astep\<^sup>*\<^sup>* (abs_of s) (abs_of t)" by simp_all
  with step.hyps(2) step_abs [of t u] inv_step [of t u] show ?case
    by (metis rtranclp.rtrancl_into_rtrancl)
qed

lemma run_keeps:
  assumes "cstep\<^sup>*\<^sup>* s t" and "inv s" and "P (abs_of s)" and "\<And>x y. P x \<Longrightarrow> astep x y \<Longrightarrow> P y"
  shows "P (abs_of t)"
proof -
  have "astep\<^sup>*\<^sup>* x y \<Longrightarrow> P x \<Longrightarrow> P y" for x y
    by (induction rule: rtranclp_induct) (auto intro: assms(4))
  with run_abs [OF assms(1,2)] assms(3) show ?thesis by blast
qed

end

section \<open>The specification: atomic requests\<close>

record 'p rpc =
  requests :: "SharedFmiMessage list"
  replies :: "SharedFmiMessage list"
  handler_state :: 'p

inductive rpc_step ::
  "('p \<Rightarrow> SharedFmiMessage \<Rightarrow> SharedFmiMessage \<times> 'p) \<Rightarrow> 'p rpc \<Rightarrow> 'p rpc \<Rightarrow> bool"
  for f :: "'p \<Rightarrow> SharedFmiMessage \<Rightarrow> SharedFmiMessage \<times> 'p"
where
  rpc_answer: "requests x = m # ms \<Longrightarrow> f (handler_state x) m = (r, q) \<Longrightarrow>
     rpc_step f x \<lparr>requests = ms, replies = replies x @ [r], handler_state = q\<rparr>"

inductive_simps rpc_step_iff: "rpc_step f x y"

definition rpc_start :: "'p \<Rightarrow> SharedFmiMessage list \<Rightarrow> 'p rpc" where
  "rpc_start q ms = \<lparr>requests = ms, replies = [], handler_state = q\<rparr>"

text \<open>The specification computes what \<open>serve\<close> does, from every state on the way.\<close>

definition rpc_goal ::
  "('p \<Rightarrow> SharedFmiMessage \<Rightarrow> SharedFmiMessage \<times> 'p) \<Rightarrow> 'p rpc \<Rightarrow> SharedFmiMessage list \<times> 'p" where
  "rpc_goal f x =
     (replies x @ fst (serve f (handler_state x) (requests x)), snd (serve f (handler_state x) (requests x)))"

lemma rpc_goal_start: "rpc_goal f (rpc_start q ms) = serve f q ms"
  by (simp add: rpc_goal_def rpc_start_def)

lemma rpc_goal_step: "rpc_step f x y \<Longrightarrow> rpc_goal f y = rpc_goal f x"
  by (auto simp: rpc_step_iff rpc_goal_def case_prod_beta Let_def)

section \<open>The mapping\<close>

text \<open>
  Where the message under way stands, read off the two threads: still a request, or already a
  reply that the sender has not yet returned. The buffer holds the one or the other, and while
  both threads wait the \<open>avail\<close> semaphore tells which.
\<close>

definition buffer :: "nat \<Rightarrow> 'a os_scheme \<Rightarrow> SharedFmiMessage" where
  "buffer p s = message (shm_mem (shm_objs s p))"

definition awaiting :: "nat \<Rightarrow> nat \<Rightarrow> 'p chan \<Rightarrow> SharedFmiMessage list" where
  "awaiting p a s =
     (case srv_pc s of
        SWritten \<Rightarrow> [buffer p s]
      | SWaiting \<Rightarrow> if cl_pc s = CGot \<or> cl_pc s = CIdle \<and> 0 < sem_val s a then [buffer p s] else []
      | _ \<Rightarrow> [])"

definition answered :: "nat \<Rightarrow> nat \<Rightarrow> 'p chan \<Rightarrow> SharedFmiMessage list" where
  "answered p a s =
     (case srv_pc s of
        SReturned \<Rightarrow> [buffer p s]
      | SWaiting \<Rightarrow> (case cl_pc s of
          CComputed r \<Rightarrow> [r]
        | CWritten \<Rightarrow> [buffer p s]
        | CIdle \<Rightarrow> if 0 < sem_val s a then [] else [buffer p s]
        | CGot \<Rightarrow> [])
      | _ \<Rightarrow> [])"

text \<open>What the finished sends returned, without those that timed out.\<close>

fun returned :: "'b option list \<Rightarrow> 'b list" where
  "returned [] = []"
| "returned (None # rs) = returned rs"
| "returned (Some r # rs) = r # returned rs"

lemma returned_append [simp]: "returned (xs @ ys) = returned xs @ returned ys"
  by (induction xs rule: returned.induct) simp_all

lemma returned_map_Some [simp]: "returned (map Some xs) = xs"
  by (induction xs) simp_all

definition chan_abs :: "nat \<Rightarrow> nat \<Rightarrow> 'p chan \<Rightarrow> 'p rpc" where
  "chan_abs p a s =
     \<lparr>requests = awaiting p a s @ todo s, replies = returned (results s) @ answered p a s,
      handler_state = peer s\<rparr>"

lemmas chan_abs_defs = chan_abs_def awaiting_def answered_def buffer_def

lemma chan_init_abs: "chan_init p a g q ms s \<Longrightarrow> chan_abs p a s = rpc_start q ms"
  by (simp add: chan_init_def chan_abs_defs rpc_start_def)

text \<open>The step in which the client's handler has run is the atomic one, every other is invisible.\<close>

definition takes_effect :: "'p chan \<Rightarrow> 'p chan \<Rightarrow> bool" where
  "takes_effect s t \<longleftrightarrow> cl_pc s = CGot \<and> cl_pc t \<noteq> CGot"

lemma idle_step_abs:
  assumes "idle_inv a g f q s" and "chan_step p a g f False s t" and "a \<noteq> g"
  shows "chan_abs p a t = chan_abs p a s \<and> \<not> takes_effect s t"
  using assms(2,1,3)
  by (cases rule: chan_step.cases) (auto simp: idle_inv_def chan_abs_defs takes_effect_def chan_acts split: if_splits)

lemma busy_step_abs:
  assumes "busy_inv p a g f q n s" and "chan_step p a g f False s t" and "a \<noteq> g"
  shows "if takes_effect s t then rpc_step f (chan_abs p a s) (chan_abs p a t)
    else chan_abs p a t = chan_abs p a s"
proof -
  from assms(1) obtain old m where om: "sent s = old @ [m]"
    "map Some (fst (serve f q old)) = results s" by (auto simp: busy_inv_def)
  show ?thesis
    using assms(2,1,3) om
    by (cases rule: chan_step.cases)
      (auto simp: busy_inv_def chan_abs_defs takes_effect_def rpc_step_iff chan_acts Let_def split: if_splits)
qed

lemma chan_inv_step_abs:
  assumes "chan_inv p a g f q ms n s" and "chan_step p a g f False s t"
  shows "if takes_effect s t then rpc_step f (chan_abs p a s) (chan_abs p a t)
    else chan_abs p a t = chan_abs p a s"
  using assms idle_step_abs [of a g f q s p t] busy_step_abs [of p a g f q _ s t]
  by (auto simp: chan_inv_def)

interpretation chan_rpc: refinement_mapping "chan_step p a g f False"
  "\<lambda>s. \<exists>n. chan_inv p a g f q ms n s" "chan_abs p a" "rpc_step f"
  for p a g :: nat and f :: "'p \<Rightarrow> SharedFmiMessage \<Rightarrow> SharedFmiMessage \<times> 'p" and q ms
  by unfold_locales (auto dest: chan_inv_step chan_inv_step_abs split: if_splits)

section \<open>Properties\<close>

text \<open>
  C3: Without timeouts the channel refines atomic request and reply. A run of the two threads is,
  through the mapping, a run of the specification from the same requests and the same peer: each
  step of a thread is invisible except the one in which the client's handler has run, which is the
  specification's step. The replies it has given and will give are \<open>serve\<close>'s, and those it has given
  are the ones that the sends have returned and at most one more.
\<close>

theorem chan_refines_rpc:
  assumes "chan_reach p a g f False q ms s" and "chan_step p a g f False s t"
  shows "(rpc_step f)\<^sup>*\<^sup>* (rpc_start q ms) (chan_abs p a s) \<and>
    (if takes_effect s t then rpc_step f (chan_abs p a s) (chan_abs p a t)
     else chan_abs p a t = chan_abs p a s) \<and>
    rpc_goal f (chan_abs p a s) = serve f q ms \<and>
    results s = map Some (take (length (results s)) (replies (chan_abs p a s))) \<and>
    length (replies (chan_abs p a s)) \<le> Suc (length (results s))"
proof -
  from assms(1) obtain s0 where s0: "chan_init p a g q ms s0"
    and run: "(chan_step p a g f False)\<^sup>*\<^sup>* s0 s" by (auto simp: chan_reach_def)
  from chan_rpc.run_abs [OF run] chan_init_inv [OF s0]
  have "\<exists>n. chan_inv p a g f q ms n s" and rpc: "(rpc_step f)\<^sup>*\<^sup>* (rpc_start q ms) (chan_abs p a s)"
    unfolding chan_init_abs [OF s0] by blast+
  then obtain n where inv: "chan_inv p a g f q ms n s" by blast
  have "rpc_goal f (chan_abs p a s) = serve f q ms"
    by (rule chan_rpc.run_keeps [OF run, where P = "\<lambda>x. rpc_goal f x = serve f q ms"])
      (use chan_init_inv [OF s0] in \<open>auto simp: chan_init_abs [OF s0] rpc_goal_start rpc_goal_step\<close>)
  moreover define rs where "rs = returned (results s)"
  from inv have "results s = map Some rs"
    by (auto simp: rs_def chan_inv_def idle_inv_def busy_inv_def Let_def dest: sym)
  moreover have "length (answered p a s) \<le> 1"
    by (auto simp: answered_def split: srv_pc.splits cl_pc.splits)
  ultimately show ?thesis
    using rpc chan_inv_step_abs [OF inv assms(2)] by (simp add: chan_abs_def)
qed

theorem chan_refines_rpc_witness:
  "\<exists>s t. chan_step 0 0 1 (\<lambda>q m. (m\<lparr>cmd := 9\<rparr>, Suc q)) False s t \<and> takes_effect s t \<and>
     rpc_step (\<lambda>q m. (m\<lparr>cmd := 9\<rparr>, Suc q)) (chan_abs 0 0 s) (chan_abs 0 0 t) \<and>
     replies (chan_abs 0 0 t) = [SharedFmiMessage_zero\<lparr>cmd := 9\<rparr>] \<and> results t = []"
proof -
  let ?f = "\<lambda>q m. (m\<lparr>cmd := 9\<rparr>, Suc q)" and ?s0 = "chan0 0 [SharedFmiMessage_zero]"
  have "\<exists>s t. chan_run 0 0 1 ?f [Server, Server, Client] ?s0 = Some s \<and>
      chan_do 0 0 1 ?f Client s = Some t \<and> takes_effect s t \<and> results t = [] \<and>
      replies (chan_abs 0 0 t) = [SharedFmiMessage_zero\<lparr>cmd := 9\<rparr>]"
    by (simp add: chan0_def chan_acts andThen_def takes_effect_def chan_abs_defs)
  then obtain s t where s: "chan_run 0 0 1 ?f [Server, Server, Client] ?s0 = Some s"
    and t: "chan_do 0 0 1 ?f Client s = Some t" and eff: "takes_effect s t" "results t = []"
      "replies (chan_abs 0 0 t) = [SharedFmiMessage_zero\<lparr>cmd := 9\<rparr>]" by blast
  have "chan_reach 0 0 1 ?f False 0 [SharedFmiMessage_zero] s"
    by (rule chan_reach_run [OF chan0_init s]) simp
  moreover have st: "chan_step 0 0 1 ?f False s t" by (rule chan_do_step [OF t]) simp
  ultimately have "rpc_step ?f (chan_abs 0 0 s) (chan_abs 0 0 t)"
    using chan_refines_rpc eff(1) by fastforce
  with st eff show ?thesis by blast
qed

end
