(* ===== verification/Win32.thy ===== *)
theory Win32
  imports SharedFmiMessage
begin

text \<open>
  The part of the Windows API that libshmipc calls: named file mappings and auto-reset events in
  the object directory of a session, the handles on them, and waiting. The calls follow their
  published documentation. An object keeps its name as long as some handle is open, which is why
  creating something that exists already gives the existing one. Which calls the system refuses is
  the field \<open>w_refuse\<close>, any predicate; what others do while a thread waits is the argument \<open>env\<close>.
\<close>

section \<open>State\<close>

datatype win_op = OpOpen string | OpCreate string | OpMapView nat

text \<open>
  File mappings are sized when they are created, and zero-filled; an auto-reset event is set or
  not: there is nothing to count.
\<close>

datatype win_obj = Section nat SharedFmiMem | Event bool

fun is_section :: "win_obj \<Rightarrow> bool" where
  "is_section (Section n m) = True"
| "is_section (Event b) = False"

fun is_set :: "win_obj \<Rightarrow> bool" where
  "is_set (Event b) = b"
| "is_set (Section n m) = False"

fun content :: "win_obj \<Rightarrow> SharedFmiMem" where
  "content (Section n m) = m"
| "content (Event b) = SharedFmiMem_zero"

text \<open>\<open>w_refs\<close> counts the open handles of an object; a \<open>NULL\<close> handle is \<open>None\<close>.\<close>

type_synonym WHANDLE = "nat option"

record win =
  w_names :: "string \<Rightarrow> nat option"
  w_obj :: "nat \<Rightarrow> win_obj"
  w_refs :: "nat \<Rightarrow> nat"
  w_next :: nat
  w_handles :: "nat \<Rightarrow> nat option"
  w_next_handle :: nat
  w_refuse :: "win_op \<Rightarrow> bool"

definition win_init :: win where
  "win_init = \<lparr>w_names = (\<lambda>_. None), w_obj = (\<lambda>_. Event False), w_refs = (\<lambda>_. 0), w_next = 0,
     w_handles = (\<lambda>_. None), w_next_handle = 1, w_refuse = (\<lambda>_. False)\<rparr>"

text \<open>The object behind a handle.\<close>

definition obj_of :: "WHANDLE \<Rightarrow> 'a win_scheme \<Rightarrow> nat option" where
  "obj_of h s = Option.bind h (w_handles s)"

section \<open>Handles and names\<close>

definition new_handle :: "nat \<Rightarrow> 'a win_scheme \<Rightarrow> WHANDLE \<times> 'a win_scheme" where
  "new_handle k s = (Some (w_next_handle s),
     s\<lparr>w_handles := (w_handles s)(w_next_handle s := Some k),
       w_next_handle := Suc (w_next_handle s), w_refs := (w_refs s)(k := Suc (w_refs s k))\<rparr>)"

text \<open>
  Opening by name, and creating: what exists under the name is opened, whatever its state, if it is
  of the right kind; events and file mappings share one directory.
\<close>

definition open_named :: "bool \<Rightarrow> string \<Rightarrow> 'a win_scheme \<Rightarrow> WHANDLE \<times> 'a win_scheme" where
  "open_named sec name s =
     (if w_refuse s (OpOpen name) then (None, s)
      else case w_names s name of
        None \<Rightarrow> (None, s)
      | Some k \<Rightarrow> if is_section (w_obj s k) = sec then new_handle k s else (None, s))"

definition create_named :: "win_obj \<Rightarrow> string \<Rightarrow> 'a win_scheme \<Rightarrow> WHANDLE \<times> 'a win_scheme" where
  "create_named new name s =
     (if w_refuse s (OpCreate name) then (None, s)
      else case w_names s name of
        Some k \<Rightarrow> if is_section (w_obj s k) = is_section new then new_handle k s else (None, s)
      | None \<Rightarrow> new_handle (w_next s)
          (s\<lparr>w_obj := (w_obj s)(w_next s := new), w_names := (w_names s)(name := Some (w_next s)),
             w_refs := (w_refs s)(w_next s := 0), w_next := Suc (w_next s)\<rparr>))"

definition OpenFileMapping :: "string \<Rightarrow> 'a win_scheme \<Rightarrow> WHANDLE \<times> 'a win_scheme" where
  "OpenFileMapping = open_named True"

definition OpenEventA :: "string \<Rightarrow> 'a win_scheme \<Rightarrow> WHANDLE \<times> 'a win_scheme" where
  "OpenEventA = open_named False"

definition CreateFileMapping :: "nat \<Rightarrow> string \<Rightarrow> 'a win_scheme \<Rightarrow> WHANDLE \<times> 'a win_scheme" where
  "CreateFileMapping n = create_named (Section n SharedFmiMem_zero)"

text \<open>\<open>CreateEventA(NULL, FALSE, FALSE, name)\<close>: auto-reset and not set.\<close>

definition CreateEventA :: "string \<Rightarrow> 'a win_scheme \<Rightarrow> WHANDLE \<times> 'a win_scheme" where
  "CreateEventA = create_named (Event False)"

text \<open>With its last handle an object loses its name.\<close>

definition CloseHandle :: "WHANDLE \<Rightarrow> 'a win_scheme \<Rightarrow> 'a win_scheme" where
  "CloseHandle h s =
     (case obj_of h s of
        None \<Rightarrow> s
      | Some k \<Rightarrow> s\<lparr>w_handles := (w_handles s)(the h := None), w_refs := (w_refs s)(k := w_refs s k - 1),
          w_names := (\<lambda>n. if w_refs s k \<le> 1 \<and> w_names s n = Some k then None else w_names s n)\<rparr>)"

section \<open>Views, events, waiting\<close>

text \<open>A view of a mapping is the object itself; it stays valid when the handle is closed.\<close>

definition MapViewOfFile :: "WHANDLE \<Rightarrow> nat \<Rightarrow> 'a win_scheme \<Rightarrow> nat option" where
  "MapViewOfFile h n s =
     (case obj_of h s of
        None \<Rightarrow> None
      | Some k \<Rightarrow> (case w_obj s k of
          Section sz m \<Rightarrow> if sz < n \<or> w_refuse s (OpMapView k) then None else Some k
        | Event b \<Rightarrow> None))"

definition load_view :: "nat \<Rightarrow> (SharedFmiMessage, 'a win_scheme) prog" where
  "load_view p s = Ret (message (content (w_obj s p))) s"

fun overwrite :: "SharedFmiMessage \<Rightarrow> win_obj \<Rightarrow> win_obj" where
  "overwrite m (Section n old) = Section n \<lparr>message = m\<rparr>"
| "overwrite m (Event b) = Event b"

definition store_view :: "nat \<Rightarrow> SharedFmiMessage \<Rightarrow> (unit, 'a win_scheme) prog" where
  "store_view p m s = Ret () (s\<lparr>w_obj := (w_obj s)(p := overwrite m (w_obj s p))\<rparr>)"

text \<open>
  Setting a set event changes nothing, and a call with a handle that is not one fails without
  further effect.
\<close>

definition put_event :: "nat \<Rightarrow> bool \<Rightarrow> 'a win_scheme \<Rightarrow> 'a win_scheme" where
  "put_event k b s = (if is_section (w_obj s k) then s else s\<lparr>w_obj := (w_obj s)(k := Event b)\<rparr>)"

definition SetEvent :: "WHANDLE \<Rightarrow> 'a win_scheme \<Rightarrow> 'a win_scheme" where
  "SetEvent h s = (case obj_of h s of None \<Rightarrow> s | Some k \<Rightarrow> put_event k True s)"

definition W_INFINITE :: "32 word" where
  "W_INFINITE = 0xFFFFFFFF"

text \<open>
  \<open>WaitForSingleObject\<close>, true for \<open>WAIT_OBJECT_0\<close>: a set event is reset and the wait is over.
  Others run until then or until the relative timeout has passed.
\<close>

type_synonym 's wenv = "32 word option \<Rightarrow> 's \<Rightarrow> 's"

definition WaitForSingleObject ::
  "('a win_scheme) wenv \<Rightarrow> WHANDLE \<Rightarrow> 32 word \<Rightarrow> (bool, 'a win_scheme) prog" where
  "WaitForSingleObject env h t s =
     (case obj_of h s of
        None \<Rightarrow> Ret False s
      | Some k \<Rightarrow>
          if is_section (w_obj s k) then Ret False s
          else if is_set (w_obj s k) then Ret True (put_event k False s)
          else let s' = env (if t = W_INFINITE then None else Some t) s
               in if is_set (w_obj s' k) then Ret True (put_event k False s')
                  else if t = W_INFINITE then Blocks else Ret False s')"

section \<open>Well-formed states\<close>

text \<open>
  Handles and objects are numbered in order, an object is counted by its handles, and whatever has
  a name is open.
\<close>

definition handles_wf :: "'a win_scheme \<Rightarrow> bool" where
  "handles_wf s \<longleftrightarrow>
     (\<forall>h k. w_handles s h = Some k \<longrightarrow> h < w_next_handle s \<and> k < w_next s) \<and>
     (\<forall>k. w_refs s k = card {h. w_handles s h = Some k})"

definition win_wf :: "'a win_scheme \<Rightarrow> bool" where
  "win_wf s \<longleftrightarrow> handles_wf s \<and> (\<forall>n k. w_names s n = Some k \<longrightarrow> k < w_next s \<and> 0 < w_refs s k)"

lemma handles_wf_finite: "handles_wf s \<Longrightarrow> finite {h. w_handles s h = Some k}"
  by (rule finite_subset [of _ "{..<w_next_handle s}"]) (auto simp: handles_wf_def)

lemma win_init_wf [simp]: "win_wf win_init"
  by (simp add: win_wf_def handles_wf_def win_init_def)

lemma handles_wf_fresh:
  assumes "handles_wf s"
  shows "w_handles s (w_next_handle s) = None" and "w_refs s (w_next s) = 0"
proof -
  show "w_handles s (w_next_handle s) = None"
    using assms by (cases "w_handles s (w_next_handle s)") (auto simp: handles_wf_def)
  have "{h. w_handles s h = Some (w_next s)} = {}" using assms by (auto simp: handles_wf_def)
  then show "w_refs s (w_next s) = 0" using assms by (metis card.empty handles_wf_def)
qed

lemma handles_wf_new_handle:
  assumes "handles_wf s" and "k < w_next s"
  shows "handles_wf (snd (new_handle k s))"
proof -
  let ?n = "w_next_handle s"
  note none = handles_wf_fresh(1) [OF assms(1)]
  have "{h. ((w_handles s)(?n := Some k)) h = Some k} = insert ?n {h. w_handles s h = Some k}"
    by auto
  moreover have "?n \<notin> {h. w_handles s h = Some k}" using none by simp
  ultimately have "card {h. ((w_handles s)(?n := Some k)) h = Some k} = Suc (w_refs s k)"
    using handles_wf_finite [OF assms(1), of k] assms(1) by (simp add: handles_wf_def)
  moreover have "{h. ((w_handles s)(?n := Some k)) h = Some j} = {h. w_handles s h = Some j}" if "j \<noteq> k" for j
    using that none by auto
  moreover have "\<forall>h j. ((w_handles s)(?n := Some k)) h = Some j \<longrightarrow> h < Suc ?n \<and> j < w_next s"
    using assms by (auto simp: handles_wf_def less_Suc_eq)
  ultimately show ?thesis
    using assms(1) unfolding handles_wf_def new_handle_def by simp
qed

lemma new_handle_wf: "win_wf s \<Longrightarrow> k < w_next s \<Longrightarrow> win_wf (snd (new_handle k s))"
  using handles_wf_new_handle [of s k] by (auto simp: win_wf_def new_handle_def)

lemma open_named_wf: "win_wf s \<Longrightarrow> win_wf (snd (open_named c n s))"
  using new_handle_wf [of s] by (simp add: open_named_def win_wf_def split: option.split)

lemma create_named_wf:
  assumes "win_wf s"
  shows "win_wf (snd (create_named v n s))"
proof (cases "w_names s n")
  case None
  let ?s = "s\<lparr>w_obj := (w_obj s)(w_next s := v), w_names := (w_names s)(n := Some (w_next s)),
    w_refs := (w_refs s)(w_next s := 0), w_next := Suc (w_next s)\<rparr>"
  have "handles_wf ?s"
    using assms handles_wf_fresh(2) [of s] by (auto simp: win_wf_def handles_wf_def less_Suc_eq)
  from handles_wf_new_handle [OF this, of "w_next s"] None assms show ?thesis
    by (auto simp: create_named_def win_wf_def new_handle_def less_Suc_eq)
next
  case (Some k)
  with assms new_handle_wf [OF assms, of k] show ?thesis
    by (auto simp: create_named_def win_wf_def)
qed

lemma CloseHandle_wf:
  assumes "win_wf s"
  shows "win_wf (CloseHandle h s)"
proof (cases "obj_of h s")
  case None
  with assms show ?thesis by (simp add: CloseHandle_def)
next
  case (Some k)
  then obtain i where i: "h = Some i" "w_handles s i = Some k"
    by (auto simp: obj_of_def bind_eq_Some_conv)
  have wf: "handles_wf s" using assms by (simp add: win_wf_def)
  let ?hs = "(w_handles s)(i := None)"
  have "{j. ?hs j = Some k} = {j. w_handles s j = Some k} - {i}" by auto
  then have "card {j. ?hs j = Some k} = w_refs s k - 1"
    using wf i(2) handles_wf_finite [OF wf, of k] by (simp add: handles_wf_def)
  moreover have "{j. ?hs j = Some m} = {j. w_handles s j = Some m}" if "m \<noteq> k" for m
    using that i(2) by auto
  moreover have "\<forall>j m. ?hs j = Some m \<longrightarrow> j < w_next_handle s \<and> m < w_next s"
    using wf by (auto simp: handles_wf_def)
  ultimately have "handles_wf (CloseHandle h s)"
    using wf Some i unfolding handles_wf_def CloseHandle_def by simp
  with assms Some show ?thesis
    by (auto simp: CloseHandle_def win_wf_def split: if_splits)
qed

end
