(* ===== verification/WinIpc.thy ===== *)
theory WinIpc
  imports Win32
begin

text \<open>
  The two ends of a channel in the Windows branches of libshmipc (IpcBase.cpp, with IpcServer.cpp
  and IpcClient.cpp compiled over them). Names that the POSIX theories use too have a \<open>W\<close> or
  \<open>_w\<close> at their end.
\<close>

section \<open>The common base\<close>

record IpcBaseW =
  m_hMapFile_w :: WHANDLE
  m_hMapFileName_w :: "string option"
  m_hSignal_w :: WHANDLE
  m_hAvail_w :: WHANDLE
  m_hConnWatchDogSignal_w :: WHANDLE
  m_name_w :: string
  m_pBuf_w :: "nat option"

definition SHARED_MEM_BASE_NAME_W :: string where
  "SHARED_MEM_BASE_NAME_W = ''Local'' @ [CHR 0x5C]"

definition SIGNAL_AVALIABLE_NAME_W :: string where
  "SIGNAL_AVALIABLE_NAME_W = ''Local'' @ CHR 0x5C # ''sigAvail''"

definition SIGNAL_NAME_W :: string where
  "SIGNAL_NAME_W = ''Local'' @ CHR 0x5C # ''sig''"

definition SIGNAL_CONN_WATCH_DOG_NAME_W :: string where
  "SIGNAL_CONN_WATCH_DOG_NAME_W = ''Local'' @ CHR 0x5C # ''connWatchDog''"

lemmas base_names_W = SHARED_MEM_BASE_NAME_W_def SIGNAL_AVALIABLE_NAME_W_def SIGNAL_NAME_W_def
  SIGNAL_CONN_WATCH_DOG_NAME_W_def

definition IpcBaseW_new :: "string \<Rightarrow> IpcBaseW" where
  "IpcBaseW_new shmName =
     \<lparr>m_hMapFile_w = None, m_hMapFileName_w = None, m_hSignal_w = None, m_hAvail_w = None,
      m_hConnWatchDogSignal_w = None, m_name_w = shmName, m_pBuf_w = None\<rparr>"

definition getMappedNameW :: "string \<Rightarrow> string \<Rightarrow> string" where
  "getMappedNameW baseName name = baseName @ name"

text \<open>The region is one message: there are no semaphores in it on Windows.\<close>

definition sizeof_SharedFmiMemW :: nat where
  "sizeof_SharedFmiMemW = 10008"

definition openShmW :: "bool \<Rightarrow> string \<Rightarrow> bool \<Rightarrow> 'a win_scheme \<Rightarrow> bool \<times> WHANDLE \<times> 'a win_scheme" where
  "openShmW success name create s =
     (let (handle, s1) = (if create then CreateFileMapping sizeof_SharedFmiMemW name s
                          else OpenFileMapping name s)
      in (success \<and> handle \<noteq> None, handle, s1))"

text \<open>With \<open>truncate\<close> the region is zeroed, whoever else may be using it.\<close>

definition mapShmW ::
  "bool \<Rightarrow> 'b IpcBaseW_scheme \<Rightarrow> WHANDLE \<Rightarrow> bool \<Rightarrow> 'a win_scheme \<Rightarrow>
   bool \<times> 'b IpcBaseW_scheme \<times> 'a win_scheme" where
  "mapShmW success b handle trunc s =
     (let b = b\<lparr>m_pBuf_w := MapViewOfFile handle sizeof_SharedFmiMemW s\<rparr>
      in case m_pBuf_w b of
        None \<Rightarrow> (False, b, s)
      | Some p \<Rightarrow> (success, b,
          if trunc then s\<lparr>w_obj := (w_obj s)(p := overwrite SharedFmiMessage_zero (w_obj s p))\<rparr> else s))"

text \<open>
  To create a signal the code opens the one that may exist, closes that handle, and creates the
  event. As elsewhere \<open>if (!success)\<close> tests the pointer and never applies.
\<close>

definition createSignalW ::
  "bool \<Rightarrow> 'b IpcBaseW_scheme \<Rightarrow> string \<Rightarrow> bool \<Rightarrow> 'a win_scheme \<Rightarrow> bool \<times> WHANDLE \<times> 'a win_scheme"
where
  "createSignalW success b baseName create s =
     (let signalName = getMappedNameW baseName (m_name_w b);
          (signal, s1) = OpenEventA signalName s;
          (signal, s2) =
            (if create then CreateEventA signalName (if signal \<noteq> None then CloseHandle signal s1 else s1)
             else (signal, s1))
      in (success \<and> signal \<noteq> None, signal, s2))"

definition signalWaitW :: "('a win_scheme) wenv \<Rightarrow> WHANDLE \<Rightarrow> 32 word \<Rightarrow> (bool, 'a win_scheme) prog" where
  "signalWaitW env signal dwTimeout =
     WaitForSingleObject env signal (if dwTimeout = 0 then W_INFINITE else dwTimeout)"

definition signalPostW :: "WHANDLE \<Rightarrow> (unit, 'a win_scheme) prog" where
  "signalPostW signal s = Ret () (SetEvent signal s)"

definition signalCloseW :: "WHANDLE \<Rightarrow> 'a win_scheme \<Rightarrow> 'a win_scheme" where
  "signalCloseW = CloseHandle"

definition unmapW :: "nat \<Rightarrow> 'a win_scheme \<Rightarrow> 'a win_scheme" where
  "unmapW p s = s"

definition IpcBaseW_delete :: "'b IpcBaseW_scheme \<Rightarrow> 'a win_scheme \<Rightarrow> 'a win_scheme" where
  "IpcBaseW_delete b s =
     (let s = (if m_hSignal_w b \<noteq> None then signalCloseW (m_hSignal_w b) s else s);
          s = (if m_hAvail_w b \<noteq> None then signalCloseW (m_hAvail_w b) s else s);
          s = (if m_hConnWatchDogSignal_w b \<noteq> None then signalCloseW (m_hConnWatchDogSignal_w b) s else s);
          s = (case m_pBuf_w b of None \<Rightarrow> s | Some p \<Rightarrow> unmapW p s)
      in if m_hMapFile_w b \<noteq> None then CloseHandle (m_hMapFile_w b) s else s)"

section \<open>The server\<close>

record IpcServerW = IpcBaseW +
  m_connected_w :: bool
  m_connWatchDogThread_w :: bool

definition IpcServerW_new :: "string \<Rightarrow> IpcServerW" where
  "IpcServerW_new name =
     IpcBaseW.extend (IpcBaseW_new name) \<lparr>m_connected_w = False, m_connWatchDogThread_w = False\<rparr>"

definition IpcServerW_create :: "IpcServerW \<Rightarrow> 'a win_scheme \<Rightarrow> bool \<times> IpcServerW \<times> 'a win_scheme" where
  "IpcServerW_create srv s =
     (let nameOfMapping = getMappedNameW SHARED_MEM_BASE_NAME_W (m_name_w srv);
          (success, h, s) = openShmW True nameOfMapping True s;
          srv = srv\<lparr>m_hMapFile_w := h\<rparr>
      in if \<not> success then (False, srv, s) else
      let srv = srv\<lparr>m_hMapFileName_w := Some nameOfMapping\<rparr>;
          (success, srv, s) = mapShmW success srv (m_hMapFile_w srv) True s
      in if \<not> success then (False, srv, s) else
      let (success, h, s) = createSignalW success srv SIGNAL_NAME_W True s;
          srv = srv\<lparr>m_hSignal_w := h\<rparr>
      in if \<not> success then (success, srv, s) else
      let (success, h, s) = createSignalW success srv SIGNAL_AVALIABLE_NAME_W True s;
          srv = srv\<lparr>m_hAvail_w := h\<rparr>
      in if \<not> success then (success, srv, s) else
      let (success, h, s) = createSignalW success srv SIGNAL_CONN_WATCH_DOG_NAME_W True s;
          srv = srv\<lparr>m_hConnWatchDogSignal_w := h\<rparr>
      in if \<not> success then (success, srv, s) else
      (success, srv\<lparr>m_connected_w := True, m_connWatchDogThread_w := True\<rparr>, s))"

definition connWatchDogW_pass :: "IpcServerW \<Rightarrow> bool \<Rightarrow> (bool, 'a win_scheme) prog" where
  "connWatchDogW_pass srv connected =
     (if connected then andThen (signalPostW (m_hConnWatchDogSignal_w srv)) (\<lambda>_. ret True)
      else ret False)"

definition IpcServerW_send ::
  "('a win_scheme) wenv \<Rightarrow> IpcServerW \<Rightarrow> SharedFmiMessage \<Rightarrow> 32 word \<Rightarrow> (nat option, 'a win_scheme) prog"
where
  "IpcServerW_send env srv msg dwTimeout =
     andThen (need NullDeref (m_pBuf_w srv)) (\<lambda>p.
     andThen (store_view p msg) (\<lambda>_.
     andThen (signalPostW (m_hAvail_w srv)) (\<lambda>_.
     andThen (signalWaitW env (m_hSignal_w srv) dwTimeout) (\<lambda>ok.
     ret (if ok then Some p else None)))))"

definition IpcServerW_delete :: "IpcServerW \<Rightarrow> (unit, 'a win_scheme) prog" where
  "IpcServerW_delete srv s =
     (let srv = srv\<lparr>m_connected_w := False\<rparr>
      in if m_connWatchDogThread_w srv then Ret () (IpcBaseW_delete srv s) else Fault NullDeref)"

section \<open>The client\<close>

type_synonym IpcClientW = IpcBaseW

definition IpcClientW_new :: "string \<Rightarrow> IpcClientW" where
  "IpcClientW_new name = IpcBaseW_new name"

definition IpcClientW_delete :: "IpcClientW \<Rightarrow> (unit, 'a win_scheme) prog" where
  "IpcClientW_delete cl s = Ret () (IpcBaseW_delete cl s)"

definition getMessageW :: "('a win_scheme) wenv \<Rightarrow> IpcClientW \<Rightarrow> 32 word \<Rightarrow> (nat option, 'a win_scheme) prog" where
  "getMessageW env cl dwTimeout =
     andThen (signalWaitW env (m_hAvail_w cl) dwTimeout) (\<lambda>ok. ret (if ok then m_pBuf_w cl else None))"

definition sendReplyW :: "IpcClientW \<Rightarrow> SharedFmiMessage \<Rightarrow> (unit, 'a win_scheme) prog" where
  "sendReplyW cl reply =
     andThen (need NullDeref (m_pBuf_w cl)) (\<lambda>p.
     andThen (store_view p reply) (\<lambda>_. signalPostW (m_hSignal_w cl)))"

definition IpcClientW_connect :: "IpcClientW \<Rightarrow> 'a win_scheme \<Rightarrow> bool \<times> IpcClientW \<times> 'a win_scheme" where
  "IpcClientW_connect cl s =
     (let cl = cl\<lparr>m_hMapFile_w := None, m_hSignal_w := None, m_hAvail_w := None, m_pBuf_w := None\<rparr>;
          nameOfMapping = getMappedNameW SHARED_MEM_BASE_NAME_W (m_name_w cl);
          (success, h, s) = openShmW True nameOfMapping False s;
          cl = cl\<lparr>m_hMapFile_w := h, m_hMapFileName_w := Some nameOfMapping\<rparr>
      in if \<not> success then (success, cl, s) else
      let (success, cl, s) = mapShmW success cl (m_hMapFile_w cl) False s
      in if \<not> success then (success, cl, s) else
      let (success, h, s) = createSignalW success cl SIGNAL_NAME_W False s;
          cl = cl\<lparr>m_hSignal_w := h\<rparr>
      in if \<not> success then (success, cl, s) else
      let (success, h, s) = createSignalW success cl SIGNAL_AVALIABLE_NAME_W False s;
          cl = cl\<lparr>m_hAvail_w := h\<rparr>
      in if \<not> success then (success, cl, s) else
      let (success, h, s) = createSignalW success cl SIGNAL_CONN_WATCH_DOG_NAME_W False s;
          cl = cl\<lparr>m_hConnWatchDogSignal_w := h\<rparr>
      in (success, cl, s))"

definition waitForWatchDogEventW :: "('a win_scheme) wenv \<Rightarrow> IpcClientW \<Rightarrow> 32 word \<Rightarrow> (unit, 'a win_scheme) prog" where
  "waitForWatchDogEventW env cl dwTimeout =
     andThen (signalWaitW env (m_hConnWatchDogSignal_w cl) dwTimeout) (\<lambda>_. ret ())"

end
