(* ===== verification/WinRendezvous.thy ===== *)
theory WinRendezvous
  imports WinIpc
begin

text \<open>
  What creating, connecting and destroying do to the names and handles of a Windows session: when
  the two ends meet, that nothing is left when both are gone, and what a server finds that is
  created while its names are in use.
\<close>

section \<open>Creating and connecting\<close>

definition channel_names :: "string \<Rightarrow> string list" where
  "channel_names key = map (\<lambda>b. getMappedNameW b key)
     [SHARED_MEM_BASE_NAME_W, SIGNAL_NAME_W, SIGNAL_AVALIABLE_NAME_W, SIGNAL_CONN_WATCH_DOG_NAME_W]"

lemma mapped_names_neq [simp]:
  "getMappedNameW a key = getMappedNameW b key \<longleftrightarrow> a = b"
  by (simp add: getMappedNameW_def)

lemma base_names_neq [simp]:
  "SHARED_MEM_BASE_NAME_W \<noteq> SIGNAL_NAME_W" "SHARED_MEM_BASE_NAME_W \<noteq> SIGNAL_AVALIABLE_NAME_W"
  "SHARED_MEM_BASE_NAME_W \<noteq> SIGNAL_CONN_WATCH_DOG_NAME_W" "SIGNAL_NAME_W \<noteq> SIGNAL_AVALIABLE_NAME_W"
  "SIGNAL_NAME_W \<noteq> SIGNAL_CONN_WATCH_DOG_NAME_W" "SIGNAL_AVALIABLE_NAME_W \<noteq> SIGNAL_CONN_WATCH_DOG_NAME_W"
  "SIGNAL_NAME_W \<noteq> SHARED_MEM_BASE_NAME_W" "SIGNAL_AVALIABLE_NAME_W \<noteq> SHARED_MEM_BASE_NAME_W"
  "SIGNAL_CONN_WATCH_DOG_NAME_W \<noteq> SHARED_MEM_BASE_NAME_W" "SIGNAL_AVALIABLE_NAME_W \<noteq> SIGNAL_NAME_W"
  "SIGNAL_CONN_WATCH_DOG_NAME_W \<noteq> SIGNAL_NAME_W" "SIGNAL_CONN_WATCH_DOG_NAME_W \<noteq> SIGNAL_AVALIABLE_NAME_W"
  by (simp_all add: base_names_W)

definition names_free :: "string \<Rightarrow> 'a win_scheme \<Rightarrow> bool" where
  "names_free key s \<longleftrightarrow> (\<forall>n\<in>set (channel_names key). w_names s n = None)"

lemmas win_ops = openShmW_def OpenFileMapping_def CreateFileMapping_def OpenEventA_def CreateEventA_def
  open_named_def create_named_def new_handle_def mapShmW_def MapViewOfFile_def obj_of_def createSignalW_def

text \<open>Creating where the names are free: four objects, each with one handle.\<close>

definition created :: "IpcServerW \<Rightarrow> 'a win_scheme \<Rightarrow> IpcServerW" where
  "created srv s = srv\<lparr>m_hMapFile_w := Some (w_next_handle s),
     m_hMapFileName_w := Some (getMappedNameW SHARED_MEM_BASE_NAME_W (m_name_w srv)),
     m_pBuf_w := Some (w_next s), m_hSignal_w := Some (w_next_handle s + 1),
     m_hAvail_w := Some (w_next_handle s + 2), m_hConnWatchDogSignal_w := Some (w_next_handle s + 3),
     m_connected_w := True, m_connWatchDogThread_w := True\<rparr>"

definition channel_objects :: "string \<Rightarrow> 'a win_scheme \<Rightarrow> 'a win_scheme" where
  "channel_objects key s =
     (let n = w_next s; h = w_next_handle s in
      s\<lparr>w_names := (w_names s)(getMappedNameW SHARED_MEM_BASE_NAME_W key := Some n,
          getMappedNameW SIGNAL_NAME_W key := Some (n + 1),
          getMappedNameW SIGNAL_AVALIABLE_NAME_W key := Some (n + 2),
          getMappedNameW SIGNAL_CONN_WATCH_DOG_NAME_W key := Some (n + 3)),
        w_obj := (w_obj s)(n := Section sizeof_SharedFmiMemW SharedFmiMem_zero, n + 1 := Event False,
          n + 2 := Event False, n + 3 := Event False),
        w_refs := (w_refs s)(n := 1, n + 1 := 1, n + 2 := 1, n + 3 := 1),
        w_next := n + 4,
        w_handles := (w_handles s)(h := Some n, h + 1 := Some (n + 1), h + 2 := Some (n + 2), h + 3 := Some (n + 3)),
        w_next_handle := h + 4\<rparr>)"

lemma create_fresh:
  assumes "names_free (m_name_w srv) s" and "\<And>op. \<not> w_refuse s op"
  shows "IpcServerW_create srv s = (True, created srv s, channel_objects (m_name_w srv) s)"
  using assms
  by (simp add: IpcServerW_create_def created_def channel_objects_def names_free_def channel_names_def win_ops Let_def
      SharedFmiMem_zero_def eval_nat_numeral)


text \<open>Connecting to the objects \<open>p\<close>, \<open>g\<close>, \<open>a\<close> and \<open>w\<close> of a channel: one more handle on each.\<close>

definition connected :: "IpcClientW \<Rightarrow> nat \<Rightarrow> 'a win_scheme \<Rightarrow> IpcClientW" where
  "connected cl p s = cl\<lparr>m_hMapFile_w := Some (w_next_handle s),
     m_hMapFileName_w := Some (getMappedNameW SHARED_MEM_BASE_NAME_W (m_name_w cl)),
     m_pBuf_w := Some p, m_hSignal_w := Some (w_next_handle s + 1),
     m_hAvail_w := Some (w_next_handle s + 2), m_hConnWatchDogSignal_w := Some (w_next_handle s + 3)\<rparr>"

definition attached :: "nat \<Rightarrow> nat \<Rightarrow> nat \<Rightarrow> nat \<Rightarrow> 'a win_scheme \<Rightarrow> 'a win_scheme" where
  "attached p g a w s = snd (new_handle w (snd (new_handle a (snd (new_handle g (snd (new_handle p s)))))))"

definition channel_at :: "string \<Rightarrow> nat \<Rightarrow> nat \<Rightarrow> nat \<Rightarrow> nat \<Rightarrow> 'a win_scheme \<Rightarrow> bool" where
  "channel_at key p g a w s \<longleftrightarrow>
     map (w_names s) (channel_names key) = [Some p, Some g, Some a, Some w] \<and>
     (\<exists>n m. w_obj s p = Section n m \<and> sizeof_SharedFmiMemW \<le> n) \<and>
     \<not> is_section (w_obj s g) \<and> \<not> is_section (w_obj s a) \<and> \<not> is_section (w_obj s w)"

lemma connect_here:
  assumes "channel_at (m_name_w cl) p g a w s" and "\<And>op. \<not> w_refuse s op"
  shows "IpcClientW_connect cl s = (True, connected cl p s, attached p g a w s)"
  using assms
  by (auto simp: IpcClientW_connect_def connected_def attached_def channel_at_def channel_names_def win_ops Let_def)

lemma channel_objects_at:
  "channel_at key (w_next s) (w_next s + 1) (w_next s + 2) (w_next s + 3) (channel_objects key s)"
  by (auto simp: channel_at_def channel_names_def channel_objects_def Let_def)

section \<open>Closing\<close>

text \<open>
  Closing handles, in any order: they are gone, and a name goes with the last handle on its object.
\<close>

definition still_open :: "'a win_scheme \<Rightarrow> nat \<Rightarrow> bool" where
  "still_open s k \<longleftrightarrow> (\<exists>h. w_handles s h = Some k)"

lemma still_open_refs: "win_wf s \<Longrightarrow> still_open s k \<longleftrightarrow> 0 < w_refs s k"
  using handles_wf_finite [of s k] by (auto simp: win_wf_def handles_wf_def still_open_def card_gt_0_iff)

lemma CloseHandle_handles: "w_handles (CloseHandle (Some h) s) = (w_handles s)(h := None)"
  by (auto simp: CloseHandle_def obj_of_def split: option.split)

lemma CloseHandle_names:
  assumes "win_wf s"
  shows "w_names (CloseHandle (Some h) s) n =
    (case w_names s n of None \<Rightarrow> None
     | Some k \<Rightarrow> if still_open (CloseHandle (Some h) s) k then Some k else None)"
proof -
  note open_refs = still_open_refs [OF CloseHandle_wf [OF assms, of "Some h"]]
  have refs: "0 < w_refs s k" if "w_names s n = Some k" for k
    using that assms by (simp add: win_wf_def)
  show ?thesis
  proof (cases "w_handles s h")
    case None
    then have "CloseHandle (Some h) s = s" by (simp add: CloseHandle_def obj_of_def)
    with refs still_open_refs [OF assms] show ?thesis by (simp split: option.split)
  next
    case (Some k)
    with refs open_refs show ?thesis
      by (auto simp: CloseHandle_def obj_of_def split: option.split)
  qed
qed

lemma CloseHandle_obj [simp]: "w_obj (CloseHandle h s) = w_obj s"
  by (simp add: CloseHandle_def split: option.split)

lemma close_all:
  assumes "win_wf s" and s'_def: "s' = fold CloseHandle (map Some hs) s"
  shows "win_wf s'" and "w_handles s' = (\<lambda>h. if h \<in> set hs then None else w_handles s h)"
    and "w_names s' n = (case w_names s n of None \<Rightarrow> None
      | Some k \<Rightarrow> if still_open s' k then Some k else None)"
    and "w_obj s' = w_obj s"
proof -
  have "win_wf s' \<and> w_handles s' = (\<lambda>h. if h \<in> set hs then None else w_handles s h) \<and>
    (\<forall>n. w_names s' n = (case w_names s n of None \<Rightarrow> None
      | Some k \<Rightarrow> if still_open s' k then Some k else None)) \<and> w_obj s' = w_obj s"
    unfolding s'_def
  proof (induction hs rule: rev_induct)
    case Nil
    then show ?case
      using assms(1) still_open_refs [OF assms(1)] by (auto simp: win_wf_def split: option.split)
  next
    case (snoc h hs)
    define t where "t = fold CloseHandle (map Some hs) s"
    define u where "u = CloseHandle (Some h) t"
    have u: "fold CloseHandle (map Some (hs @ [h])) s = u" by (simp add: t_def u_def)
    from snoc have t: "win_wf t" "w_handles t = (\<lambda>h. if h \<in> set hs then None else w_handles s h)"
      and tn: "\<And>n. w_names t n = (case w_names s n of None \<Rightarrow> None | Some k \<Rightarrow> if still_open t k then Some k else None)"
      and to: "w_obj t = w_obj s" unfolding t_def by blast+
    have wf: "win_wf u" unfolding u_def by (rule CloseHandle_wf [OF t(1)])
    have hu: "w_handles u = (\<lambda>j. if j \<in> set (hs @ [h]) then None else w_handles s j)"
      by (auto simp: u_def CloseHandle_handles t(2))
    have sub: "still_open t k" if "still_open u k" for k
      using that by (auto simp: u_def still_open_def CloseHandle_handles split: if_splits)
    have "w_names u n = (case w_names s n of None \<Rightarrow> None | Some k \<Rightarrow> if still_open u k then Some k else None)" for n
      using CloseHandle_names [OF t(1), of h n] sub unfolding u_def [symmetric] tn
      by (cases "w_names s n") (auto split: if_splits)
    moreover have "w_obj u = w_obj s" by (simp add: u_def to)
    ultimately show ?case unfolding u using wf hu by blast
  qed
  then show "win_wf s'" and "w_handles s' = (\<lambda>h. if h \<in> set hs then None else w_handles s h)"
    and "w_names s' n = (case w_names s n of None \<Rightarrow> None
      | Some k \<Rightarrow> if still_open s' k then Some k else None)" and "w_obj s' = w_obj s" by blast+
qed

definition all_handles :: "'b IpcBaseW_scheme \<Rightarrow> WHANDLE list" where
  "all_handles b = [m_hSignal_w b, m_hAvail_w b, m_hConnWatchDogSignal_w b, m_hMapFile_w b]"

lemma CloseHandle_None [simp]: "CloseHandle None s = s"
  by (simp add: CloseHandle_def obj_of_def)

lemma delete_closes: "IpcBaseW_delete b s = fold CloseHandle (all_handles b) s"
  by (simp add: IpcBaseW_delete_def all_handles_def signalCloseW_def unmapW_def Let_def
      split: option.split)

lemma all_handles_connected [simp]: "all_handles (srv\<lparr>m_connected_w := b\<rparr>) = all_handles srv"
  by (simp add: all_handles_def)

text \<open>
  Whatever opens handles and then closes them all leaves the directory as it was, where the names
  it has added stand for objects of its own.
\<close>

lemma close_restores:
  assumes "win_wf s" and "win_wf t"
    and "\<And>h. h \<in> set hs \<or> w_handles t h = w_handles s h" and "\<And>h. h \<in> set hs \<Longrightarrow> w_handles s h = None"
    and "\<And>n k. w_names s n = Some k \<Longrightarrow> w_names t n = Some k"
    and "\<And>n k. w_names t n = Some k \<Longrightarrow> w_names s n = None \<Longrightarrow> w_next s \<le> k"
  shows "w_names (fold CloseHandle (map Some hs) t) = w_names s"
    and "w_handles (fold CloseHandle (map Some hs) t) = w_handles s"
proof -
  let ?u = "fold CloseHandle (map Some hs) t"
  show handles: "w_handles ?u = w_handles s"
    unfolding close_all(2) [OF assms(2) refl] using assms(3,4) by (auto simp: fun_eq_iff)
  then have open_iff: "still_open ?u k \<longleftrightarrow> still_open s k" for k by (simp add: still_open_def)
  have named: "still_open s k" if "w_names s n = Some k" for n k
    using that assms(1) still_open_refs [OF assms(1)] by (auto simp: win_wf_def)
  have fresh: "\<not> still_open s k" if "w_next s \<le> k" for k
    using that assms(1) by (fastforce simp: still_open_def win_wf_def handles_wf_def)
  show "w_names ?u = w_names s"
  proof
    fix n
    show "w_names ?u n = w_names s n"
      using close_all(3) [OF assms(2) refl, of hs n] open_iff named fresh assms(5,6) [of n]
      by (cases "w_names s n") (fastforce split: option.split if_splits)+
  qed
qed

section \<open>Creating what exists\<close>

text \<open>
  Opening the old event and closing that handle does not end it: someone else holds one, or it
  would have no name. What \<open>CreateEventA\<close> returns is the old event, set or not as it was.
\<close>

definition reattached :: "nat \<Rightarrow> 'a win_scheme \<Rightarrow> 'a win_scheme" where
  "reattached k s = s\<lparr>w_handles := (w_handles s)(w_next_handle s := None, Suc (w_next_handle s) := Some k),
     w_next_handle := w_next_handle s + 2, w_refs := (w_refs s)(k := Suc (w_refs s k))\<rparr>"


lemma reattached_simps [simp]:
  "w_names (reattached k s) = w_names s" "w_obj (reattached k s) = w_obj s"
  "w_refuse (reattached k s) = w_refuse s" "w_next_handle (reattached k s) = w_next_handle s + 2"
  "0 < w_refs s j \<Longrightarrow> 0 < w_refs (reattached k s) j"
  by (simp_all add: reattached_def)


text \<open>Well-formedness is kept by every operation of both ends.\<close>

lemma openShmW_wf: "win_wf s \<Longrightarrow> win_wf (snd (snd (openShmW ok n c s)))"
  using create_named_wf [of s] open_named_wf [of s]
  by (simp add: openShmW_def OpenFileMapping_def CreateFileMapping_def case_prod_beta)

lemma objs_wf [simp]: "win_wf (s\<lparr>w_obj := f\<rparr>) = win_wf s"
  by (simp add: win_wf_def handles_wf_def)

lemma mapShmW_wf: "win_wf s \<Longrightarrow> win_wf (snd (snd (mapShmW ok b h c s)))"
  by (simp add: mapShmW_def Let_def split: option.split)

lemma createSignalW_wf: "win_wf s \<Longrightarrow> win_wf (snd (snd (createSignalW ok b n c s)))"
  using open_named_wf [of s]
  by (auto simp: createSignalW_def OpenEventA_def CreateEventA_def case_prod_beta Let_def
      intro!: create_named_wf CloseHandle_wf)

lemmas win_ops_wf = openShmW_wf mapShmW_wf createSignalW_wf

lemma win_wfD:
  "openShmW ok n c s = (ok', h, s') \<Longrightarrow> win_wf s \<Longrightarrow> win_wf s'"
  "mapShmW ok b h c s = (ok', b', s') \<Longrightarrow> win_wf s \<Longrightarrow> win_wf s'"
  "createSignalW ok b n c s = (ok', h, s') \<Longrightarrow> win_wf s \<Longrightarrow> win_wf s'"
  by (metis win_ops_wf snd_conv)+

lemma win_create_wf: "win_wf s \<Longrightarrow> win_wf (snd (snd (IpcServerW_create srv s)))"
  by (auto simp: IpcServerW_create_def Let_def dest!: win_wfD split: prod.splits)

lemma win_connect_wf: "win_wf s \<Longrightarrow> win_wf (snd (snd (IpcClientW_connect cl s)))"
  by (auto simp: IpcClientW_connect_def Let_def dest!: win_wfD split: prod.splits)

lemma win_delete_wf: "win_wf s \<Longrightarrow> win_wf (IpcBaseW_delete b s)"
  by (simp add: delete_closes all_handles_def CloseHandle_wf)

section \<open>Properties\<close>

lemma channel_objects_wf:
  fixes srv :: IpcServerW
  assumes "win_wf s" and "names_free (m_name_w srv) s" and "\<And>op. \<not> w_refuse s op"
  shows "win_wf (channel_objects (m_name_w srv) s)"
proof -
  have "win_wf (snd (snd (IpcServerW_create srv s)))"
    by (rule win_create_wf [OF assms(1)])
  then show ?thesis by (simp add: create_fresh [OF assms(2,3)])
qed

lemma attached_wf:
  "win_wf s \<Longrightarrow> {p, g, a, w} \<subseteq> {..<w_next s} \<Longrightarrow> win_wf (attached p g a w s)"
  unfolding attached_def by (intro new_handle_wf) (auto simp: new_handle_def)

lemma created_simps [simp]:
  "m_pBuf_w (created srv s) = Some (w_next s)"
  "m_hMapFile_w (created srv s) = Some (w_next_handle s)"
  "m_hSignal_w (created srv s) = Some (w_next_handle s + 1)"
  "m_hAvail_w (created srv s) = Some (w_next_handle s + 2)"
  "m_hConnWatchDogSignal_w (created srv s) = Some (w_next_handle s + 3)"
  "m_connWatchDogThread_w (created srv s)"
  by (simp_all add: created_def)

lemma connected_simps [simp]:
  "m_pBuf_w (connected cl p s) = Some p"
  "m_hMapFile_w (connected cl p s) = Some (w_next_handle s)"
  "m_hSignal_w (connected cl p s) = Some (w_next_handle s + 1)"
  "m_hAvail_w (connected cl p s) = Some (w_next_handle s + 2)"
  "m_hConnWatchDogSignal_w (connected cl p s) = Some (w_next_handle s + 3)"
  by (simp_all add: connected_def)

lemma attached_simps [simp]:
  "w_names (attached p g a w s) = w_names s" "w_obj (attached p g a w s) = w_obj s"
  by (simp_all add: attached_def new_handle_def)

lemma channel_objects_simps [simp]:
  "w_next (channel_objects key s) = w_next s + 4"
  "w_next_handle (channel_objects key s) = w_next_handle s + 4"
  "w_refuse (channel_objects key s) = w_refuse s"
  by (simp_all add: channel_objects_def Let_def)

lemma attached_handles:
  "w_handles (attached (w_next s) (w_next s + 1) (w_next s + 2) (w_next s + 3) (channel_objects key s)) =
     (w_handles s)(w_next_handle s := Some (w_next s), w_next_handle s + 1 := Some (w_next s + 1),
       w_next_handle s + 2 := Some (w_next s + 2), w_next_handle s + 3 := Some (w_next s + 3),
       w_next_handle s + 4 := Some (w_next s), w_next_handle s + 5 := Some (w_next s + 1),
       w_next_handle s + 6 := Some (w_next s + 2), w_next_handle s + 7 := Some (w_next s + 3))"
  by (simp add: attached_def new_handle_def channel_objects_def Let_def eval_nat_numeral)

lemma create_connect_fresh:
  assumes "names_free (m_name_w srv) s" and "\<And>op. \<not> w_refuse s op" and "m_name_w cl = m_name_w srv"
    and "IpcServerW_create srv s = (ok, srv', s1)" and "IpcClientW_connect cl s1 = (ok', cl', s2)"
  defines "n \<equiv> w_next s" and "t \<equiv> channel_objects (m_name_w srv) s"
  shows "ok" and "ok'" and "srv' = created srv s" and "cl' = connected cl n t"
    and "s2 = attached n (n + 1) (n + 2) (n + 3) t"
proof -
  have c: "ok" "srv' = created srv s" "s1 = t"
    using assms(4) create_fresh [OF assms(1,2)] by (auto simp: t_def)
  have at: "channel_at (m_name_w cl) n (n + 1) (n + 2) (n + 3) t"
    using channel_objects_at [of "m_name_w srv" s] assms(3) by (simp add: n_def t_def)
  have "\<not> w_refuse t op" for op
    using assms(2) by (simp add: t_def channel_objects_def Let_def)
  from connect_here [OF at this] assms(5) c
  show "ok" "ok'" "srv' = created srv s" "cl' = connected cl n t"
    "s2 = attached n (n + 1) (n + 2) (n + 3) t" by auto
qed

lemma refuse_init [simp]: "\<not> w_refuse win_init op"
  by (simp add: win_init_def)

lemma names_free_init: "names_free key win_init"
  by (simp add: names_free_def win_init_def channel_names_def)

lemma new_names_w: "m_name_w (IpcClientW_new key) = m_name_w (IpcServerW_new key)"
  by (simp add: IpcServerW_new_def IpcClientW_new_def IpcBaseW_new_def IpcBaseW.defs)

text \<open>
  On Windows too a server that was created and a client that connects under its key meet: both
  succeed when nothing is refused and the names are free, and hold the same view and the same three
  events, which are not set, over zeroed memory.
\<close>

theorem win_rendezvous:
  assumes "names_free (m_name_w srv) s" and "\<And>op. \<not> w_refuse s op" and "m_name_w cl = m_name_w srv"
    and "IpcServerW_create srv s = (ok, srv', s1)" and "IpcClientW_connect cl s1 = (ok', cl', s2)"
  shows "ok \<and> ok' \<and> (\<exists>p g a w. distinct [p, g, a, w] \<and>
    m_pBuf_w srv' = Some p \<and> m_pBuf_w cl' = Some p \<and>
    w_obj s2 p = Section sizeof_SharedFmiMemW SharedFmiMem_zero \<and>
    obj_of (m_hSignal_w srv') s2 = Some g \<and> obj_of (m_hSignal_w cl') s2 = Some g \<and>
    obj_of (m_hAvail_w srv') s2 = Some a \<and> obj_of (m_hAvail_w cl') s2 = Some a \<and>
    obj_of (m_hConnWatchDogSignal_w srv') s2 = Some w \<and> obj_of (m_hConnWatchDogSignal_w cl') s2 = Some w \<and>
    map (w_obj s2) [g, a, w] = [Event False, Event False, Event False])"
proof -
  let ?n = "w_next s"
  note c = create_connect_fresh [OF assms]
  have o: "w_obj s2 ?n = Section sizeof_SharedFmiMemW SharedFmiMem_zero" "w_obj s2 (?n + 1) = Event False"
      "w_obj s2 (?n + 2) = Event False" "w_obj s2 (?n + 3) = Event False"
    unfolding c by (simp_all add: channel_objects_def Let_def)
  have h: "obj_of (m_hSignal_w srv') s2 = Some (?n + 1)" "obj_of (m_hAvail_w srv') s2 = Some (?n + 2)"
      "obj_of (m_hConnWatchDogSignal_w srv') s2 = Some (?n + 3)" "obj_of (m_hSignal_w cl') s2 = Some (?n + 1)"
      "obj_of (m_hAvail_w cl') s2 = Some (?n + 2)" "obj_of (m_hConnWatchDogSignal_w cl') s2 = Some (?n + 3)"
    unfolding c obj_of_def attached_handles by simp_all
  have "m_pBuf_w srv' = Some ?n" "m_pBuf_w cl' = Some ?n" unfolding c by simp_all
  moreover have "distinct [?n, ?n + 1, ?n + 2, ?n + 3]" by simp
  moreover have "map (w_obj s2) [?n + 1, ?n + 2, ?n + 3] = [Event False, Event False, Event False]"
    using o by simp
  ultimately show ?thesis using c(1,2) o(1) h by - (intro conjI exI, assumption+)
qed

theorem win_rendezvous_witness:
  "\<exists>srv s1 cl s2. IpcServerW_create (IpcServerW_new ''k'') win_init = (True, srv, s1) \<and>
     IpcClientW_connect (IpcClientW_new ''k'') s1 = (True, cl, s2) \<and>
     m_pBuf_w srv = m_pBuf_w cl \<and> obj_of (m_hAvail_w srv) s2 = obj_of (m_hAvail_w cl) s2"
proof -
  obtain ok srv s1 where c: "IpcServerW_create (IpcServerW_new ''k'') win_init = (ok, srv, s1)" by (metis prod_cases3)
  obtain ok' cl s2 where d: "IpcClientW_connect (IpcClientW_new ''k'') s1 = (ok', cl, s2)" by (metis prod_cases3)
  from win_rendezvous [OF names_free_init refuse_init new_names_w c d] c d show ?thesis by auto
qed

text \<open>
  C28: On Windows, where the channel's names are free and the system refuses nothing, destroying
  both ends of a channel that was created and connected leaves the system's names and handles as they
  were, in whichever order the two are destroyed: every name is free again and no handle is left open.
\<close>

theorem win_names_released:
  assumes "win_wf s" and "names_free (m_name_w srv) s" and "\<And>op. \<not> w_refuse s op" and "m_name_w cl = m_name_w srv"
    and "IpcServerW_create srv s = (ok, srv', s1)" and "IpcClientW_connect cl s1 = (ok', cl', s2)"
  shows "\<exists>t u. andThen (IpcClientW_delete cl') (\<lambda>_. IpcServerW_delete srv') s2 = Ret () t \<and>
    andThen (IpcServerW_delete srv') (\<lambda>_. IpcClientW_delete cl') s2 = Ret () u \<and>
    w_names t = w_names s \<and> w_handles t = w_handles s \<and> w_names u = w_names s \<and> w_handles u = w_handles s"
proof -
  let ?n = "w_next s" and ?t = "channel_objects (m_name_w srv) s" and ?h = "w_next_handle s"
  note c = create_connect_fresh(3-5) [OF assms(2-6)]
  have wf: "win_wf s2"
    unfolding c(3) by (rule attached_wf [OF channel_objects_wf [OF assms(1-3)]]) (simp add: channel_objects_def Let_def)
  have hs: "all_handles srv' = map Some [?h + 1, ?h + 2, ?h + 3, ?h]"
      "all_handles cl' = map Some [?h + 5, ?h + 6, ?h + 7, ?h + 4]"
    unfolding c by (simp_all add: all_handles_def)
  have handles: "w_handles s2 = (w_handles s)(?h := Some ?n, ?h + 1 := Some (?n + 1), ?h + 2 := Some (?n + 2),
      ?h + 3 := Some (?n + 3), ?h + 4 := Some ?n, ?h + 5 := Some (?n + 1), ?h + 6 := Some (?n + 2), ?h + 7 := Some (?n + 3))"
    unfolding c by (rule attached_handles)
  have names: "w_names s2 = w_names ?t"
    unfolding c by simp
  have none: "w_handles s h = None" if "?h \<le> h" for h
    using assms(1) that by (cases "w_handles s h") (fastforce simp: win_wf_def handles_wf_def)+
  have fresh: "w_names s n = Some k \<Longrightarrow> w_names s2 n = Some k" "w_names s2 n = Some k \<Longrightarrow> w_names s n = None \<Longrightarrow> ?n \<le> k" for n k
    using assms(2) unfolding names
    by (auto simp: names_free_def channel_names_def channel_objects_def Let_def split: if_splits)
  let ?hs = "[?h + 1, ?h + 2, ?h + 3, ?h]" and ?hc = "[?h + 5, ?h + 6, ?h + 7, ?h + 4]"
  have r: "w_names (fold CloseHandle (map Some hs) s2) = w_names s"
      "w_handles (fold CloseHandle (map Some hs) s2) = w_handles s" if "set hs = {?h..<?h + 8}" for hs
    using close_restores [OF assms(1) wf, of hs] that none fresh handles by auto
  have e: "set (?hs @ ?hc) = {?h..<?h + 8}" "set (?hc @ ?hs) = {?h..<?h + 8}" by auto
  have thread: "m_connWatchDogThread_w srv'" unfolding c by simp
  show ?thesis
    using r [OF e(1)] r [OF e(2)] thread
    by (simp add: IpcClientW_delete_def IpcServerW_delete_def delete_closes hs)
qed

theorem win_names_released_witness:
  "\<exists>srv s1 cl s2 t. IpcServerW_create (IpcServerW_new ''k'') win_init = (True, srv, s1) \<and>
     IpcClientW_connect (IpcClientW_new ''k'') s1 = (True, cl, s2) \<and>
     andThen (IpcClientW_delete cl) (\<lambda>_. IpcServerW_delete srv) s2 = Ret () t \<and> w_names t = (\<lambda>_. None)"
proof -
  obtain ok srv s1 where c: "IpcServerW_create (IpcServerW_new ''k'') win_init = (ok, srv, s1)" by (metis prod_cases3)
  obtain ok' cl s2 where d: "IpcClientW_connect (IpcClientW_new ''k'') s1 = (ok', cl, s2)" by (metis prod_cases3)
  note h = names_free_init refuse_init new_names_w c d
  from win_names_released [OF win_init_wf h] create_connect_fresh(1,2) [OF h] c d show ?thesis
    by (auto simp: win_init_def)
qed



text \<open>
  Events and file mappings share the names of a session: while a channel with some key is in use, no
  server with that key prefixed by "sig" can be created, since its region would have the name of
  an event. On POSIX systems the two kinds have names of their own.
\<close>

theorem win_key_collision:
  assumes "channel_at key p g a w s" and "m_name_w srv = ''sig'' @ key"
  shows "\<not> fst (IpcServerW_create srv s)"
proof -
  have n: "w_names s (SHARED_MEM_BASE_NAME_W @ ''sig'' @ key) = Some g" "\<not> is_section (w_obj s g)"
    using assms(1) by (auto simp: channel_at_def channel_names_def getMappedNameW_def base_names_W)
  then show ?thesis
    using assms(2)
    by (simp add: IpcServerW_create_def openShmW_def CreateFileMapping_def create_named_def getMappedNameW_def
        SHARED_MEM_BASE_NAME_W_def Let_def)
qed

end
