(* ===== verification/WinChannel.thy ===== *)
theory WinChannel
  imports ChannelRefinement WinRendezvous
begin

text \<open>
  The two ends of a channel running concurrently on Windows: the steps of \<open>Channel\<close> over a view of
  a file mapping and two auto-reset events in place of semaphores, and their relation to the POSIX
  channel. An event cannot count, so the two differ as soon as a signal is posted twice.
  Then the same exchange as one call, with the contract \<open>request_reply\<close>.
\<close>

section \<open>The machine\<close>

record 'p wworld = win +
  w_peer :: 'p

record 'p wchan = "'p wworld" +
  w_srv_pc :: srv_pc
  w_cl_pc :: cl_pc
  w_todo :: "SharedFmiMessage list"
  w_sent :: "SharedFmiMessage list"
  w_results :: "SharedFmiMessage option list"

text \<open>\<open>p\<close> is the view, \<open>a\<close> and \<open>g\<close> are the events behind the handles \<open>m_hAvail\<close> and \<open>m_hSignal\<close>.\<close>

inductive wchan_step ::
  "nat \<Rightarrow> nat \<Rightarrow> nat \<Rightarrow> ('p \<Rightarrow> SharedFmiMessage \<Rightarrow> SharedFmiMessage \<times> 'p) \<Rightarrow> bool \<Rightarrow>
   'p wchan \<Rightarrow> 'p wchan \<Rightarrow> bool"
  for p a g :: nat and f :: "'p \<Rightarrow> SharedFmiMessage \<Rightarrow> SharedFmiMessage \<times> 'p" and timed :: bool
where
  w_srv_write: "w_srv_pc s = SIdle \<Longrightarrow> w_todo s = m # ms \<Longrightarrow> store_view p m s = Ret () t \<Longrightarrow>
     wchan_step p a g f timed s (t\<lparr>w_srv_pc := SWritten, w_todo := ms, w_sent := w_sent s @ [m]\<rparr>)"
| w_srv_post: "w_srv_pc s = SWritten \<Longrightarrow>
     wchan_step p a g f timed s ((put_event a True s)\<lparr>w_srv_pc := SWaiting\<rparr>)"
| w_srv_take: "w_srv_pc s = SWaiting \<Longrightarrow> is_set (w_obj s g) \<Longrightarrow>
     wchan_step p a g f timed s ((put_event g False s)\<lparr>w_srv_pc := SReturned\<rparr>)"
| w_srv_timeout: "w_srv_pc s = SWaiting \<Longrightarrow> timed \<Longrightarrow> \<not> is_set (w_obj s g) \<Longrightarrow>
     wchan_step p a g f timed s (s\<lparr>w_srv_pc := SIdle, w_results := w_results s @ [None]\<rparr>)"
| w_srv_read: "w_srv_pc s = SReturned \<Longrightarrow> load_view p s = Ret m t \<Longrightarrow>
     wchan_step p a g f timed s (t\<lparr>w_srv_pc := SIdle, w_results := w_results s @ [Some m]\<rparr>)"
| w_cl_take: "w_cl_pc s = CIdle \<Longrightarrow> is_set (w_obj s a) \<Longrightarrow>
     wchan_step p a g f timed s ((put_event a False s)\<lparr>w_cl_pc := CGot\<rparr>)"
| w_cl_compute: "w_cl_pc s = CGot \<Longrightarrow> load_view p s = Ret m t \<Longrightarrow> f (w_peer s) m = (r, q) \<Longrightarrow>
     wchan_step p a g f timed s (t\<lparr>w_cl_pc := CComputed r, w_peer := q\<rparr>)"
| w_cl_write: "w_cl_pc s = CComputed r \<Longrightarrow> store_view p r s = Ret () t \<Longrightarrow>
     wchan_step p a g f timed s (t\<lparr>w_cl_pc := CWritten\<rparr>)"
| w_cl_post: "w_cl_pc s = CWritten \<Longrightarrow>
     wchan_step p a g f timed s ((put_event g True s)\<lparr>w_cl_pc := CIdle\<rparr>)"

text \<open>The start, as after \<open>create\<close> and \<open>connect\<close>: a file mapping and two events that are not set.\<close>

definition wchan_objects :: "nat \<Rightarrow> nat \<Rightarrow> nat \<Rightarrow> 'a win_scheme \<Rightarrow> bool" where
  "wchan_objects p a g s \<longleftrightarrow>
     a \<noteq> g \<and> is_section (w_obj s p) \<and> \<not> is_section (w_obj s a) \<and> \<not> is_section (w_obj s g)"

definition wchan_init :: "nat \<Rightarrow> nat \<Rightarrow> nat \<Rightarrow> 'p \<Rightarrow> SharedFmiMessage list \<Rightarrow> 'p wchan \<Rightarrow> bool" where
  "wchan_init p a g q ms s \<longleftrightarrow>
     wchan_objects p a g s \<and> \<not> is_set (w_obj s a) \<and> \<not> is_set (w_obj s g) \<and>
     w_srv_pc s = SIdle \<and> w_cl_pc s = CIdle \<and> w_todo s = ms \<and> w_sent s = [] \<and> w_results s = [] \<and> w_peer s = q"

section \<open>The POSIX channel it stands for\<close>

definition as_posix :: "'p wchan \<Rightarrow> 'p chan" where
  "as_posix s =
     \<lparr>shm_names = (\<lambda>_. None), shm_objs = (\<lambda>i. \<lparr>shm_size = 10072, shm_mem = content (w_obj s i)\<rparr>),
      next_obj = 0, fds = (\<lambda>_. None), next_fd = 3, sem_names = (\<lambda>_. None),
      sem_val = (\<lambda>k. if is_set (w_obj s k) then 1 else 0), next_sem = 0, clock = (0, 0), refuse = (\<lambda>_. False), thread_lead = 1,
      peer = w_peer s, srv_pc = w_srv_pc s, cl_pc = w_cl_pc s, todo = w_todo s, sent = w_sent s,
      results = w_results s\<rparr>"

lemma as_posix_simps [simp]:
  "srv_pc (as_posix s) = w_srv_pc s" "cl_pc (as_posix s) = w_cl_pc s" "peer (as_posix s) = w_peer s"
  "todo (as_posix s) = w_todo s" "sent (as_posix s) = w_sent s" "results (as_posix s) = w_results s"
  "sem_val (as_posix s) k = (if is_set (w_obj s k) then 1 else 0)"
  "shm_objs (as_posix s) i = \<lparr>shm_size = 10072, shm_mem = content (w_obj s i)\<rparr>"
  by (simp_all add: as_posix_def)

lemma wchan_init_posix: "wchan_init p a g q ms s \<Longrightarrow> chan_init p a g q ms (as_posix s)"
  by (simp add: wchan_init_def wchan_objects_def chan_init_def)

lemma overwrite_simps [simp]:
  "is_set (overwrite m x) = is_set x" "is_section (overwrite m x) = is_section x"
  "is_section x \<Longrightarrow> content (overwrite m x) = \<lparr>message = m\<rparr>"
  by (cases x; simp)+

lemma not_section: "\<not> is_section x \<longleftrightarrow> (\<exists>b. x = Event b)"
  by (cases x) auto

text \<open>What each access does, seen through the mapping.\<close>

lemma as_posix_store:
  assumes "is_section (w_obj s p)"
  shows "as_posix (s\<lparr>w_obj := (w_obj s)(p := overwrite m (w_obj s p))\<rparr>) =
    (as_posix s)\<lparr>shm_objs := (shm_objs (as_posix s))(p := (shm_objs (as_posix s) p)\<lparr>shm_mem := \<lparr>message = m\<rparr>\<rparr>)\<rparr>"
  using assms by (auto simp: as_posix_def fun_eq_iff)

lemma as_posix_event:
  assumes "\<not> is_section (w_obj s k)"
  shows "as_posix (s\<lparr>w_obj := (w_obj s)(k := Event b)\<rparr>) =
    (as_posix s)\<lparr>sem_val := (sem_val (as_posix s))(k := if b then 1 else 0)\<rparr>"
  using assms by (auto simp: as_posix_def fun_eq_iff not_section)

lemma as_posix_updates [simp]:
  "as_posix (s\<lparr>w_srv_pc := x\<rparr>) = (as_posix s)\<lparr>srv_pc := x\<rparr>"
  "as_posix (s\<lparr>w_cl_pc := y\<rparr>) = (as_posix s)\<lparr>cl_pc := y\<rparr>"
  "as_posix (s\<lparr>w_peer := q\<rparr>) = (as_posix s)\<lparr>peer := q\<rparr>"
  "as_posix (s\<lparr>w_todo := ms\<rparr>) = (as_posix s)\<lparr>todo := ms\<rparr>"
  "as_posix (s\<lparr>w_sent := ms\<rparr>) = (as_posix s)\<lparr>sent := ms\<rparr>"
  "as_posix (s\<lparr>w_results := rs\<rparr>) = (as_posix s)\<lparr>results := rs\<rparr>"
  by (simp_all add: as_posix_def)

section \<open>The two channels are bisimilar without timeouts\<close>

text \<open>
  The invariant of the POSIX channel says that a signal is only posted when it is not: then an
  event does what a semaphore does.
\<close>

definition wchan_good ::
  "nat \<Rightarrow> nat \<Rightarrow> nat \<Rightarrow> ('p \<Rightarrow> SharedFmiMessage \<Rightarrow> SharedFmiMessage \<times> 'p) \<Rightarrow> 'p \<Rightarrow>
   SharedFmiMessage list \<Rightarrow> 'p wchan \<Rightarrow> bool" where
  "wchan_good p a g f q ms s \<longleftrightarrow>
     wchan_objects p a g s \<and> (\<exists>n. chan_inv p a g f q ms n (as_posix s))"

lemma chan_inv_posts:
  assumes "chan_inv p a g f q ms n s"
  shows "srv_pc s = SWritten \<Longrightarrow> sem_val s a = 0" and "cl_pc s = CWritten \<Longrightarrow> sem_val s g = 0"
  using assms by (auto simp: chan_inv_def idle_inv_def busy_inv_def Let_def)

lemma wchan_good_posts:
  assumes "wchan_good p a g f q ms s"
  shows "w_srv_pc s = SWritten \<Longrightarrow> \<not> is_set (w_obj s a)" and "w_cl_pc s = CWritten \<Longrightarrow> \<not> is_set (w_obj s g)"
  using assms chan_inv_posts [of p a g f q ms _ "as_posix s"] by (auto simp: wchan_good_def split: if_splits)

lemma wchan_objects_step:
  "wchan_objects p a g s \<Longrightarrow> wchan_step p a g f timed s t \<Longrightarrow> wchan_objects p a g t"
  by (erule wchan_step.cases) (auto simp: wchan_objects_def store_view_def load_view_def put_event_def split: if_splits)

lemmas wchan_acts = store_view_def load_view_def put_event_def as_posix_store as_posix_event

lemma wchan_step_posix:
  assumes "wchan_good p a g f q ms s" and "wchan_step p a g f False s t"
  shows "chan_step p a g f False (as_posix s) (as_posix t)"
proof -
  have o: "is_section (w_obj s p)" "\<not> is_section (w_obj s a)" "\<not> is_section (w_obj s g)"
    using assms(1) by (auto simp: wchan_good_def wchan_objects_def)
  note posts = wchan_good_posts [OF assms(1)]
  from assms(2) show ?thesis
  proof cases
    case (w_srv_write m ms u)
    then show ?thesis
      using o chan_step.srv_write [of "as_posix s" m ms p] by (auto simp: wchan_acts store_msg_def)
  next
    case w_srv_post
    then show ?thesis
      using o posts(1) chan_step.srv_post [of "as_posix s" a] by (simp add: wchan_acts signalPost_Sig SEM_VALUE_MAX_def)
  next
    case w_srv_take
    then show ?thesis
      using o chan_step.srv_take [of "as_posix s" g] by (simp add: wchan_acts sem_take_def)
  next
    case (w_srv_read m u)
    then show ?thesis
      using o chan_step.srv_read [of "as_posix s" p m] by (auto simp: wchan_acts load_msg_def)
  next
    case w_cl_take
    then show ?thesis
      using o chan_step.cl_take [of "as_posix s" a] by (simp add: wchan_acts sem_take_def)
  next
    case (w_cl_compute m u r q')
    then show ?thesis
      using o chan_step.cl_compute [of "as_posix s" p m _ f] by (auto simp: wchan_acts load_msg_def)
  next
    case (w_cl_write r u)
    then show ?thesis
      using o chan_step.cl_write [of "as_posix s" r p] by (auto simp: wchan_acts store_msg_def)
  next
    case w_cl_post
    then show ?thesis
      using o posts(2) chan_step.cl_post [of "as_posix s" g] by (simp add: wchan_acts signalPost_Sig SEM_VALUE_MAX_def)
  qed simp
qed

lemma posix_step_wchan:
  assumes "wchan_good p a g f q ms s" and "chan_step p a g f False (as_posix s) x"
  shows "\<exists>t. wchan_step p a g f False s t \<and> as_posix t = x"
proof -
  have o: "is_section (w_obj s p)" "\<not> is_section (w_obj s a)" "\<not> is_section (w_obj s g)"
    using assms(1) by (auto simp: wchan_good_def wchan_objects_def)
  note posts = wchan_good_posts [OF assms(1)]
  from assms(2) show ?thesis
  proof cases
    case (srv_write m ms u)
    then show ?thesis
      using o by - (rule exI, rule conjI, rule wchan_step.w_srv_write, auto simp: wchan_acts store_msg_def)
  next
    case (srv_post u)
    then show ?thesis
      using o posts(1) by - (rule exI, rule conjI, rule wchan_step.w_srv_post, auto simp: wchan_acts signalPost_Sig SEM_VALUE_MAX_def)
  next
    case srv_take
    then show ?thesis
      using o by - (rule exI, rule conjI, rule wchan_step.w_srv_take, auto simp: wchan_acts sem_take_def split: if_splits)
  next
    case (srv_read m u)
    then show ?thesis
      using o by - (rule exI, rule conjI, rule wchan_step.w_srv_read, auto simp: wchan_acts load_msg_def)
  next
    case cl_take
    then show ?thesis
      using o by - (rule exI, rule conjI, rule wchan_step.w_cl_take, auto simp: wchan_acts sem_take_def split: if_splits)
  next
    case (cl_compute m u r q')
    then show ?thesis
      using o by - (rule exI, rule conjI, rule wchan_step.w_cl_compute, auto simp: wchan_acts load_msg_def)
  next
    case (cl_write r u)
    then show ?thesis
      using o by - (rule exI, rule conjI, rule wchan_step.w_cl_write, auto simp: wchan_acts store_msg_def)
  next
    case (cl_post u)
    then show ?thesis
      using o posts(2) by - (rule exI, rule conjI, rule wchan_step.w_cl_post, auto simp: wchan_acts signalPost_Sig SEM_VALUE_MAX_def)
  qed simp
qed

interpretation win_posix: refinement_mapping "wchan_step p a g f False" "wchan_good p a g f q ms"
  as_posix "chan_step p a g f False"
  for p a g :: nat and f :: "'p \<Rightarrow> SharedFmiMessage \<Rightarrow> SharedFmiMessage \<times> 'p" and q ms
proof unfold_locales
  fix s t :: "'p wchan"
  assume good: "wchan_good p a g f q ms s" and st: "wchan_step p a g f False s t"
  note c = wchan_step_posix [OF good st]
  from good obtain n where "chan_inv p a g f q ms n (as_posix s)" by (auto simp: wchan_good_def)
  from chan_inv_step [OF this c] wchan_objects_step [OF _ st] good
  show "wchan_good p a g f q ms t" by (auto simp: wchan_good_def)
  from c show "as_posix t = as_posix s \<or> chan_step p a g f False (as_posix s) (as_posix t)" ..
qed

definition wchan_reach ::
  "nat \<Rightarrow> nat \<Rightarrow> nat \<Rightarrow> ('p \<Rightarrow> SharedFmiMessage \<Rightarrow> SharedFmiMessage \<times> 'p) \<Rightarrow> bool \<Rightarrow>
   'p \<Rightarrow> SharedFmiMessage list \<Rightarrow> 'p wchan \<Rightarrow> bool" where
  "wchan_reach p a g f timed q ms s \<longleftrightarrow>
     (\<exists>s0. wchan_init p a g q ms s0 \<and> (wchan_step p a g f timed)\<^sup>*\<^sup>* s0 s)"

lemma wchan_init_good: "wchan_init p a g q ms s \<Longrightarrow> wchan_good p a g f q ms s"
  using chan_init_inv [OF wchan_init_posix, of p a g q ms s f] by (auto simp: wchan_good_def wchan_init_def)

lemma wchan_reach_posix:
  assumes "wchan_reach p a g f False q ms s"
  shows "wchan_good p a g f q ms s" and "chan_reach p a g f False q ms (as_posix s)"
proof -
  from assms obtain s0 where s0: "wchan_init p a g q ms s0" and run: "(wchan_step p a g f False)\<^sup>*\<^sup>* s0 s"
    by (auto simp: wchan_reach_def)
  from win_posix.run_abs [OF run wchan_init_good [OF s0]] wchan_init_posix [OF s0]
  show "wchan_good p a g f q ms s" and "chan_reach p a g f False q ms (as_posix s)"
    by (auto simp: chan_reach_def)
qed

section \<open>One exchange as one call\<close>

text \<open>The client's turn and the environment that runs it, as \<open>client_turn\<close> and \<open>turn_env\<close>.\<close>

definition clientW_turn ::
  "(SharedFmiMessage \<Rightarrow> (SharedFmiMessage, 'p) prog) \<Rightarrow> IpcClientW \<Rightarrow> (unit, ('p, 'z) wworld_scheme) prog"
where
  "clientW_turn h cl =
     andThen (getMessageW (\<lambda>_ s. s) cl 0) (\<lambda>r. case r of None \<Rightarrow> ret () | Some p \<Rightarrow>
     andThen (load_view p) (\<lambda>m s.
       case h m (w_peer s) of
         Fault e \<Rightarrow> Fault e
       | Blocks \<Rightarrow> Blocks
       | Ret reply q \<Rightarrow> sendReplyW cl reply (s\<lparr>w_peer := q\<rparr>)))"

definition wturn_env ::
  "(SharedFmiMessage \<Rightarrow> (SharedFmiMessage, 'p) prog) \<Rightarrow> IpcClientW \<Rightarrow> (('p, 'z) wworld_scheme) wenv"
where
  "wturn_env h cl d s =
     (case obj_of (m_hAvail_w cl) s of
        None \<Rightarrow> s
      | Some a \<Rightarrow> if is_set (w_obj s a)
                then (case clientW_turn h cl s of Ret _ t \<Rightarrow> t | _ \<Rightarrow> put_event a False s) else s)"

definition exchangeW ::
  "('a win_scheme) wenv \<Rightarrow> IpcServerW \<Rightarrow> 32 word \<Rightarrow> SharedFmiMessage \<Rightarrow> (SharedFmiMessage option, 'a win_scheme) prog"
where
  "exchangeW env srv t m =
     andThen (IpcServerW_send env srv m t) (\<lambda>r. case r of
       None \<Rightarrow> ret None
     | Some p \<Rightarrow> andThen (load_view p) (\<lambda>reply. ret (Some reply)))"

definition at_rest_w :: "IpcServerW \<Rightarrow> IpcClientW \<Rightarrow> 'a win_scheme \<Rightarrow> bool" where
  "at_rest_w srv cl s \<longleftrightarrow>
     (\<exists>p a g. m_pBuf_w srv = Some p \<and> m_pBuf_w cl = Some p \<and> wchan_objects p a g s \<and>
        obj_of (m_hAvail_w srv) s = Some a \<and> obj_of (m_hAvail_w cl) s = Some a \<and>
        obj_of (m_hSignal_w srv) s = Some g \<and> obj_of (m_hSignal_w cl) s = Some g \<and>
        \<not> is_set (w_obj s a) \<and> \<not> is_set (w_obj s g))"

lemma obj_of_update [simp]:
  "obj_of h (s\<lparr>w_obj := f\<rparr>) = obj_of h s" "obj_of h (t\<lparr>w_peer := q\<rparr>) = obj_of h t"
  by (simp_all add: obj_of_def)

lemma exchangeW_at_rest:
  fixes s :: "('p, 'z) wworld_scheme"
  assumes "at_rest_w srv cl s" and "h m (w_peer s) = Ret r q"
  shows "\<exists>s'. exchangeW (wturn_env h cl) srv t m s = Ret (Some r) s' \<and> at_rest_w srv cl s' \<and> w_peer s' = q"
proof -
  from assms(1) obtain p a g n x where c: "m_pBuf_w srv = Some p" "m_pBuf_w cl = Some p" "a \<noteq> g" "p \<noteq> a" "p \<noteq> g"
      "w_obj s p = Section n x" "w_obj s a = Event False" "w_obj s g = Event False"
      "obj_of (m_hAvail_w srv) s = Some a" "obj_of (m_hAvail_w cl) s = Some a"
      "obj_of (m_hSignal_w srv) s = Some g" "obj_of (m_hSignal_w cl) s = Some g"
    unfolding at_rest_w_def wchan_objects_def by (metis is_section.elims(2) not_section is_set.simps(1))
  let ?s1 = "s\<lparr>w_obj := (w_obj s)(p := Section n \<lparr>message = m\<rparr>, a := Event True)\<rparr>"
  let ?s2 = "s\<lparr>w_obj := (w_obj s)(p := Section n \<lparr>message = r\<rparr>, g := Event True), w_peer := q\<rparr>"
  let ?s3 = "s\<lparr>w_obj := (w_obj s)(p := Section n \<lparr>message = r\<rparr>), w_peer := q\<rparr>"
  have turn: "clientW_turn h cl ?s1 = Ret () ?s2"
    using c assms(2)
    by (simp add: clientW_turn_def getMessageW_def sendReplyW_def signalWaitW_def WaitForSingleObject_def load_view_def
        store_view_def signalPostW_def SetEvent_def put_event_def fun_upd_twist fun_upd_idem)
  have env: "wturn_env h cl d ?s1 = ?s2" for d
    using c turn by (simp add: wturn_env_def)
  have "signalWaitW (wturn_env h cl) (m_hSignal_w srv) t ?s1 = Ret True ?s3"
    using c env by (simp add: signalWaitW_def WaitForSingleObject_def put_event_def Let_def fun_upd_idem)
  then have "exchangeW (wturn_env h cl) srv t m s = Ret (Some r) ?s3"
    using c by (simp add: exchangeW_def IpcServerW_send_def store_view_def signalPostW_def SetEvent_def put_event_def load_view_def)
  moreover have "at_rest_w srv cl ?s3" using c by (auto simp: at_rest_w_def wchan_objects_def)
  ultimately show ?thesis by auto
qed

text \<open>
  The Windows ends keep the contract of a channel, for every timeout: an exchange on a channel at
  rest returns the peer's answer and leaves the channel at rest.
\<close>

interpretation win_ipc: request_reply "exchangeW (wturn_env h cl) srv t" "at_rest_w srv cl" w_peer h
  for h :: "SharedFmiMessage \<Rightarrow> (SharedFmiMessage, 'p) prog" and srv cl t
  by unfold_locales (rule exchangeW_at_rest)

text \<open>Several calls one after the other.\<close>

fun exchangesW ::
  "('a win_scheme) wenv \<Rightarrow> IpcServerW \<Rightarrow> 32 word \<Rightarrow> SharedFmiMessage list \<Rightarrow>
   (SharedFmiMessage option list, 'a win_scheme) prog"
where
  "exchangesW env srv t [] = ret []"
| "exchangesW env srv t (m # ms) =
     andThen (exchangeW env srv t m) (\<lambda>r. andThen (exchangesW env srv t ms) (\<lambda>rs. ret (r # rs)))"

lemma exchangesW_calls: "win_ipc.calls h cl srv t ms = exchangesW (wturn_env h cl) srv t ms"
  by (induction ms) simp_all

section \<open>Properties\<close>

definition wchan0 :: "'p \<Rightarrow> SharedFmiMessage list \<Rightarrow> 'p wchan" where
  "wchan0 q ms =
     \<lparr>w_names = (\<lambda>_. None), w_obj = (\<lambda>_. Event False)(0 := Section 10008 SharedFmiMem_zero),
      w_refs = (\<lambda>_. 2), w_next = 4, w_handles = (\<lambda>_. None), w_next_handle = 9, w_refuse = (\<lambda>_. False),
      w_peer = q, w_srv_pc = SIdle, w_cl_pc = CIdle, w_todo = ms, w_sent = [], w_results = []\<rparr>"

lemma wchan0_init: "wchan_init 0 1 2 q ms (wchan0 q ms)"
  by (simp add: wchan_init_def wchan_objects_def wchan0_def)

text \<open>
  C26: Without timeouts the Windows channel and the POSIX channel behave alike: seen through the
  mapping that reads an event as a semaphore of value zero or one, every step of the one is a step
  of the other, in both directions, in every state that the Windows channel can reach. So the
  messages that its finished sends return are also the peer's replies in order.
\<close>

theorem win_channel_bisimilar:
  assumes "wchan_reach p a g f False q ms s"
  shows "chan_reach p a g f False q ms (as_posix s) \<and>
    {as_posix t |t. wchan_step p a g f False s t} = {x. chan_step p a g f False (as_posix s) x} \<and>
    w_results s = map Some (take (length (w_results s)) (fst (serve f q ms)))"
proof -
  note good = wchan_reach_posix(1) [OF assms] and reach = wchan_reach_posix(2) [OF assms]
  have "{as_posix t |t. wchan_step p a g f False s t} = {x. chan_step p a g f False (as_posix s) x}"
    using wchan_step_posix [OF good] posix_step_wchan [OF good] by blast
  moreover from good obtain n where "chan_inv p a g f q ms n (as_posix s)" by (auto simp: wchan_good_def)
  ultimately show ?thesis using reach chan_inv_results by fastforce
qed

theorem win_channel_bisimilar_witness:
  "{as_posix t |t. wchan_step 0 1 2 (\<lambda>q m. (m, q)) False (wchan0 () [SharedFmiMessage_zero]) t} =
   {x. chan_step 0 1 2 (\<lambda>q m. (m, q)) False (as_posix (wchan0 () [SharedFmiMessage_zero])) x}"
proof -
  have "wchan_reach 0 1 2 (\<lambda>q m. (m, q)) False () [SharedFmiMessage_zero] (wchan0 () [SharedFmiMessage_zero])"
    unfolding wchan_reach_def by (intro exI conjI, rule wchan0_init, rule rtranclp.rtrancl_refl)
  from win_channel_bisimilar [OF this] show ?thesis by blast
qed

text \<open>A wait during which the client does nothing.\<close>

lemma exchangeW_left_alone:
  fixes s :: "('p, 'z) wworld_scheme"
  assumes "at_rest_w srv cl s"
  shows "if t = 0 \<or> t = W_INFINITE then exchangeW (\<lambda>_ s. s) srv t m s = Blocks
    else \<exists>s'. exchangeW (\<lambda>_ s. s) srv t m s = Ret None s' \<and> w_peer s' = w_peer s"
proof -
  from assms obtain p a g n x where c: "m_pBuf_w srv = Some p" "a \<noteq> g" "p \<noteq> a" "p \<noteq> g"
      "w_obj s p = Section n x" "w_obj s a = Event False" "w_obj s g = Event False"
      "obj_of (m_hAvail_w srv) s = Some a" "obj_of (m_hSignal_w srv) s = Some g"
    unfolding at_rest_w_def wchan_objects_def by (metis is_section.elims(2) not_section is_set.simps(1))
  let ?s1 = "s\<lparr>w_obj := (w_obj s)(p := Section n \<lparr>message = m\<rparr>, a := Event True)\<rparr>"
  have "signalWaitW (\<lambda>_ s. s) (m_hSignal_w srv) t ?s1 = (if t = 0 \<or> t = W_INFINITE then Blocks else Ret False ?s1)"
    using c by (simp add: signalWaitW_def WaitForSingleObject_def Let_def)
  then show ?thesis
    using c by (simp add: exchangeW_def IpcServerW_send_def store_view_def signalPostW_def SetEvent_def put_event_def)
qed

text \<open>
  C27: From nothing to an answer on Windows. A server is created where its names are free, a client
  connects under its key, and the system refuses nothing; the client's handler answers every message.
  If the client takes its turn (\<open>getMessage\<close>, the handler, \<open>sendReply\<close>) whenever the server waits, a
  call carries its request to the handler and the handler's answer back and leaves the two at rest,
  and any number of calls gives the replies in order. If the client does nothing while the server waits,
  the call returns NULL when a finite timeout is over, and does not return without one (0 or
  \<open>INFINITE\<close>).
\<close>

theorem win_channel_serves:
  fixes s :: "('p, 'z) wworld_scheme"
  assumes "names_free (m_name_w srv) s" and "\<And>op. \<not> w_refuse s op" and "m_name_w cl = m_name_w srv"
    and "IpcServerW_create srv s = (ok, srv', s1)" and "IpcClientW_connect cl s1 = (ok', cl', s2)"
    and "\<And>m q. h m q = Ret (fst (f q m)) (snd (f q m))"
  shows "(\<exists>s3. exchangeW (wturn_env h cl') srv' t m s2 = Ret (Some (fst (f (w_peer s2) m))) s3 \<and>
      w_peer s3 = snd (f (w_peer s2) m) \<and> at_rest_w srv' cl' s3) \<and>
    (\<exists>s4. exchangesW (wturn_env h cl') srv' t ms s2 = Ret (map Some (fst (serve f (w_peer s2) ms))) s4) \<and>
    (if t = 0 \<or> t = W_INFINITE then exchangeW (\<lambda>_ s. s) srv' t m s2 = Blocks
     else \<exists>s5. exchangeW (\<lambda>_ s. s) srv' t m s2 = Ret None s5 \<and> w_peer s5 = w_peer s2)"
proof -
  from win_rendezvous [OF assms(1-5)] obtain p g a w where "distinct [p, g, a, w]"
      and b: "m_pBuf_w srv' = Some p" "m_pBuf_w cl' = Some p" and p: "w_obj s2 p = Section sizeof_SharedFmiMemW SharedFmiMem_zero"
      and e: "map (w_obj s2) [g, a, w] = [Event False, Event False, Event False]"
      and h: "obj_of (m_hSignal_w srv') s2 = Some g" "obj_of (m_hSignal_w cl') s2 = Some g"
        "obj_of (m_hAvail_w srv') s2 = Some a" "obj_of (m_hAvail_w cl') s2 = Some a"
    by (elim conjE exE) (rule that)
  then have rest: "at_rest_w srv' cl' s2" by (auto simp: at_rest_w_def wchan_objects_def)
  from exchangeW_at_rest [of srv' cl' s2 h m _ _ t, OF rest assms(6)]
    win_ipc.calls_serve [where h = h and f = f and t = t and ms = ms, OF rest assms(6), unfolded exchangesW_calls]
    exchangeW_left_alone [OF rest, of t m]
  show ?thesis by blast
qed

theorem win_channel_serves_witness:
  "\<exists>srv cl s2 s3. exchangeW (wturn_env (\<lambda>m q. Ret (m\<lparr>cmd := 9\<rparr>) (Suc q)) cl) srv 50 SharedFmiMessage_zero
     (s2 :: nat wworld) = Ret (Some (SharedFmiMessage_zero\<lparr>cmd := 9\<rparr>)) s3 \<and> w_peer s3 = Suc (w_peer s2)"
proof -
  let ?s = "win.extend win_init \<lparr>w_peer = 4 :: nat\<rparr>"
  obtain ok srv s1 where c: "IpcServerW_create (IpcServerW_new ''k'') ?s = (ok, srv, s1)" by (metis prod_cases3)
  obtain ok' cl s2 where d: "IpcClientW_connect (IpcClientW_new ''k'') s1 = (ok', cl, s2)" by (metis prod_cases3)
  have "names_free (m_name_w (IpcServerW_new ''k'')) ?s"
    by (simp add: names_free_def win_init_def channel_names_def win.defs)
  moreover have "\<not> w_refuse ?s op" for op by (simp add: win_init_def win.defs)
  ultimately show ?thesis
    using win_channel_serves [OF _ _ new_names_w c d, of "\<lambda>m q. Ret (m\<lparr>cmd := 9\<rparr>) (Suc q)" "\<lambda>q m. (m\<lparr>cmd := 9\<rparr>, Suc q)" 50
        SharedFmiMessage_zero "[]"] by auto
qed

end
