(* ===== verification/SemTimedwait.thy ===== *)
theory SemTimedwait
  imports Posix
begin

text \<open>
  macOS has no \<open>sem_timedwait\<close>; the library brings its own (libshmipc/sem_timedwait.cpp): it tries
  the semaphore and sleeps, until the clock has passed the deadline, both counted in milliseconds
  as 32 bit numbers. \<open>Posix.sem_timedwait\<close> is the call of the other systems.
\<close>

section \<open>The functions\<close>

text \<open>
  \<open>round\<close> of a \<open>timespec\<close>'s nanoseconds divided by \<open>1.0e6\<close>: to the nearest, halves away from zero.
  The quotient of a number below \<open>2 ^ 31\<close> is at least \<open>10 ^ -6\<close> away from a half that it is not,
  further than a double's error, so the exact quotient is rounded to the same number.
\<close>

definition round_milisec :: "int \<Rightarrow> int" where
  "round_milisec ns = (if 0 \<le> ns then (ns + 500000) div 1000000 else - ((500000 - ns) div 1000000))"

definition timespec_to_milisec :: "int \<times> int \<Rightarrow> 32 word" where
  "timespec_to_milisec spec =
     (let ms = (of_int (round_milisec (snd spec)) :: 32 word);
          s = fst spec
      in of_int (s * 1000 + uint ms))"

definition clock_gettime :: "'a os_scheme \<Rightarrow> int \<times> int" where
  "clock_gettime s = clock s"

text \<open>
  \<open>sem_trywait\<close>: the semaphore is taken; or it is zero (\<open>EAGAIN\<close>) or the call fails otherwise.
\<close>

datatype trywait = TryTaken | TryAgain | TryFailed

fun sem_trywait :: "SIGNAL_HANDLE \<Rightarrow> (trywait, 'a os_scheme) prog" where
  "sem_trywait (Sig k) s =
     (if 0 < sem_val s k then Ret TryTaken (sem_take k s)
      else if refuse s (OpSemWait k) then Ret TryFailed s else Ret TryAgain s)"
| "sem_trywait h s = Fault BadHandle"

text \<open>
  The loop. \<open>nap us\<close> is what happens while the thread sleeps for \<open>us\<close> microseconds; \<open>n\<close> bounds the
  passes looked at, and the result is \<open>None\<close> when they were not enough. The difference in
  milliseconds is passed to \<open>usleep\<close> as it is. A failure other than \<open>EAGAIN\<close> leaves the loop
  as a success does.
\<close>

fun mac_sem_timedwait ::
  "(nat \<Rightarrow> 'a os_scheme \<Rightarrow> 'a os_scheme) \<Rightarrow> SIGNAL_HANDLE \<Rightarrow> int \<times> int \<Rightarrow> nat \<Rightarrow>
   (bool option, 'a os_scheme) prog" where
  "mac_sem_timedwait nap sem abs_timeout 0 = ret None"
| "mac_sem_timedwait nap sem abs_timeout (Suc n) =
     andThen (sem_trywait sem) (\<lambda>r. case r of
       TryTaken \<Rightarrow> ret (Some True)
     | TryFailed \<Rightarrow> ret (Some True)
     | TryAgain \<Rightarrow> (\<lambda>s.
         let ts = clock_gettime s;
             now = timespec_to_milisec ts;
             delay = timespec_to_milisec abs_timeout
         in if now < delay then mac_sem_timedwait nap sem abs_timeout n (nap (unat (delay - now)) s)
            else Ret (Some False) s))"

section \<open>Time\<close>

text \<open>A time in milliseconds without the wrap-around, and the 32 bit window it lies in.\<close>

definition total_ms :: "int \<times> int \<Rightarrow> int" where
  "total_ms t = fst t * 1000 + round_milisec (snd t)"

definition ms_window :: "int \<times> int \<Rightarrow> int" where
  "ms_window t = total_ms t div 2 ^ 32"

definition total_ns :: "int \<times> int \<Rightarrow> int" where
  "total_ns t = fst t * 1000000000 + snd t"

lemma total_ms_ns: "0 \<le> snd t \<Longrightarrow> total_ms t = (total_ns t + 500000) div 1000000"
proof -
  assume "0 \<le> snd t"
  moreover have "fst t * 1000000000 + snd t + 500000 = (snd t + 500000) + fst t * 1000 * 1000000" by simp
  ultimately show ?thesis
    unfolding total_ms_def total_ns_def round_milisec_def
    using div_mult_self1 [of 1000000 "snd t + 500000" "fst t * 1000"] by simp
qed

lemma timespec_word: "timespec_to_milisec t = of_int (total_ms t)"
  by (simp add: timespec_to_milisec_def total_ms_def)

lemma uint_timespec: "uint (timespec_to_milisec t) = total_ms t mod 2 ^ 32"
  unfolding timespec_word by (simp only: uint_word_of_int len_num1 len_bit0 len_bit1) simp

lemma same_window_diff:
  assumes "ms_window a = ms_window b"
  shows "total_ms a mod 2 ^ 32 - total_ms b mod 2 ^ 32 = total_ms a - total_ms b"
  using assms unfolding ms_window_def by (simp add: minus_div_mult_eq_mod [symmetric])

lemma timespec_less_iff:
  assumes "ms_window a = ms_window b"
  shows "timespec_to_milisec a < timespec_to_milisec b \<longleftrightarrow> total_ms a < total_ms b"
  unfolding word_less_def uint_timespec using same_window_diff [OF assms] by (intro iffI) linarith+

lemma unat_timespec_diff:
  assumes "ms_window a = ms_window b" and "total_ms a \<le> total_ms b"
  shows "int (unat (timespec_to_milisec b - timespec_to_milisec a)) = total_ms b - total_ms a"
proof -
  have "timespec_to_milisec a \<le> timespec_to_milisec b"
    unfolding word_le_def uint_timespec using same_window_diff [OF assms(1)] assms(2) by linarith
  then have "uint (timespec_to_milisec b - timespec_to_milisec a) = uint (timespec_to_milisec b) - uint (timespec_to_milisec a)"
    by (simp add: uint_minus_simple_alt word_le_def)
  then show ?thesis
    using same_window_diff [OF assms(1)] by (simp add: uint_timespec)
qed

text \<open>
  What the clock does during a sleep: it is read as a normal \<open>timespec\<close>, advances by at least the time
  slept, and a sleep that is not longer than the milliseconds left does not carry it out of the
  deadline's window.
\<close>

definition fair_nap :: "(nat \<Rightarrow> 'a os_scheme \<Rightarrow> 'a os_scheme) \<Rightarrow> int \<times> int \<Rightarrow> bool" where
  "fair_nap nap d \<longleftrightarrow> (\<forall>us s. 0 \<le> snd (clock s) \<longrightarrow>
     0 \<le> snd (clock (nap us s)) \<and> total_ns (clock s) + 1000 * int us \<le> total_ns (clock (nap us s)) \<and>
     (ms_window (clock s) = ms_window d \<and> int us \<le> total_ms d - total_ms (clock s) \<longrightarrow>
        ms_window (clock (nap us s)) = ms_window d))"

lemma less_ms_less_ns:
  assumes "total_ms a < total_ms b" and "0 \<le> snd a" and "0 \<le> snd b"
  shows "total_ns a < total_ns b"
proof (rule ccontr)
  assume "\<not> ?thesis"
  then have "(total_ns b + 500000) div 1000000 \<le> (total_ns a + 500000) div 1000000"
    by (intro zdiv_mono1) simp_all
  with assms show False by (simp add: total_ms_ns)
qed

lemma ms_le_ns:
  assumes "total_ms b \<le> total_ms a" and "0 \<le> snd b" and "0 \<le> snd a"
  shows "total_ns b - total_ns a < 1000000"
  using assms by (simp add: total_ms_ns)

text \<open>One pass that neither takes the semaphore nor gives up leaves less to wait for.\<close>

lemma nap_progress:
  assumes "fair_nap nap d" and "ms_window (clock s) = ms_window d" and "0 \<le> snd (clock s)" and "0 \<le> snd d"
    and "timespec_to_milisec (clock s) < timespec_to_milisec d"
  defines "s' \<equiv> nap (unat (timespec_to_milisec d - timespec_to_milisec (clock s))) s"
  shows "total_ns (clock s) < total_ns d" and "total_ns (clock s) + 1000 \<le> total_ns (clock s')"
    and "ms_window (clock s') = ms_window d" and "0 \<le> snd (clock s')"
proof -
  let ?w = "timespec_to_milisec d - timespec_to_milisec (clock s)"
  have less: "total_ms (clock s) < total_ms d"
    using assms(2,5) by (simp add: timespec_less_iff)
  then show "total_ns (clock s) < total_ns d" using assms(3,4) by (rule less_ms_less_ns)
  have w: "int (unat ?w) = total_ms d - total_ms (clock s)"
    using assms(2) less by (intro unat_timespec_diff) simp_all
  have "total_ns (clock s) + 1000 * int (unat ?w) \<le> total_ns (clock s')"
    using assms(1,3) unfolding s'_def fair_nap_def by blast
  then show "total_ns (clock s) + 1000 \<le> total_ns (clock s')" using w less by linarith
  show "ms_window (clock s') = ms_window d" "0 \<le> snd (clock s')"
    using assms(1-3) w unfolding s'_def fair_nap_def by auto
qed

lemma mac_timedwait_ends:
  assumes "fair_nap nap d" and "0 \<le> snd d"
  shows "ms_window (clock s) = ms_window d \<Longrightarrow> 0 \<le> snd (clock s) \<Longrightarrow> 0 < n \<Longrightarrow>
    (total_ns d - total_ns (clock s)) div 1000 + 1 < int n \<Longrightarrow>
    \<exists>b t. mac_sem_timedwait nap (Sig k) d n s = Ret (Some b) t \<and>
      (if b then (\<exists>u. 0 < sem_val u k \<and> t = sem_take k u) \<or> refuse t (OpSemWait k)
       else sem_val t k = 0 \<and> total_ns d - total_ns (clock t) < 1000000)"
proof (induction n arbitrary: s)
  case 0
  then show ?case by simp
next
  case (Suc n)
  let ?now = "timespec_to_milisec (clock s)" and ?delay = "timespec_to_milisec d"
  consider "0 < sem_val s k \<or> refuse s (OpSemWait k)"
    | "sem_val s k = 0" "\<not> refuse s (OpSemWait k)" "\<not> ?now < ?delay"
    | "sem_val s k = 0" "\<not> refuse s (OpSemWait k)" "?now < ?delay" by blast
  then show ?case
  proof cases
    case 1
    then show ?thesis
    proof (cases "0 < sem_val s k")
      case True
      then have "mac_sem_timedwait nap (Sig k) d (Suc n) s = Ret (Some True) (sem_take k s)" by simp
      with True show ?thesis by (intro exI [of _ True] exI [of _ "sem_take k s"]) auto
    next
      case False
      with 1 have r: "refuse s (OpSemWait k)" by simp
      with False have "mac_sem_timedwait nap (Sig k) d (Suc n) s = Ret (Some True) s" by simp
      with r show ?thesis by (intro exI [of _ True] exI [of _ s]) simp
    qed
  next
    case 2
    then have "total_ms d \<le> total_ms (clock s)" using timespec_less_iff [OF Suc.prems(1)] by simp
    from ms_le_ns [OF this assms(2) Suc.prems(2)] have "total_ns d - total_ns (clock s) < 1000000" .
    with 2 show ?thesis
      by (intro exI [of _ False] exI [of _ s]) (simp add: andThen_def clock_gettime_def)
  next
    case 3
    define s' where "s' = nap (unat (?delay - ?now)) s"
    note p = nap_progress [OF assms(1) Suc.prems(1,2) assms(2) 3(3), folded s'_def]
    from p(1) Suc.prems(4) have "0 < n" by linarith
    moreover have "(total_ns d - total_ns (clock s')) div 1000 \<le> (total_ns d - total_ns (clock s) - 1000) div 1000"
      using p(2) by (intro zdiv_mono1) simp_all
    then have "(total_ns d - total_ns (clock s')) div 1000 + 1 < int n" using Suc.prems(4) by simp
    ultimately show ?thesis
      using Suc.IH [OF p(3,4)] 3 by (simp add: andThen_def clock_gettime_def s'_def Let_def)
  qed
qed

section \<open>Properties\<close>

text \<open>
  C30: On macOS a timed wait returns, if the clock is fair (\<open>fair_nap\<close>): during a sleep it advances by
  at least the time slept, its nanoseconds stay non-negative, and a sleep of no more microseconds than
  there are milliseconds left does not carry it out of the \<open>2 ^ 32\<close> milliseconds in which the
  deadline lies; the wait must begin in them too. One pass for each microsecond that is left and two
  more are then enough. It succeeds only with a token that it takes (or because the system fails the
  call), and it gives up only with the semaphore at zero and less than one millisecond left: times are
  rounded to milliseconds, so that it may give up before the deadline, but never by a whole one.
\<close>

theorem mac_timedwait_returns:
  assumes "fair_nap nap d" and "0 \<le> snd d" and "ms_window (clock s) = ms_window d" and "0 \<le> snd (clock s)"
    and "0 < n" and "(total_ns d - total_ns (clock s)) div 1000 + 1 < int n"
  shows "\<exists>b t. mac_sem_timedwait nap (Sig k) d n s = Ret (Some b) t \<and>
    (if b then (\<exists>u. 0 < sem_val u k \<and> t = sem_take k u) \<or> refuse t (OpSemWait k)
     else sem_val t k = 0 \<and> total_ns d - total_ns (clock t) < 1000000)"
  by (rule mac_timedwait_ends [OF assms(1,2,3,4,5,6)])

text \<open>A clock that shows just the time slept, while nothing else happens.\<close>

definition exact_nap :: "nat \<Rightarrow> 'a os_scheme \<Rightarrow> 'a os_scheme" where
  "exact_nap us s = (let ns = total_ns (clock s) + 1000 * int us in s\<lparr>clock := (ns div 10 ^ 9, ns mod 10 ^ 9)\<rparr>)"

lemma exact_nap_ns [simp]: "total_ns (clock (exact_nap us s)) = total_ns (clock s) + 1000 * int us"
  by (simp add: exact_nap_def Let_def total_ns_def)

lemma exact_nap_fair:
  assumes "0 \<le> snd d"
  shows "fair_nap (exact_nap :: nat \<Rightarrow> 'a os_scheme \<Rightarrow> 'a os_scheme) d"
  unfolding fair_nap_def
proof (intro allI impI conjI)
  fix us and s :: "'a os_scheme"
  assume s: "0 \<le> snd (clock s)"
  let ?s = "exact_nap us s"
  show nn: "0 \<le> snd (clock ?s)" by (simp add: exact_nap_def Let_def)
  show "total_ns (clock s) + 1000 * int us \<le> total_ns (clock ?s)" by simp
  assume w: "ms_window (clock s) = ms_window d \<and> int us \<le> total_ms d - total_ms (clock s)"
  have "total_ms (clock s) \<le> total_ms (clock ?s)"
    using s nn by (simp add: total_ms_ns)
  moreover have "total_ms (clock ?s) \<le> total_ms (clock s) + int us"
  proof -
    have "(total_ns (clock s) + 1000 * int us + 500000) div 1000000
        \<le> (total_ns (clock s) + 500000 + int us * 1000000) div 1000000"
      by (intro zdiv_mono1) simp_all
    then show ?thesis using s nn by (simp add: total_ms_ns)
  qed
  ultimately have "total_ms (clock s) \<le> total_ms (clock ?s)" and "total_ms (clock ?s) \<le> total_ms d"
    using w by linarith+
  then have "ms_window (clock s) \<le> ms_window (clock ?s)" and "ms_window (clock ?s) \<le> ms_window d"
    unfolding ms_window_def by (intro zdiv_mono1; simp)+
  with w show "ms_window (clock ?s) = ms_window d" by simp
qed

theorem mac_timedwait_returns_witness:
  "\<exists>b t. mac_sem_timedwait exact_nap (Sig 0) (0, 3000000) 3002 os_init = Ret (Some b) t \<and>
    (\<not> b \<longrightarrow> sem_val t 0 = 0 \<and> 3000000 - total_ns (clock t) < 1000000)"
proof -
  have "ms_window (clock os_init) = ms_window (0, 3000000)"
    by (simp add: ms_window_def total_ms_def round_milisec_def)
  from mac_timedwait_returns [of exact_nap "(0, 3000000)" os_init 3002 0, OF exact_nap_fair _ this]
  show ?thesis by (auto simp: total_ns_def)
qed

text \<open>
  C37: Across a wrap-around of the 32 bit milliseconds, which happens every seven weeks, the wait does
  not wait: whenever the deadline's milliseconds, reduced modulo \<open>2 ^ 32\<close>, are not above the clock's,
  an unposted semaphore makes it give up at once, however far ahead the deadline is.
\<close>

theorem mac_timedwait_wraps:
  assumes "sem_val s k = 0" and "\<not> refuse s (OpSemWait k)"
    and "total_ms d mod 2 ^ 32 \<le> total_ms (clock s) mod 2 ^ 32"
  shows "mac_sem_timedwait nap (Sig k) d (Suc n) s = Ret (Some False) s"
  using assms by (simp add: andThen_def clock_gettime_def word_less_def uint_timespec)

theorem mac_timedwait_wraps_witness:
  "mac_sem_timedwait exact_nap (Sig 0) (4294967, 300000000) 1 (os_init\<lparr>clock := (4294967, 290000000)\<rparr>) =
     Ret (Some False) (os_init\<lparr>clock := (4294967, 290000000)\<rparr>)"
  using mac_timedwait_wraps [of "os_init\<lparr>clock := (4294967, 290000000)\<rparr>" 0 "(4294967, 300000000)" exact_nap 0]
  by (simp add: total_ms_def round_milisec_def os_init_def)

end
