(* ===== verification/Proto.thy ===== *)
theory Proto
  imports ShmPrelude
begin

text \<open>
  The messages of libshmfmi/service.proto as the generated classes present them to the code, and
  the interface of the protobuf runtime, which is not part of the repository: a serializer and a
  parser with the laws its documentation promises.
\<close>

section \<open>Messages\<close>

text \<open>
  One constructor per message, its fields in the order of their numbers. An enum field of proto3 is
  open, so it is the \<open>int\<close> it travels as. The one field that is a message, the status of
  \<open>Fmi2LogRequest\<close>, may be absent. (The native code uses every message but that one.)
\<close>

datatype pb_msg =
    Fmi2Empty
  | Fmi2SetupExperimentRequest bool c_double c_double bool c_double
  | Fmi2SetDebugLoggingRequest bool c_int "string list"
  | Fmi2GetRequest "c_int list" c_int
  | Fmi2GetRealReply "c_double list"
  | Fmi2GetIntegerReply "c_int list"
  | Fmi2GetBooleanReply "bool list"
  | Fmi2GetStringReply "string list" bool
  | Fmi2SetRealRequest "c_int list" "c_double list"
  | Fmi2SetIntegerRequest "c_int list" "c_int list"
  | Fmi2SetBooleanRequest "c_int list" "bool list"
  | Fmi2SetStringRequest "c_int list" "string list"
  | Fmi2DoStepRequest c_double c_double
  | Fmi2InstantiateRequest string string string bool bool string
  | Fmi2StatusReply c_int
  | Fmi2StatusRequest c_int
  | Fmi2RealStatusReply c_double
  | Fmi2IntegerStatusReply c_int
  | Fmi2BooleanStatusReply bool
  | Fmi2StringStatusReply string
  | Fmi2GetMaxStepSizeReply c_double
  | Fmi2LogReply string c_int string
  | Fmi2LogRequest string "c_int option" string string

datatype pb_kind =
    K_Empty | K_SetupExperimentRequest | K_SetDebugLoggingRequest | K_GetRequest
  | K_GetRealReply | K_GetIntegerReply | K_GetBooleanReply | K_GetStringReply
  | K_SetRealRequest | K_SetIntegerRequest | K_SetBooleanRequest | K_SetStringRequest
  | K_DoStepRequest | K_InstantiateRequest | K_StatusReply | K_StatusRequest
  | K_RealStatusReply | K_IntegerStatusReply | K_BooleanStatusReply | K_StringStatusReply
  | K_GetMaxStepSizeReply | K_LogReply | K_LogRequest

fun kind_of :: "pb_msg \<Rightarrow> pb_kind" where
  "kind_of Fmi2Empty = K_Empty"
| "kind_of (Fmi2SetupExperimentRequest _ _ _ _ _) = K_SetupExperimentRequest"
| "kind_of (Fmi2SetDebugLoggingRequest _ _ _) = K_SetDebugLoggingRequest"
| "kind_of (Fmi2GetRequest _ _) = K_GetRequest"
| "kind_of (Fmi2GetRealReply _) = K_GetRealReply"
| "kind_of (Fmi2GetIntegerReply _) = K_GetIntegerReply"
| "kind_of (Fmi2GetBooleanReply _) = K_GetBooleanReply"
| "kind_of (Fmi2GetStringReply _ _) = K_GetStringReply"
| "kind_of (Fmi2SetRealRequest _ _) = K_SetRealRequest"
| "kind_of (Fmi2SetIntegerRequest _ _) = K_SetIntegerRequest"
| "kind_of (Fmi2SetBooleanRequest _ _) = K_SetBooleanRequest"
| "kind_of (Fmi2SetStringRequest _ _) = K_SetStringRequest"
| "kind_of (Fmi2DoStepRequest _ _) = K_DoStepRequest"
| "kind_of (Fmi2InstantiateRequest _ _ _ _ _ _) = K_InstantiateRequest"
| "kind_of (Fmi2StatusReply _) = K_StatusReply"
| "kind_of (Fmi2StatusRequest _) = K_StatusRequest"
| "kind_of (Fmi2RealStatusReply _) = K_RealStatusReply"
| "kind_of (Fmi2IntegerStatusReply _) = K_IntegerStatusReply"
| "kind_of (Fmi2BooleanStatusReply _) = K_BooleanStatusReply"
| "kind_of (Fmi2StringStatusReply _) = K_StringStatusReply"
| "kind_of (Fmi2GetMaxStepSizeReply _) = K_GetMaxStepSizeReply"
| "kind_of (Fmi2LogReply _ _ _) = K_LogReply"
| "kind_of (Fmi2LogRequest _ _ _ _) = K_LogRequest"

text \<open>A new message object: every field at its default.\<close>

fun pb_default :: "pb_kind \<Rightarrow> pb_msg" where
  "pb_default K_Empty = Fmi2Empty"
| "pb_default K_SetupExperimentRequest = Fmi2SetupExperimentRequest False 0 0 False 0"
| "pb_default K_SetDebugLoggingRequest = Fmi2SetDebugLoggingRequest False 0 []"
| "pb_default K_GetRequest = Fmi2GetRequest [] 0"
| "pb_default K_GetRealReply = Fmi2GetRealReply []"
| "pb_default K_GetIntegerReply = Fmi2GetIntegerReply []"
| "pb_default K_GetBooleanReply = Fmi2GetBooleanReply []"
| "pb_default K_GetStringReply = Fmi2GetStringReply [] False"
| "pb_default K_SetRealRequest = Fmi2SetRealRequest [] []"
| "pb_default K_SetIntegerRequest = Fmi2SetIntegerRequest [] []"
| "pb_default K_SetBooleanRequest = Fmi2SetBooleanRequest [] []"
| "pb_default K_SetStringRequest = Fmi2SetStringRequest [] []"
| "pb_default K_DoStepRequest = Fmi2DoStepRequest 0 0"
| "pb_default K_InstantiateRequest = Fmi2InstantiateRequest [] [] [] False False []"
| "pb_default K_StatusReply = Fmi2StatusReply 0"
| "pb_default K_StatusRequest = Fmi2StatusRequest 0"
| "pb_default K_RealStatusReply = Fmi2RealStatusReply 0"
| "pb_default K_IntegerStatusReply = Fmi2IntegerStatusReply 0"
| "pb_default K_BooleanStatusReply = Fmi2BooleanStatusReply False"
| "pb_default K_StringStatusReply = Fmi2StringStatusReply []"
| "pb_default K_GetMaxStepSizeReply = Fmi2GetMaxStepSizeReply 0"
| "pb_default K_LogReply = Fmi2LogReply [] 0 []"
| "pb_default K_LogRequest = Fmi2LogRequest [] None [] []"

lemma kind_of_default [simp]: "kind_of (pb_default k) = k"
  by (cases k) simp_all

text \<open>The values of the enum \<open>Fmi2StatusReply.Status\<close> (and of its copy in \<open>Fmi2LogReply\<close>).\<close>

definition Status_Ok :: c_int where "Status_Ok = 0"
definition Status_Warning :: c_int where "Status_Warning = 1"
definition Status_Discard :: c_int where "Status_Discard = 2"
definition Status_Error :: c_int where "Status_Error = 3"
definition Status_Fatal :: c_int where "Status_Fatal = 4"
definition Status_Pending :: c_int where "Status_Pending = 5"

lemmas Status_defs = Status_Ok_def Status_Warning_def Status_Discard_def Status_Error_def
  Status_Fatal_def Status_Pending_def

section \<open>The protobuf runtime\<close>

text \<open>
  A proto3 \<open>string\<close> must be valid UTF-8; for other contents the runtime promises nothing.
\<close>

definition cont :: "char \<Rightarrow> bool" where
  "cont c \<longleftrightarrow> 128 \<le> (of_char c :: nat) \<and> (of_char c :: nat) \<le> 191"

definition between :: "nat \<Rightarrow> char \<Rightarrow> nat \<Rightarrow> bool" where
  "between lo c hi \<longleftrightarrow> lo \<le> of_char c \<and> of_char c \<le> hi"

fun utf8 :: "string \<Rightarrow> bool" where
  "utf8 [] = True"
| "utf8 (a # s) =
     (if between 0 a 127 then utf8 s
      else case s of [] \<Rightarrow> False | b # s2 \<Rightarrow>
        if between 194 a 223 then cont b \<and> utf8 s2
        else case s2 of [] \<Rightarrow> False | c # s3 \<Rightarrow>
          if between 224 a 239
          then (if a = char_of (224 :: nat) then between 160 b 191
                else if a = char_of (237 :: nat) then between 128 b 159 else cont b)
               \<and> cont c \<and> utf8 s3
          else case s3 of [] \<Rightarrow> False | d # s4 \<Rightarrow>
            between 240 a 244 \<and>
            (if a = char_of (240 :: nat) then between 144 b 191
             else if a = char_of (244 :: nat) then between 128 b 143 else cont b)
            \<and> cont c \<and> cont d \<and> utf8 s4)"

fun pb_strings :: "pb_msg \<Rightarrow> string list" where
  "pb_strings (Fmi2SetDebugLoggingRequest _ _ ss) = ss"
| "pb_strings (Fmi2GetStringReply ss _) = ss"
| "pb_strings (Fmi2SetStringRequest _ ss) = ss"
| "pb_strings (Fmi2InstantiateRequest a b c _ _ d) = [a, b, c, d]"
| "pb_strings (Fmi2StringStatusReply s) = [s]"
| "pb_strings (Fmi2LogRequest n _ c m) = [n, c, m]"
| "pb_strings (Fmi2LogReply v _ c) = [v, c]"
| "pb_strings _ = []"

definition pb_utf8 :: "pb_msg \<Rightarrow> bool" where
  "pb_utf8 m \<longleftrightarrow> list_all utf8 (pb_strings m)"

text \<open>
  \<open>ser m\<close> is what \<open>SerializeWithCachedSizesToArray\<close> writes, its length what \<open>ByteSizeLong\<close>
  returns; \<open>parse k bs\<close> is the message object of class \<open>k\<close> after \<open>ParseFromArray\<close>, whose
  result the code never looks at. Promised: parsing restores what was serialized, the class is
  that of the object, and a message with all defaults has the empty encoding.
\<close>

locale protobuf_codec =
  fixes ser :: "pb_msg \<Rightarrow> byte list"
    and parse :: "pb_kind \<Rightarrow> byte list \<Rightarrow> pb_msg"
  assumes parse_ser: "pb_utf8 m \<Longrightarrow> parse (kind_of m) (ser m) = m"
    and kind_parse: "kind_of (parse k bs) = k"
    and ser_default: "ser (pb_default k) = []"
begin

lemma parse_ser_kind: "pb_utf8 m \<Longrightarrow> kind_of m = k \<Longrightarrow> parse k (ser m) = m"
  using parse_ser by blast

lemma pb_default_utf8: "pb_utf8 (pb_default k)"
  by (cases k) (simp_all add: pb_utf8_def)

lemma parse_empty: "parse k [] = pb_default k"
  using parse_ser [OF pb_default_utf8, of k] by (simp add: ser_default)

lemma ser_inj: "pb_utf8 m \<Longrightarrow> pb_utf8 m' \<Longrightarrow> kind_of m = kind_of m' \<Longrightarrow> ser m = ser m' \<Longrightarrow> m = m'"
  by (metis parse_ser)

end

end
