(* ===== verification/FmuProxy.thy ===== *)
theory FmuProxy
  imports Channel Proto
begin

text \<open>
  The FMU's view of its remote implementation (libshmfmi/FmuProxy.h, FmuProxy.cpp): one method
  per FMI function, which fills a protobuf message, sends it through an \<open>IpcServer\<close> and reads
  the reply. The protobuf runtime and the behaviour of the other processes are a parameter.
\<close>

section \<open>The object\<close>

datatype proxy_status = px_OK | px_Warning | px_Discard | px_Error | px_Fatal | px_Pending

datatype proxy_status_kind =
  px_DoStepStatus | px_PendingStatus | px_LastSuccessfulTime | px_Terminated

record FmuProxy =
  m_url :: string
  proxy_server :: IpcServer

text \<open>
  What the program runs on: \<open>rt_ser\<close> and \<open>rt_parse\<close> are the protobuf runtime, \<open>rt_env\<close> what
  the other processes do while a thread waits.
\<close>

record 's runtime =
  rt_ser :: "pb_msg \<Rightarrow> byte list"
  rt_parse :: "pb_kind \<Rightarrow> byte list \<Rightarrow> pb_msg"
  rt_env :: "'s env"

definition FmuProxy_new :: "c_int \<Rightarrow> string \<Rightarrow> FmuProxy" where
  "FmuProxy_new ident url = \<lparr>m_url = url, proxy_server = IpcServer_new ident (c_str url)\<rparr>"

definition FmuProxy_delete :: "unix \<Rightarrow> FmuProxy \<Rightarrow> (unit, 'a os_scheme) prog" where
  "FmuProxy_delete u px = IpcServer_delete u (proxy_server px)"

definition FmuProxy_initialize ::
  "unix \<Rightarrow> FmuProxy \<Rightarrow> 'a os_scheme \<Rightarrow> bool \<times> FmuProxy \<times> 'a os_scheme" where
  "FmuProxy_initialize u px s =
     (case IpcServer_create u (proxy_server px) s of
        (success, srv, t) \<Rightarrow> (success, px\<lparr>proxy_server := srv\<rparr>, t))"

definition FmuProxy_getChannel :: "FmuProxy \<Rightarrow> IpcServer" where
  "FmuProxy_getChannel px = proxy_server px"

section \<open>Sending\<close>

text \<open>The class \<open>send\<close> parses the reply with: its second \<open>switch\<close>.\<close>

fun reply_kind :: "fmi2Command \<Rightarrow> pb_kind" where
  "reply_kind cmd_fmi2FreeInstance = K_Empty"
| "reply_kind cmd_fmi2SetDebugLogging = K_StatusReply"
| "reply_kind cmd_fmi2Instantiate = K_StatusReply"
| "reply_kind cmd_fmi2SetupExperiment = K_StatusReply"
| "reply_kind cmd_fmi2EnterInitializationMode = K_StatusReply"
| "reply_kind cmd_fmi2ExitInitializationMode = K_StatusReply"
| "reply_kind cmd_fmi2Terminate = K_StatusReply"
| "reply_kind cmd_fmi2Reset = K_StatusReply"
| "reply_kind cmd_fmi2DoStep = K_StatusReply"
| "reply_kind cmd_fmi2SetReal = K_StatusReply"
| "reply_kind cmd_fmi2SetInteger = K_StatusReply"
| "reply_kind cmd_fmi2SetBoolean = K_StatusReply"
| "reply_kind cmd_fmi2SetString = K_StatusReply"
| "reply_kind cmd_fmi2GetStatus = K_StatusReply"
| "reply_kind cmd_fmi2Log = K_StatusReply"
| "reply_kind cmd_fmi2GetReal = K_GetRealReply"
| "reply_kind cmd_fmi2GetInteger = K_GetIntegerReply"
| "reply_kind cmd_fmi2GetBoolean = K_GetBooleanReply"
| "reply_kind cmd_fmi2GetString = K_GetStringReply"
| "reply_kind cmd_fmi2GetMaxStepSize = K_GetMaxStepSizeReply"
| "reply_kind cmd_fmi2GetRealStatus = K_RealStatusReply"
| "reply_kind cmd_fmi2GetIntegerStatus = K_IntegerStatusReply"
| "reply_kind cmd_fmi2GetBooleanStatus = K_BooleanStatusReply"
| "reply_kind cmd_fmi2GetStringStatus = K_StringStatusReply"

text \<open>
  The first \<open>switch\<close> casts to the class of the command's request and serializes; the two
  methods it calls are virtual, so it serializes the object it was given. The size is converted
  to \<open>int\<close> before it is compared with the buffer's: a length whose \<open>int\<close> value is not greater
  than 10000 passes, and the bytes are then written whatever their number.
\<close>

definition request_fits :: "byte list \<Rightarrow> bool" where
  "request_fits bs \<longleftrightarrow> \<not> sint (of_nat (length bs) :: c_int) > int SharedFmiBufferSize"

definition request_message :: "fmi2Command \<Rightarrow> byte list \<Rightarrow> SharedFmiMessage option" where
  "request_message type bs = with_payload (SharedFmiMessage_zero\<lparr>cmd := cmd_code type\<rparr>) bs"

definition rpc ::
  "(SharedFmiMessage \<Rightarrow> (SharedFmiMessage option, 's) prog) \<Rightarrow> (pb_msg \<Rightarrow> byte list) \<Rightarrow>
   (pb_kind \<Rightarrow> byte list \<Rightarrow> pb_msg) \<Rightarrow> fmi2Command \<Rightarrow> pb_msg \<Rightarrow> (pb_msg option, 's) prog"
where
  "rpc call ser parse type msg =
     (let bs = ser msg
      in if \<not> request_fits bs then ret None
         else andThen (need OutOfBounds (request_message type bs)) (\<lambda>m.
              andThen (call m) (\<lambda>reply. case reply of
                None \<Rightarrow> ret None
              | Some r \<Rightarrow> andThen (need OutOfBounds (payload r)) (\<lambda>rs.
                  ret (Some (parse (reply_kind type) rs))))))"

definition FmuProxy_send ::
  "('a os_scheme) runtime \<Rightarrow> FmuProxy \<Rightarrow> fmi2Command \<Rightarrow> pb_msg \<Rightarrow> (pb_msg option, 'a os_scheme) prog"
where
  "FmuProxy_send rt px type msg =
     rpc (exchange (rt_env rt) (proxy_server px) INFINITE) (rt_ser rt) (rt_parse rt) type msg"

text \<open>
  The reply is used as an object of the class it was parsed with; a field of another class is
  not there to read.
\<close>

definition getStatus :: "pb_msg \<Rightarrow> (proxy_status, 's) prog" where
  "getStatus reply =
     (case reply of
        Fmi2StatusReply st \<Rightarrow>
          ret (if st = Status_Discard then px_Discard
               else if st = Status_Error then px_Error
               else if st = Status_Fatal then px_Fatal
               else if st = Status_Ok then px_OK
               else if st = Status_Pending then px_Pending
               else if st = Status_Warning then px_Warning
               else px_Fatal)
      | _ \<Rightarrow> fail BadHandle)"

definition sendRetStatus ::
  "('a os_scheme) runtime \<Rightarrow> FmuProxy \<Rightarrow> fmi2Command \<Rightarrow> pb_msg \<Rightarrow> (proxy_status, 'a os_scheme) prog"
where
  "sendRetStatus rt px type msg =
     andThen (FmuProxy_send rt px type msg) (\<lambda>reply. case reply of
       None \<Rightarrow> ret px_Fatal
     | Some r \<Rightarrow> getStatus r)"

section \<open>The methods\<close>

text \<open>An \<open>fmi2Boolean\<close> is an \<open>int\<close>.\<close>

definition to_bool :: "c_int \<Rightarrow> bool" where
  "to_bool i \<longleftrightarrow> i \<noteq> 0"

definition of_bool_int :: "bool \<Rightarrow> c_int" where
  "of_bool_int b = (if b then 1 else 0)"

definition FmuProxy_fmi2Instantiate ::
  "('a os_scheme) runtime \<Rightarrow> FmuProxy \<Rightarrow> string \<Rightarrow> string \<Rightarrow> string \<Rightarrow> string \<Rightarrow> c_int \<Rightarrow> c_int \<Rightarrow>
   (bool, 'a os_scheme) prog"
where
  "FmuProxy_fmi2Instantiate rt px instanceName fmuGUID fmuResourceLocation callbackAddress visible loggingOn =
     andThen (FmuProxy_send rt px cmd_fmi2Instantiate
       (Fmi2InstantiateRequest (c_str instanceName) (c_str fmuGUID) (c_str fmuResourceLocation)
          (to_bool visible) (to_bool loggingOn) (c_str callbackAddress))) (\<lambda>reply. case reply of
       None \<Rightarrow> ret False
     | Some r \<Rightarrow> andThen (getStatus r) (\<lambda>st. ret (st = px_OK)))"

definition FmuProxy_fmi2SetupExperiment ::
  "('a os_scheme) runtime \<Rightarrow> FmuProxy \<Rightarrow> c_int \<Rightarrow> c_double \<Rightarrow> c_double \<Rightarrow> c_int \<Rightarrow> c_double \<Rightarrow>
   (proxy_status, 'a os_scheme) prog"
where
  "FmuProxy_fmi2SetupExperiment rt px toleranceDefined tolerance startTime stopTimeDefined stopTime =
     sendRetStatus rt px cmd_fmi2SetupExperiment
       (Fmi2SetupExperimentRequest (to_bool toleranceDefined) tolerance startTime
          (to_bool stopTimeDefined) stopTime)"

definition FmuProxy_fmi2EnterInitializationMode ::
  "('a os_scheme) runtime \<Rightarrow> FmuProxy \<Rightarrow> (proxy_status, 'a os_scheme) prog" where
  "FmuProxy_fmi2EnterInitializationMode rt px = sendRetStatus rt px cmd_fmi2EnterInitializationMode Fmi2Empty"

definition FmuProxy_fmi2ExitInitializationMode ::
  "('a os_scheme) runtime \<Rightarrow> FmuProxy \<Rightarrow> (proxy_status, 'a os_scheme) prog" where
  "FmuProxy_fmi2ExitInitializationMode rt px = sendRetStatus rt px cmd_fmi2ExitInitializationMode Fmi2Empty"

definition FmuProxy_fmi2Terminate ::
  "('a os_scheme) runtime \<Rightarrow> FmuProxy \<Rightarrow> (proxy_status, 'a os_scheme) prog" where
  "FmuProxy_fmi2Terminate rt px = sendRetStatus rt px cmd_fmi2Terminate Fmi2Empty"

definition FmuProxy_fmi2Reset ::
  "('a os_scheme) runtime \<Rightarrow> FmuProxy \<Rightarrow> (proxy_status, 'a os_scheme) prog" where
  "FmuProxy_fmi2Reset rt px = sendRetStatus rt px cmd_fmi2Reset Fmi2Empty"

definition FmuProxy_fmi2SetDebugLogging ::
  "('a os_scheme) runtime \<Rightarrow> FmuProxy \<Rightarrow> c_int \<Rightarrow> nat \<Rightarrow> string list \<Rightarrow> (proxy_status, 'a os_scheme) prog"
where
  "FmuProxy_fmi2SetDebugLogging rt px loggingOn nCategories categories =
     andThen (need OutOfBounds (get_prefix categories (int nCategories))) (\<lambda>cs.
     sendRetStatus rt px cmd_fmi2SetDebugLogging
       (Fmi2SetDebugLoggingRequest (to_bool loggingOn) (of_nat nCategories) (map c_str cs)))"

text \<open>
  The get functions take the caller's \<open>value\<close> array and return it as they leave it. They write
  as many values as the reply holds, not \<open>nvr\<close>.
\<close>

definition createGetRequest :: "c_uint list \<Rightarrow> nat \<Rightarrow> (pb_msg, 's) prog" where
  "createGetRequest vr nvr =
     andThen (need OutOfBounds (get_prefix vr (int nvr))) (\<lambda>refs.
     ret (Fmi2GetRequest refs (of_nat nvr)))"

text \<open>What the four get functions share after the request: check the reply, copy the values.\<close>

definition get_values ::
  "('a os_scheme) runtime \<Rightarrow> FmuProxy \<Rightarrow> fmi2Command \<Rightarrow> (pb_msg \<Rightarrow> (bool \<times> 'v list) option) \<Rightarrow>
   c_uint list \<Rightarrow> nat \<Rightarrow> 'v list \<Rightarrow> (proxy_status \<times> 'v list, 'a os_scheme) prog"
where
  "get_values rt px type content vr nvr val =
     andThen (createGetRequest vr nvr) (\<lambda>request.
     andThen (FmuProxy_send rt px type request) (\<lambda>reply. case reply of
       None \<Rightarrow> ret (px_Fatal, val)
     | Some r \<Rightarrow> andThen (need BadHandle (content r)) (\<lambda>(valid, vs).
         if \<not> valid then ret (px_Fatal, val)
         else andThen (need OutOfBounds (put_prefix val vs)) (\<lambda>val'. ret (px_OK, val')))))"

fun real_values :: "pb_msg \<Rightarrow> (bool \<times> c_double list) option" where
  "real_values (Fmi2GetRealReply vs) = Some (True, vs)"
| "real_values _ = None"

fun integer_values :: "pb_msg \<Rightarrow> (bool \<times> c_int list) option" where
  "integer_values (Fmi2GetIntegerReply vs) = Some (True, vs)"
| "integer_values _ = None"

fun boolean_values :: "pb_msg \<Rightarrow> (bool \<times> c_int list) option" where
  "boolean_values (Fmi2GetBooleanReply vs) = Some (True, map of_bool_int vs)"
| "boolean_values _ = None"

fun string_values :: "pb_msg \<Rightarrow> (bool \<times> string list) option" where
  "string_values (Fmi2GetStringReply vs valid) = Some (valid, map c_str vs)"
| "string_values _ = None"

definition FmuProxy_fmi2GetReal ::
  "('a os_scheme) runtime \<Rightarrow> FmuProxy \<Rightarrow> c_uint list \<Rightarrow> nat \<Rightarrow> c_double list \<Rightarrow>
   (proxy_status \<times> c_double list, 'a os_scheme) prog" where
  "FmuProxy_fmi2GetReal rt px = get_values rt px cmd_fmi2GetReal real_values"

definition FmuProxy_fmi2GetInteger ::
  "('a os_scheme) runtime \<Rightarrow> FmuProxy \<Rightarrow> c_uint list \<Rightarrow> nat \<Rightarrow> c_int list \<Rightarrow>
   (proxy_status \<times> c_int list, 'a os_scheme) prog" where
  "FmuProxy_fmi2GetInteger rt px = get_values rt px cmd_fmi2GetInteger integer_values"

definition FmuProxy_fmi2GetBoolean ::
  "('a os_scheme) runtime \<Rightarrow> FmuProxy \<Rightarrow> c_uint list \<Rightarrow> nat \<Rightarrow> c_int list \<Rightarrow>
   (proxy_status \<times> c_int list, 'a os_scheme) prog" where
  "FmuProxy_fmi2GetBoolean rt px = get_values rt px cmd_fmi2GetBoolean boolean_values"

definition FmuProxy_fmi2GetString ::
  "('a os_scheme) runtime \<Rightarrow> FmuProxy \<Rightarrow> c_uint list \<Rightarrow> nat \<Rightarrow> string list \<Rightarrow>
   (proxy_status \<times> string list, 'a os_scheme) prog" where
  "FmuProxy_fmi2GetString rt px = get_values rt px cmd_fmi2GetString string_values"

text \<open>What the four set functions share: read \<open>nvr\<close> references, then \<open>nvr\<close> values, and send.\<close>

definition set_values ::
  "('a os_scheme) runtime \<Rightarrow> FmuProxy \<Rightarrow> fmi2Command \<Rightarrow> (c_int list \<Rightarrow> 'v list \<Rightarrow> pb_msg) \<Rightarrow>
   c_uint list \<Rightarrow> nat \<Rightarrow> 'v list \<Rightarrow> (proxy_status, 'a os_scheme) prog"
where
  "set_values rt px type request vr nvr val =
     andThen (need OutOfBounds (get_prefix vr (int nvr))) (\<lambda>refs.
     andThen (need OutOfBounds (get_prefix val (int nvr))) (\<lambda>vs.
     sendRetStatus rt px type (request refs vs)))"

definition FmuProxy_fmi2SetReal ::
  "('a os_scheme) runtime \<Rightarrow> FmuProxy \<Rightarrow> c_uint list \<Rightarrow> nat \<Rightarrow> c_double list \<Rightarrow>
   (proxy_status, 'a os_scheme) prog" where
  "FmuProxy_fmi2SetReal rt px = set_values rt px cmd_fmi2SetReal Fmi2SetRealRequest"

definition FmuProxy_fmi2SetInteger ::
  "('a os_scheme) runtime \<Rightarrow> FmuProxy \<Rightarrow> c_uint list \<Rightarrow> nat \<Rightarrow> c_int list \<Rightarrow>
   (proxy_status, 'a os_scheme) prog" where
  "FmuProxy_fmi2SetInteger rt px = set_values rt px cmd_fmi2SetInteger Fmi2SetIntegerRequest"

definition FmuProxy_fmi2SetBoolean ::
  "('a os_scheme) runtime \<Rightarrow> FmuProxy \<Rightarrow> c_uint list \<Rightarrow> nat \<Rightarrow> c_int list \<Rightarrow>
   (proxy_status, 'a os_scheme) prog" where
  "FmuProxy_fmi2SetBoolean rt px =
     set_values rt px cmd_fmi2SetBoolean (\<lambda>refs vs. Fmi2SetBooleanRequest refs (map to_bool vs))"

definition FmuProxy_fmi2SetString ::
  "('a os_scheme) runtime \<Rightarrow> FmuProxy \<Rightarrow> c_uint list \<Rightarrow> nat \<Rightarrow> string list \<Rightarrow>
   (proxy_status, 'a os_scheme) prog" where
  "FmuProxy_fmi2SetString rt px =
     set_values rt px cmd_fmi2SetString (\<lambda>refs vs. Fmi2SetStringRequest refs (map c_str vs))"

text \<open>The last argument, \<open>noSetFMUStatePriorToCurrentPoint\<close>, is not sent.\<close>

definition FmuProxy_fmi2DoStep ::
  "('a os_scheme) runtime \<Rightarrow> FmuProxy \<Rightarrow> c_double \<Rightarrow> c_double \<Rightarrow> c_int \<Rightarrow>
   (proxy_status, 'a os_scheme) prog" where
  "FmuProxy_fmi2DoStep rt px currentCommunicationPoint communicationStepSize noSetFMUState =
     sendRetStatus rt px cmd_fmi2DoStep
       (Fmi2DoStepRequest currentCommunicationPoint communicationStepSize)"

text \<open>A value returned through a pointer: the object's content after the call.\<close>

definition get_one ::
  "('a os_scheme) runtime \<Rightarrow> FmuProxy \<Rightarrow> fmi2Command \<Rightarrow> pb_msg \<Rightarrow> (pb_msg \<Rightarrow> 'v option) \<Rightarrow> 'v \<Rightarrow>
   (proxy_status \<times> 'v, 'a os_scheme) prog"
where
  "get_one rt px type request content v =
     andThen (FmuProxy_send rt px type request) (\<lambda>reply. case reply of
       None \<Rightarrow> ret (px_Fatal, v)
     | Some r \<Rightarrow> andThen (need BadHandle (content r)) (\<lambda>v'. ret (px_OK, v')))"

fun maxstepsize_of :: "pb_msg \<Rightarrow> c_double option" where
  "maxstepsize_of (Fmi2GetMaxStepSizeReply v) = Some v"
| "maxstepsize_of _ = None"

fun real_status_of :: "pb_msg \<Rightarrow> c_double option" where
  "real_status_of (Fmi2RealStatusReply v) = Some v"
| "real_status_of _ = None"

fun integer_status_of :: "pb_msg \<Rightarrow> c_int option" where
  "integer_status_of (Fmi2IntegerStatusReply v) = Some v"
| "integer_status_of _ = None"

fun boolean_status_of :: "pb_msg \<Rightarrow> c_int option" where
  "boolean_status_of (Fmi2BooleanStatusReply v) = Some (of_bool_int v)"
| "boolean_status_of _ = None"

fun string_status_of :: "pb_msg \<Rightarrow> string option" where
  "string_status_of (Fmi2StringStatusReply v) = Some (c_str v)"
| "string_status_of _ = None"

definition FmuProxy_fmi2GetMaxStepsize ::
  "('a os_scheme) runtime \<Rightarrow> FmuProxy \<Rightarrow> c_double \<Rightarrow> (proxy_status \<times> c_double, 'a os_scheme) prog" where
  "FmuProxy_fmi2GetMaxStepsize rt px = get_one rt px cmd_fmi2GetMaxStepSize Fmi2Empty maxstepsize_of"

fun createGetStatusRequest :: "proxy_status_kind \<Rightarrow> pb_msg" where
  "createGetStatusRequest px_DoStepStatus = Fmi2StatusRequest 0"
| "createGetStatusRequest px_LastSuccessfulTime = Fmi2StatusRequest 2"
| "createGetStatusRequest px_PendingStatus = Fmi2StatusRequest 1"
| "createGetStatusRequest px_Terminated = Fmi2StatusRequest 3"

definition FmuProxy_fmi2GetStatus ::
  "('a os_scheme) runtime \<Rightarrow> FmuProxy \<Rightarrow> proxy_status_kind \<Rightarrow> proxy_status \<Rightarrow>
   (proxy_status \<times> proxy_status, 'a os_scheme) prog" where
  "FmuProxy_fmi2GetStatus rt px k v =
     andThen (sendRetStatus rt px cmd_fmi2GetStatus (createGetStatusRequest k)) (\<lambda>st. ret (st, st))"

definition FmuProxy_fmi2GetRealStatus ::
  "('a os_scheme) runtime \<Rightarrow> FmuProxy \<Rightarrow> proxy_status_kind \<Rightarrow> c_double \<Rightarrow>
   (proxy_status \<times> c_double, 'a os_scheme) prog" where
  "FmuProxy_fmi2GetRealStatus rt px k =
     get_one rt px cmd_fmi2GetRealStatus (createGetStatusRequest k) real_status_of"

definition FmuProxy_fmi2GetIntegerStatus ::
  "('a os_scheme) runtime \<Rightarrow> FmuProxy \<Rightarrow> proxy_status_kind \<Rightarrow> c_int \<Rightarrow>
   (proxy_status \<times> c_int, 'a os_scheme) prog" where
  "FmuProxy_fmi2GetIntegerStatus rt px k =
     get_one rt px cmd_fmi2GetIntegerStatus (createGetStatusRequest k) integer_status_of"

definition FmuProxy_fmi2GetBooleanStatus ::
  "('a os_scheme) runtime \<Rightarrow> FmuProxy \<Rightarrow> proxy_status_kind \<Rightarrow> c_int \<Rightarrow>
   (proxy_status \<times> c_int, 'a os_scheme) prog" where
  "FmuProxy_fmi2GetBooleanStatus rt px k =
     get_one rt px cmd_fmi2GetBooleanStatus (createGetStatusRequest k) boolean_status_of"

definition FmuProxy_fmi2GetStringStatus ::
  "('a os_scheme) runtime \<Rightarrow> FmuProxy \<Rightarrow> proxy_status_kind \<Rightarrow> string \<Rightarrow>
   (proxy_status \<times> string, 'a os_scheme) prog" where
  "FmuProxy_fmi2GetStringStatus rt px k =
     get_one rt px cmd_fmi2GetStringStatus (createGetStatusRequest k) string_status_of"

text \<open>Freeing waits one millisecond for the reply and ignores it.\<close>

definition FmuProxy_fmi2FreeInstance ::
  "('a os_scheme) runtime \<Rightarrow> FmuProxy \<Rightarrow> (unit, 'a os_scheme) prog" where
  "FmuProxy_fmi2FreeInstance rt px =
     andThen (need OutOfBounds (request_message cmd_fmi2FreeInstance (rt_ser rt Fmi2Empty))) (\<lambda>m.
     andThen (IpcServer_send (rt_env rt) (proxy_server px) m 1) (\<lambda>_. ret ()))"

section \<open>Sending a request that fits\<close>

lemma request_fits_iff:
  "length bs < 2 ^ 32 \<Longrightarrow> request_fits bs \<longleftrightarrow> length bs \<le> 10000 \<or> 2 ^ 31 \<le> length bs"
proof -
  assume n: "length bs < 2 ^ 32"
  show ?thesis
  proof (cases "length bs < 2 ^ 31")
    case True
    then have "sint (of_nat (length bs) :: c_int) = int (length bs)" by (rule sint_of_nat_small)
    with True show ?thesis by (auto simp: request_fits_def SharedFmiBufferSize_def)
  next
    case False
    with n have "sint (of_nat (length bs) :: c_int) < 0"
      by (simp add: sint_of_nat_upper)
    with False show ?thesis by (simp add: request_fits_def SharedFmiBufferSize_def)
  qed
qed

lemma request_message_None_iff: "request_message c bs = None \<longleftrightarrow> 10000 < length bs"
  by (simp add: request_message_def with_payload_None_iff SharedFmiMessage_zero_def SharedFmiBufferSize_def)

lemma request_message_Some:
  assumes "request_message c bs = Some m"
  shows "cmd m = cmd_code c" and "msg_wf m" and "payload m = Some bs"
  using assms with_payload_cmd [of _ bs m] with_payload_wf [of _ bs m] payload_with_payload [of _ bs m]
  by (auto simp: request_message_def)

lemma request_small:
  assumes "length bs \<le> 10000"
  shows "request_fits bs" and "\<exists>m. request_message c bs = Some m"
  using assms request_fits_iff [of bs] request_message_None_iff [of c bs] by (simp, force)

context request_reply
begin

text \<open>One remote call, whatever the peer answers.\<close>

lemma rpc_reply:
  assumes "ready s" and "length (ser m) \<le> 10000" and "request_message c (ser m) = Some sm"
    and "h sm (far s) = Ret rep q"
  shows "\<exists>s'. ready s' \<and> far s' = q \<and>
    rpc call ser parse c m s =
      (case payload rep of None \<Rightarrow> Fault OutOfBounds | Some bs \<Rightarrow> Ret (Some (parse (reply_kind c) bs)) s')"
proof -
  from call_ready [of s sm rep q, OF assms(1,4)] obtain s' where
    s': "call sm s = Ret (Some rep) s'" "ready s'" "far s' = q" by blast
  have "rpc call ser parse c m s =
    (case payload rep of None \<Rightarrow> Fault OutOfBounds | Some bs \<Rightarrow> Ret (Some (parse (reply_kind c) bs)) s')"
    using request_small(1) [OF assms(2)] assms(3) s'(1)
    by (simp add: rpc_def andThen_def split: option.split)
  with s' show ?thesis by blast
qed

end

text \<open>
  The contract of a peer that speaks the protocol: \<open>serves q c m r q'\<close> says that in state \<open>q\<close> it
  answers the request \<open>m\<close> of command \<open>c\<close> by \<open>r\<close>. What its handler does with a message whose
  payload is the request is to leave the reply's encoding in the message it returns.
\<close>

locale typed_peer = request_reply call ready far h + protobuf_codec ser parse
  for call :: "SharedFmiMessage \<Rightarrow> (SharedFmiMessage option, 's) prog"
    and ready far and h :: "SharedFmiMessage \<Rightarrow> (SharedFmiMessage, 'p) prog" and ser parse +
  fixes serves :: "'p \<Rightarrow> fmi2Command \<Rightarrow> pb_msg \<Rightarrow> pb_msg \<Rightarrow> 'p \<Rightarrow> bool"
  assumes answers: "serves q c m r q' \<Longrightarrow> cmd sm = cmd_code c \<Longrightarrow> msg_wf sm \<Longrightarrow>
      payload sm = Some (ser m) \<Longrightarrow> \<exists>rep. h sm q = Ret rep q' \<and> payload rep = Some (ser r)"
    and reply_class: "serves q c m r q' \<Longrightarrow> kind_of r = reply_kind c \<and> pb_utf8 r"
begin

lemma rpc_serves:
  assumes "ready s" and "serves (far s) c m r q'" and "length (ser m) \<le> 10000"
  shows "\<exists>s'. rpc call ser parse c m s = Ret (Some r) s' \<and> ready s' \<and> far s' = q'"
proof -
  obtain sm where sm: "request_message c (ser m) = Some sm"
    using request_small(2) [OF assms(3)] by blast
  from answers [OF assms(2) request_message_Some [OF sm]] obtain rep where
    rep: "h sm (far s) = Ret rep q'" "payload rep = Some (ser r)" by blast
  have "parse (reply_kind c) (ser r) = r"
    using parse_ser_kind reply_class [OF assms(2)] by blast
  with rpc_reply [of s ser m c sm rep q' parse, OF assms(1,3) sm rep(1)] rep(2)
  show ?thesis by auto
qed

end

section \<open>A proxy and its peer\<close>

text \<open>
  A proxy whose server is connected to a peer of that contract: what its methods return, for any
  runtime and any such peer. The codes of a status come first.
\<close>

text \<open>The value of an enumerator, which is also its code in the protocol.\<close>

fun status_code :: "proxy_status \<Rightarrow> c_int" where
  "status_code px_OK = 0"
| "status_code px_Warning = 1"
| "status_code px_Discard = 2"
| "status_code px_Error = 3"
| "status_code px_Fatal = 4"
| "status_code px_Pending = 5"

lemma getStatus_code [simp]: "getStatus (Fmi2StatusReply (status_code st)) s = Ret st s"
  by (cases st) (simp_all add: getStatus_def Status_defs)

abbreviation runtime_of ::
  "(pb_msg \<Rightarrow> byte list) \<Rightarrow> (pb_kind \<Rightarrow> byte list \<Rightarrow> pb_msg) \<Rightarrow> 's env \<Rightarrow> 's runtime" where
  "runtime_of ser parse env \<equiv> \<lparr>rt_ser = ser, rt_parse = parse, rt_env = env\<rparr>"

locale proxy_peer = typed_peer "exchange env (proxy_server px) INFINITE" ready far h ser parse serves
  for env :: "('a os_scheme) env" and px :: FmuProxy and ready far and h :: "SharedFmiMessage \<Rightarrow> (SharedFmiMessage, 'p) prog"
    and ser parse serves
begin

abbreviation rt :: "('a os_scheme) runtime" where
  "rt \<equiv> runtime_of ser parse env"

lemma send:
  assumes "ready s" and "serves (far s) c m r q'" and "length (ser m) \<le> 10000"
  shows "\<exists>s'. FmuProxy_send rt px c m s = Ret (Some r) s' \<and> ready s' \<and> far s' = q'"
  using rpc_serves [OF assms] by (simp add: FmuProxy_send_def)

lemma send_status:
  assumes "ready s" and "serves (far s) c m (Fmi2StatusReply (status_code st)) q'"
    and "length (ser m) \<le> 10000"
  shows "\<exists>s'. sendRetStatus rt px c m s = Ret st s' \<and> ready s' \<and> far s' = q'"
proof -
  from send [OF assms] obtain s' where
    "FmuProxy_send rt px c m s = Ret (Some (Fmi2StatusReply (status_code st))) s'" "ready s'" "far s' = q'" by blast
  then show ?thesis by (simp add: sendRetStatus_def)
qed

lemma get_peer_values:
  assumes "ready s" and "serves (far s) c (Fmi2GetRequest ids (of_nat (length ids))) r q'"
    and "length (ser (Fmi2GetRequest ids (of_nat (length ids)))) \<le> 10000"
    and "content r = Some (True, vs)" and "length vs = length out"
  shows "\<exists>s'. get_values rt px c content ids (length ids) out s = Ret (px_OK, vs) s' \<and> ready s' \<and> far s' = q'"
  using send [OF assms(1-3)] assms(4,5) by (auto simp: get_values_def createGetRequest_def)

lemma set_get:
  assumes rest: "ready s"
    and set: "serves (far s) c (req ids vs) (Fmi2StatusReply (status_code px_OK)) q'"
    and len: "length vs = length ids" "length out = length ids" "length vs' = length ids"
    and get: "serves q' c' (Fmi2GetRequest ids (of_nat (length ids))) r q''"
    and fits: "length (ser (req ids vs)) \<le> 10000"
      "length (ser (Fmi2GetRequest ids (of_nat (length ids)))) \<le> 10000"
    and content: "content r = Some (True, vs')"
  shows "\<exists>s1 s2. set_values rt px c req ids (length ids) vs s = Ret px_OK s1 \<and>
    get_values rt px c' content ids (length ids) out s1 = Ret (px_OK, vs') s2 \<and> ready s2 \<and> far s2 = q''"
proof -
  from send_status [OF rest set fits(1)] obtain s1 where
    s1: "sendRetStatus rt px c (req ids vs) s = Ret px_OK s1" "ready s1" "far s1 = q'" by blast
  have "set_values rt px c req ids (length ids) vs s = Ret px_OK s1"
    using s1(1) len(1) get_prefix_all [of vs] by (simp add: set_values_def)
  moreover have "\<exists>s2. get_values rt px c' content ids (length ids) out s1 = Ret (px_OK, vs') s2 \<and>
      ready s2 \<and> far s2 = q''"
    by (rule get_peer_values [of s1 c' ids r q'' content vs' out, OF s1(2) _ fits(2) content])
      (use s1 get len in simp_all)
  ultimately show ?thesis by blast
qed

end


lemma getStatus_other:
  "n \<notin> range status_code \<Longrightarrow> getStatus (Fmi2StatusReply n) s = Ret px_Fatal s"
  by (auto simp: getStatus_def Status_defs image_iff)
    (metis status_code.simps)+

end
