(* ===== verification/Wire.thy ===== *)
theory Wire
  imports Proto
begin

text \<open>
  The wire format of proto3 for the messages of service.proto: fields with their numbers,
  variable-length integers, 64-bit and length-delimited values, packed repeated fields, defaults
  left out. It is an instance of the runtime's interface: with it the hypotheses about protobuf
  are seen to hold together, and closed examples can be computed.
\<close>

section \<open>Integers and bytes\<close>

fun enc_varint :: "nat \<Rightarrow> byte list" where
  "enc_varint n = (if n < 128 then [of_nat n] else of_nat (128 + n mod 128) # enc_varint (n div 128))"

declare enc_varint.simps [simp del]

fun dec_varint :: "byte list \<Rightarrow> (nat \<times> byte list) option" where
  "dec_varint [] = None"
| "dec_varint (b # bs) =
     (if unat b < 128 then Some (unat b, bs)
      else case dec_varint bs of None \<Rightarrow> None | Some (n, r) \<Rightarrow> Some (unat b - 128 + 128 * n, r))"

lemma unat_byte: "n < 256 \<Longrightarrow> unat (of_nat n :: byte) = n"
  by (simp add: unat_of_nat)

lemma dec_enc_varint [simp]: "dec_varint (enc_varint n @ r) = Some (n, r)"
proof (induction n rule: enc_varint.induct)
  case (1 n)
  show ?case
  proof (cases "n < 128")
    case True
    then show ?thesis by (subst enc_varint.simps) (simp add: unat_byte)
  next
    case False
    then have "unat (of_nat (128 + n mod 128) :: byte) = 128 + n mod 128"
      by (intro unat_byte) simp
    with False 1 show ?thesis by (subst enc_varint.simps) simp
  qed
qed

lemma dec_varint_shorter: "dec_varint bs = Some (n, r) \<Longrightarrow> length r < length bs"
  by (induction bs arbitrary: n r) (fastforce split: if_splits option.splits)+

lemma enc_varint_nonempty [simp]: "enc_varint n \<noteq> []"
  by (subst enc_varint.simps) simp

fun enc_le :: "nat \<Rightarrow> nat \<Rightarrow> byte list" where
  "enc_le 0 n = []"
| "enc_le (Suc k) n = of_nat (n mod 256) # enc_le k (n div 256)"

fun dec_le :: "byte list \<Rightarrow> nat" where
  "dec_le [] = 0"
| "dec_le (b # bs) = unat b + 256 * dec_le bs"

lemma length_enc_le [simp]: "length (enc_le k n) = k"
  by (induction k arbitrary: n) auto

lemma dec_enc_le: "n < 256 ^ k \<Longrightarrow> dec_le (enc_le k n) = n"
  by (induction k arbitrary: n) (auto simp: unat_byte less_mult_imp_div_less)

definition enc_string :: "string \<Rightarrow> byte list" where
  "enc_string s = map (\<lambda>c. of_nat (of_char c)) s"

definition dec_string :: "byte list \<Rightarrow> string" where
  "dec_string bs = map (\<lambda>b. char_of (unat b)) bs"

lemma char_code_lt: "of_char c < (256 :: nat)"
  by simp

lemma dec_enc_string [simp]: "dec_string (enc_string s) = s"
  by (induction s) (simp_all add: dec_string_def enc_string_def unat_byte char_code_lt)

lemma enc_string_nil [simp]: "enc_string s = [] \<longleftrightarrow> s = []"
  by (simp add: enc_string_def)

section \<open>Fields\<close>

datatype wire = VI "64 word" | I64 "64 word" | LEN "byte list"

fun enc_field :: "nat \<times> wire \<Rightarrow> byte list" where
  "enc_field (k, VI w) = enc_varint (8 * k) @ enc_varint (unat w)"
| "enc_field (k, I64 w) = enc_varint (8 * k + 1) @ enc_le 8 (unat w)"
| "enc_field (k, LEN bs) = enc_varint (8 * k + 2) @ enc_varint (length bs) @ bs"

definition enc_fields :: "(nat \<times> wire) list \<Rightarrow> byte list" where
  "enc_fields fs = concat (map enc_field fs)"

definition dec_field :: "byte list \<Rightarrow> ((nat \<times> wire) \<times> byte list) option" where
  "dec_field bs =
     (case dec_varint bs of None \<Rightarrow> None | Some (tag, r) \<Rightarrow>
        if tag mod 8 = 0 then
          (case dec_varint r of None \<Rightarrow> None | Some (n, r2) \<Rightarrow> Some ((tag div 8, VI (of_nat n)), r2))
        else if tag mod 8 = 1 then
          (if length r < 8 then None
           else Some ((tag div 8, I64 (of_nat (dec_le (take 8 r)))), drop 8 r))
        else if tag mod 8 = 2 then
          (case dec_varint r of None \<Rightarrow> None | Some (n, r2) \<Rightarrow>
             if length r2 < n then None else Some ((tag div 8, LEN (take n r2)), drop n r2))
        else None)"

lemma dec_field_shorter: "dec_field bs = Some (f, r) \<Longrightarrow> length r < length bs"
  by (fastforce simp: dec_field_def dest!: dec_varint_shorter split: option.splits if_splits prod.splits)

text \<open>Parsing stops at the first malformed field and keeps what it has.\<close>

function dec_fields :: "byte list \<Rightarrow> (nat \<times> wire) list" where
  "dec_fields bs = (case dec_field bs of None \<Rightarrow> [] | Some (f, r) \<Rightarrow> f # dec_fields r)"
  by pat_completeness auto
termination
  by (relation "measure length") (auto dest: dec_field_shorter)

declare dec_fields.simps [simp del]

lemma unat_less_256_8: "unat (w :: 64 word) < 256 ^ 8"
  using unsigned_less [of w] by simp

lemma of_nat_dec_enc_8 [simp]: "of_nat (dec_le (enc_le 8 (unat (w :: 64 word)))) = w"
  by (subst dec_enc_le [OF unat_less_256_8]) simp

lemma dec_enc_field [simp]: "dec_field (enc_field f @ r) = Some (f, r)"
proof (cases f)
  case (Pair k v)
  have "(8 * k + 1) mod 8 = 1" and "(8 * k + 2) mod 8 = 2" and "(8 * k + 1) div 8 = k"
    and "(8 * k + 2) div 8 = k" by presburger+
  with Pair show ?thesis
    by (cases v) (simp_all add: dec_field_def)
qed

lemma dec_field_nil [simp]: "dec_field [] = None"
  by (simp add: dec_field_def)

lemma dec_enc_fields [simp]: "dec_fields (enc_fields fs) = fs"
  by (induction fs) (simp_all add: enc_fields_def dec_fields.simps [of "[]"]
      dec_fields.simps [of "enc_field f @ r" for f r])

section \<open>Field values of messages\<close>

text \<open>Scalars are left out at their default, and the last occurrence counts when parsing.\<close>

definition put_vi :: "nat \<Rightarrow> 64 word \<Rightarrow> (nat \<times> wire) list" where
  "put_vi k w = (if w = 0 then [] else [(k, VI w)])"

definition put_int :: "nat \<Rightarrow> c_int \<Rightarrow> (nat \<times> wire) list" where
  "put_int k i = put_vi k (scast i)"

definition put_bool :: "nat \<Rightarrow> bool \<Rightarrow> (nat \<times> wire) list" where
  "put_bool k b = put_vi k (if b then 1 else 0)"

definition put_dbl :: "nat \<Rightarrow> c_double \<Rightarrow> (nat \<times> wire) list" where
  "put_dbl k d = (if d = 0 then [] else [(k, I64 d)])"

definition put_str :: "nat \<Rightarrow> string \<Rightarrow> (nat \<times> wire) list" where
  "put_str k s = (if s = [] then [] else [(k, LEN (enc_string s))])"

definition put_strs :: "nat \<Rightarrow> string list \<Rightarrow> (nat \<times> wire) list" where
  "put_strs k ss = map (\<lambda>s. (k, LEN (enc_string s))) ss"

definition put_packed :: "nat \<Rightarrow> ('a \<Rightarrow> byte list) \<Rightarrow> 'a list \<Rightarrow> (nat \<times> wire) list" where
  "put_packed k enc xs = (if xs = [] then [] else [(k, LEN (concat (map enc xs)))])"

definition enc_int :: "c_int \<Rightarrow> byte list" where
  "enc_int i = enc_varint (unat (scast i :: 64 word))"

definition enc_bool :: "bool \<Rightarrow> byte list" where
  "enc_bool b = enc_varint (if b then 1 else 0)"

definition enc_dbl :: "c_double \<Rightarrow> byte list" where
  "enc_dbl d = enc_le 8 (unat d)"

fun vis :: "nat \<Rightarrow> (nat \<times> wire) list \<Rightarrow> 64 word list" where
  "vis k [] = []"
| "vis k ((j, v) # fs) = (case v of VI w \<Rightarrow> if j = k then w # vis k fs else vis k fs | _ \<Rightarrow> vis k fs)"

fun i64s :: "nat \<Rightarrow> (nat \<times> wire) list \<Rightarrow> 64 word list" where
  "i64s k [] = []"
| "i64s k ((j, v) # fs) = (case v of I64 w \<Rightarrow> if j = k then w # i64s k fs else i64s k fs | _ \<Rightarrow> i64s k fs)"

fun lens :: "nat \<Rightarrow> (nat \<times> wire) list \<Rightarrow> byte list list" where
  "lens k [] = []"
| "lens k ((j, v) # fs) = (case v of LEN b \<Rightarrow> if j = k then b # lens k fs else lens k fs | _ \<Rightarrow> lens k fs)"

definition last_or :: "'a \<Rightarrow> 'a list \<Rightarrow> 'a" where
  "last_or d xs = (if xs = [] then d else last xs)"

definition get_int :: "nat \<Rightarrow> (nat \<times> wire) list \<Rightarrow> c_int" where
  "get_int k fs = ucast (last_or 0 (vis k fs))"

definition get_bool :: "nat \<Rightarrow> (nat \<times> wire) list \<Rightarrow> bool" where
  "get_bool k fs \<longleftrightarrow> last_or 0 (vis k fs) \<noteq> 0"

definition get_dbl :: "nat \<Rightarrow> (nat \<times> wire) list \<Rightarrow> c_double" where
  "get_dbl k fs = last_or 0 (i64s k fs)"

definition get_str :: "nat \<Rightarrow> (nat \<times> wire) list \<Rightarrow> string" where
  "get_str k fs = dec_string (last_or [] (lens k fs))"

definition get_strs :: "nat \<Rightarrow> (nat \<times> wire) list \<Rightarrow> string list" where
  "get_strs k fs = map dec_string (lens k fs)"

function dec_varints :: "byte list \<Rightarrow> nat list" where
  "dec_varints bs = (case dec_varint bs of None \<Rightarrow> [] | Some (n, r) \<Rightarrow> n # dec_varints r)"
  by pat_completeness auto
termination
  by (relation "measure length") (auto dest: dec_varint_shorter)

declare dec_varints.simps [simp del]

function dec_dbls :: "byte list \<Rightarrow> c_double list" where
  "dec_dbls bs = (if length bs < 8 then [] else of_nat (dec_le (take 8 bs)) # dec_dbls (drop 8 bs))"
  by pat_completeness auto
termination
  by (relation "measure length") auto

declare dec_dbls.simps [simp del]

definition get_ints :: "nat \<Rightarrow> (nat \<times> wire) list \<Rightarrow> c_int list" where
  "get_ints k fs = map of_nat (dec_varints (concat (lens k fs)))"

definition get_bools :: "nat \<Rightarrow> (nat \<times> wire) list \<Rightarrow> bool list" where
  "get_bools k fs = map (\<lambda>n. n \<noteq> 0) (dec_varints (concat (lens k fs)))"

definition get_dbls :: "nat \<Rightarrow> (nat \<times> wire) list \<Rightarrow> c_double list" where
  "get_dbls k fs = dec_dbls (concat (lens k fs))"

lemma dec_varints_enc: "dec_varints (concat (map (\<lambda>x. enc_varint (f x)) xs)) = map f xs"
  by (induction xs) (simp_all add: dec_varints.simps [of "[]"]
      dec_varints.simps [of "enc_varint n @ r" for n r])

lemma dec_dbls_enc: "dec_dbls (concat (map enc_dbl xs)) = xs"
  by (induction xs) (simp_all add: enc_dbl_def dec_dbls.simps [of "[]"]
      dec_dbls.simps [of "enc_le 8 n @ r" for n r])

lemma ucast_scast_int [simp]: "ucast (scast (i :: c_int) :: 64 word) = i"
  by (rule bit_word_eqI) (simp add: bit_simps)

lemma scast_int_0 [simp]: "(scast (i :: c_int) :: 64 word) = 0 \<longleftrightarrow> i = 0"
  by (metis ucast_scast_int scast_0 ucast_0)

lemma of_nat_unat_scast [simp]: "(of_nat (unat (scast (i :: c_int) :: 64 word)) :: c_int) = i"
  by (simp only: of_nat_unat ucast_scast_int)

lemmas wire_puts = put_vi_def put_int_def put_bool_def put_dbl_def put_str_def put_strs_def put_packed_def

lemma vis_append [simp]: "vis k (fs @ gs) = vis k fs @ vis k gs"
  by (induction k fs rule: vis.induct) (auto split: wire.splits)

lemma i64s_append [simp]: "i64s k (fs @ gs) = i64s k fs @ i64s k gs"
  by (induction k fs rule: i64s.induct) (auto split: wire.splits)

lemma lens_append [simp]: "lens k (fs @ gs) = lens k fs @ lens k gs"
  by (induction k fs rule: lens.induct) (auto split: wire.splits)

lemma lens_put_strs [simp]: "lens k (put_strs j ss) = (if j = k then map enc_string ss else [])"
  by (induction ss) (auto simp: put_strs_def)

lemma no_scalars_in_put_strs [simp]: "vis k (put_strs j ss) = []" "i64s k (put_strs j ss) = []"
  by (induction ss) (auto simp: put_strs_def)

text \<open>What each kind of field contributes to each kind of reading.\<close>

lemma reads [simp]:
  "vis k (put_int j i) = (if j = k \<and> i \<noteq> 0 then [scast i] else [])"
  "vis k (put_bool j b) = (if j = k \<and> b then [1] else [])"
  "vis k (put_dbl j d) = []" "vis k (put_str j s) = []" "vis k (put_packed j e xs) = []"
  "i64s k (put_int j i) = []" "i64s k (put_bool j b) = []"
  "i64s k (put_dbl j d) = (if j = k \<and> d \<noteq> 0 then [d] else [])"
  "i64s k (put_str j s) = []" "i64s k (put_packed j e xs) = []"
  "lens k (put_int j i) = []" "lens k (put_bool j b) = []" "lens k (put_dbl j d) = []"
  "lens k (put_str j s) = (if j = k \<and> s \<noteq> [] then [enc_string s] else [])"
  "lens k (put_packed j e xs) = (if j = k \<and> xs \<noteq> [] then [concat (map e xs)] else [])"
  by (simp_all add: wire_puts)

lemma last_or_simps [simp]:
  "last_or d [] = d" "last_or d [x] = x"
  by (simp_all add: last_or_def)

text \<open>
  A field that is a message, here always a status: absent, or the encoding of the message as bytes. Where
  it occurs more than once the parser merges the occurrences, which is to parse them one behind the other.
\<close>

definition put_status :: "nat \<Rightarrow> c_int option \<Rightarrow> (nat \<times> wire) list" where
  "put_status k st = (case st of None \<Rightarrow> [] | Some v \<Rightarrow> [(k, LEN (enc_fields (put_int 1 v)))])"

definition get_status :: "nat \<Rightarrow> (nat \<times> wire) list \<Rightarrow> c_int option" where
  "get_status k fs =
     (case lens k fs of [] \<Rightarrow> None | bss \<Rightarrow> Some (get_int 1 (dec_fields (concat bss))))"

lemma status_fields [simp]:
  "vis k (put_status j st) = []" "i64s k (put_status j st) = []"
  "lens k (put_status j st) = (case st of None \<Rightarrow> [] | Some v \<Rightarrow> if j = k then [enc_fields (put_int 1 v)] else [])"
  by (auto simp: put_status_def split: option.split)

section \<open>Messages\<close>

fun to_fields :: "pb_msg \<Rightarrow> (nat \<times> wire) list" where
  "to_fields Fmi2Empty = []"
| "to_fields (Fmi2SetupExperimentRequest td t st sd sp) =
     put_bool 1 td @ put_dbl 2 t @ put_dbl 3 st @ put_bool 4 sd @ put_dbl 5 sp"
| "to_fields (Fmi2SetDebugLoggingRequest on n cs) = put_bool 1 on @ put_int 2 n @ put_strs 3 cs"
| "to_fields (Fmi2GetRequest vr n) = put_packed 1 enc_int vr @ put_int 2 n"
| "to_fields (Fmi2GetRealReply vs) = put_packed 1 enc_dbl vs"
| "to_fields (Fmi2GetIntegerReply vs) = put_packed 1 enc_int vs"
| "to_fields (Fmi2GetBooleanReply vs) = put_packed 1 enc_bool vs"
| "to_fields (Fmi2GetStringReply vs ok) = put_strs 1 vs @ put_bool 2 ok"
| "to_fields (Fmi2SetRealRequest vr vs) = put_packed 1 enc_int vr @ put_packed 2 enc_dbl vs"
| "to_fields (Fmi2SetIntegerRequest vr vs) = put_packed 1 enc_int vr @ put_packed 2 enc_int vs"
| "to_fields (Fmi2SetBooleanRequest vr vs) = put_packed 1 enc_int vr @ put_packed 2 enc_bool vs"
| "to_fields (Fmi2SetStringRequest vr vs) = put_packed 1 enc_int vr @ put_strs 2 vs"
| "to_fields (Fmi2DoStepRequest c h) = put_dbl 1 c @ put_dbl 2 h"
| "to_fields (Fmi2InstantiateRequest n g r v l cb) =
     put_str 1 n @ put_str 2 g @ put_str 3 r @ put_bool 4 v @ put_bool 5 l @ put_str 6 cb"
| "to_fields (Fmi2StatusReply st) = put_int 1 st"
| "to_fields (Fmi2StatusRequest st) = put_int 1 st"
| "to_fields (Fmi2RealStatusReply v) = put_dbl 1 v"
| "to_fields (Fmi2IntegerStatusReply v) = put_int 1 v"
| "to_fields (Fmi2BooleanStatusReply v) = put_bool 1 v"
| "to_fields (Fmi2StringStatusReply v) = put_str 1 v"
| "to_fields (Fmi2GetMaxStepSizeReply v) = put_dbl 1 v"
| "to_fields (Fmi2LogReply v st c) = put_str 1 v @ put_int 2 st @ put_str 3 c"
| "to_fields (Fmi2LogRequest n st c m) = put_str 1 n @ put_status 2 st @ put_str 3 c @ put_str 4 m"

fun of_fields :: "pb_kind \<Rightarrow> (nat \<times> wire) list \<Rightarrow> pb_msg" where
  "of_fields K_Empty fs = Fmi2Empty"
| "of_fields K_SetupExperimentRequest fs =
     Fmi2SetupExperimentRequest (get_bool 1 fs) (get_dbl 2 fs) (get_dbl 3 fs) (get_bool 4 fs) (get_dbl 5 fs)"
| "of_fields K_SetDebugLoggingRequest fs =
     Fmi2SetDebugLoggingRequest (get_bool 1 fs) (get_int 2 fs) (get_strs 3 fs)"
| "of_fields K_GetRequest fs = Fmi2GetRequest (get_ints 1 fs) (get_int 2 fs)"
| "of_fields K_GetRealReply fs = Fmi2GetRealReply (get_dbls 1 fs)"
| "of_fields K_GetIntegerReply fs = Fmi2GetIntegerReply (get_ints 1 fs)"
| "of_fields K_GetBooleanReply fs = Fmi2GetBooleanReply (get_bools 1 fs)"
| "of_fields K_GetStringReply fs = Fmi2GetStringReply (get_strs 1 fs) (get_bool 2 fs)"
| "of_fields K_SetRealRequest fs = Fmi2SetRealRequest (get_ints 1 fs) (get_dbls 2 fs)"
| "of_fields K_SetIntegerRequest fs = Fmi2SetIntegerRequest (get_ints 1 fs) (get_ints 2 fs)"
| "of_fields K_SetBooleanRequest fs = Fmi2SetBooleanRequest (get_ints 1 fs) (get_bools 2 fs)"
| "of_fields K_SetStringRequest fs = Fmi2SetStringRequest (get_ints 1 fs) (get_strs 2 fs)"
| "of_fields K_DoStepRequest fs = Fmi2DoStepRequest (get_dbl 1 fs) (get_dbl 2 fs)"
| "of_fields K_InstantiateRequest fs =
     Fmi2InstantiateRequest (get_str 1 fs) (get_str 2 fs) (get_str 3 fs) (get_bool 4 fs)
       (get_bool 5 fs) (get_str 6 fs)"
| "of_fields K_StatusReply fs = Fmi2StatusReply (get_int 1 fs)"
| "of_fields K_StatusRequest fs = Fmi2StatusRequest (get_int 1 fs)"
| "of_fields K_RealStatusReply fs = Fmi2RealStatusReply (get_dbl 1 fs)"
| "of_fields K_IntegerStatusReply fs = Fmi2IntegerStatusReply (get_int 1 fs)"
| "of_fields K_BooleanStatusReply fs = Fmi2BooleanStatusReply (get_bool 1 fs)"
| "of_fields K_StringStatusReply fs = Fmi2StringStatusReply (get_str 1 fs)"
| "of_fields K_GetMaxStepSizeReply fs = Fmi2GetMaxStepSizeReply (get_dbl 1 fs)"
| "of_fields K_LogReply fs = Fmi2LogReply (get_str 1 fs) (get_int 2 fs) (get_str 3 fs)"
| "of_fields K_LogRequest fs = Fmi2LogRequest (get_str 1 fs) (get_status 2 fs) (get_str 3 fs) (get_str 4 fs)"

lemmas wire_gets = get_int_def get_bool_def get_dbl_def get_str_def get_strs_def get_ints_def
  get_bools_def get_dbls_def

lemma dec_varints_nil [simp]: "dec_varints [] = []"
  by (simp add: dec_varints.simps)

lemma dec_dbls_nil [simp]: "dec_dbls [] = []"
  by (simp add: dec_dbls.simps)

lemma dec_string_nil [simp]: "dec_string [] = []"
  by (simp add: dec_string_def)

lemma enc_int_list [simp]: "map of_nat (dec_varints (concat (map enc_int xs))) = xs"
proof -
  have "dec_varints (concat (map enc_int xs)) = map (\<lambda>i. unat (scast i :: 64 word)) xs"
    using dec_varints_enc [of "\<lambda>i. unat (scast i :: 64 word)" xs]
    by (simp add: enc_int_def [abs_def])
  then show ?thesis by (simp add: comp_def)
qed

lemma enc_bool_list [simp]: "map (\<lambda>n. n \<noteq> 0) (dec_varints (concat (map enc_bool xs))) = xs"
proof -
  have "dec_varints (concat (map enc_bool xs)) = map (\<lambda>b. if b then 1 else 0) xs"
    using dec_varints_enc [of "\<lambda>b. if b then 1 else 0" xs]
    by (simp add: enc_bool_def [abs_def])
  then show ?thesis by (simp add: comp_def)
qed

lemma enc_bool_list_pos [simp]: "map ((<) 0) (dec_varints (concat (map enc_bool xs))) = xs"
  using enc_bool_list [of xs] by simp

lemma of_to_fields: "of_fields (kind_of m) (to_fields m) = m"
  by (cases m) (auto simp: wire_gets get_status_def dec_dbls_enc comp_def split: option.split)

definition wire_ser :: "pb_msg \<Rightarrow> byte list" where
  "wire_ser m = enc_fields (to_fields m)"

definition wire_parse :: "pb_kind \<Rightarrow> byte list \<Rightarrow> pb_msg" where
  "wire_parse k bs = of_fields k (dec_fields bs)"

lemma kind_of_fields: "kind_of (of_fields k fs) = k"
  by (cases k) simp_all

interpretation wire: protobuf_codec wire_ser wire_parse
proof unfold_locales
  show "wire_parse (kind_of m) (wire_ser m) = m" for m
    by (simp add: wire_parse_def wire_ser_def of_to_fields)
  show "kind_of (wire_parse k bs) = k" for k bs
    by (simp add: wire_parse_def kind_of_fields)
  show "wire_ser (pb_default k) = []" for k
    by (cases k) (simp_all add: wire_ser_def enc_fields_def wire_puts put_status_def)
qed

end
