(* ===== verification/JniPeer.thy ===== *)
theory JniPeer
  imports FmuProxy Rendezvous Wire
begin

text \<open>
  The native methods of the Java server (shmfmi-server/src/main/native/sharedmemory.cpp and
  sharedmemoryserver.cpp): the client through which the Java program takes requests and answers them,
  and the server through which it sends its log messages. The Java program itself is a parameter.
\<close>

section \<open>The client's methods\<close>

text \<open>
  The library's global variables, beside the operating system and the state of the Java program.
\<close>

record 'p jni = "'p world" +
  g_client :: "IpcClient option"
  g_clientDebug :: bool
  g_server :: "IpcServer option"
  g_serverDebug :: bool

definition jni_setDebug :: "bool \<Rightarrow> (unit, ('p, 'z) jni_scheme) prog" where
  "jni_setDebug on s = Ret () (s\<lparr>g_clientDebug := on\<rparr>)"

text \<open>An earlier client is overwritten, not deleted.\<close>

definition jni_setId :: "unix \<Rightarrow> string \<Rightarrow> (bool, ('p, 'z) jni_scheme) prog" where
  "jni_setId u idString s =
     (let client = IpcClient_new 0 idString;
          client = (if g_clientDebug s then enableConsoleDebug client else client)
      in case IpcClient_connect u client s of
        (success, client, s) \<Rightarrow>
          if success then Ret True (s\<lparr>g_client := Some client\<rparr>)
          else andThen (IpcClient_delete u client) (\<lambda>_ s. Ret False (s\<lparr>g_client := None\<rparr>))
                 (s\<lparr>g_client := Some client\<rparr>))"

definition jni_waitForWatchDogEvent :: "(('p, 'z) jni_scheme) env \<Rightarrow> (bool, ('p, 'z) jni_scheme) prog" where
  "jni_waitForWatchDogEvent env s =
     (case g_client s of
        None \<Rightarrow> Ret False s
      | Some client \<Rightarrow> andThen (waitForWatchDogEvent env client INFINITE) (\<lambda>_. ret True) s)"

text \<open>
  \<open>read\<close> waits five milliseconds; the command goes into the first byte of the caller's array and the
  payload into a new one. \<open>room n\<close> says whether the virtual machine can make an array of that length;
  it makes none of a negative length.
\<close>

definition jni_read ::
  "(int \<Rightarrow> bool) \<Rightarrow> (('p, 'z) jni_scheme) env \<Rightarrow> byte list \<Rightarrow>
   (byte list option \<times> byte list, ('p, 'z) jni_scheme) prog"
where
  "jni_read room env types s =
     andThen (need NullDeref (g_client s)) (\<lambda>client.
     andThen (getMessage env client 5) (\<lambda>msg. case msg of
       None \<Rightarrow> ret (None, types)
     | Some p \<Rightarrow>
         andThen (load_msg p) (\<lambda>msg.
         if types = [] then fail OutOfBounds
         else
           let types = types[0 := ucast (cmd msg)];
               size = sint (protoBufMsgSize msg)
           in if size < 0 \<or> \<not> room size then ret (None, types)
              else andThen (need OutOfBounds (payload msg)) (\<lambda>fill. ret (Some fill, types))))) s"

definition jni_message :: "c_int \<Rightarrow> byte list \<Rightarrow> SharedFmiMessage option" where
  "jni_message type bytes = with_payload (SharedFmiMessage_zero\<lparr>cmd := type\<rparr>) bytes"

definition jni_send :: "c_int \<Rightarrow> byte list \<Rightarrow> (unit, ('p, 'z) jni_scheme) prog" where
  "jni_send type bytes s =
     andThen (need OutOfBounds (jni_message type bytes)) (\<lambda>msg.
     andThen (need NullDeref (g_client s)) (\<lambda>client. sendReply client msg)) s"

definition jni_stop :: "unix \<Rightarrow> (unit, ('p, 'z) jni_scheme) prog" where
  "jni_stop u s =
     andThen (case g_client s of None \<Rightarrow> ret () | Some client \<Rightarrow> IpcClient_delete u client)
       (\<lambda>_ s. Ret () (s\<lparr>g_client := None\<rparr>)) s"

definition jni_getBufferSize :: c_int where
  "jni_getBufferSize = of_nat SharedFmiBufferSize"

section \<open>The server's methods\<close>

definition jni_setServerDebug :: "bool \<Rightarrow> (unit, ('p, 'z) jni_scheme) prog" where
  "jni_setServerDebug on s = Ret () (s\<lparr>g_serverDebug := on\<rparr>)"

definition jni_serverStart :: "unix \<Rightarrow> string \<Rightarrow> (bool, ('p, 'z) jni_scheme) prog" where
  "jni_serverStart u shmKey s =
     (let server = IpcServer_new 0 shmKey;
          server = (if g_serverDebug s then enableConsoleDebug server else server)
      in case IpcServer_create u server s of
        (success, server, s) \<Rightarrow>
          if success then Ret True (s\<lparr>g_server := Some server\<rparr>)
          else andThen (IpcServer_delete u server) (\<lambda>_ s. Ret False (s\<lparr>g_server := None\<rparr>))
                 (s\<lparr>g_server := Some server\<rparr>))"

text \<open>The reply is not looked at; the wait is 20 milliseconds.\<close>

definition jni_serverSend ::
  "(('p, 'z) jni_scheme) env \<Rightarrow> c_int \<Rightarrow> byte list \<Rightarrow> (unit, ('p, 'z) jni_scheme) prog" where
  "jni_serverSend env type bytes s =
     andThen (need OutOfBounds (jni_message type bytes)) (\<lambda>msg.
     andThen (need NullDeref (g_server s)) (\<lambda>server.
     andThen (IpcServer_send env server msg 20) (\<lambda>reply. ret ()))) s"

definition jni_serverStop :: "unix \<Rightarrow> (unit, ('p, 'z) jni_scheme) prog" where
  "jni_serverStop u s =
     andThen (case g_server s of None \<Rightarrow> ret () | Some server \<Rightarrow> IpcServer_delete u server)
       (\<lambda>_ s. Ret () (s\<lparr>g_server := None\<rparr>)) s"

definition jni_getServerBufferSize :: c_int where
  "jni_getServerBufferSize = of_nat SharedFmiBufferSize"

section \<open>The Java program at the other end\<close>

text \<open>
  What the Java program does with a message is a parameter: \<open>java type bytes q\<close> is its answer in state
  \<open>q\<close>, if it has one, and its next state. One pass of its loop reads with an array of one byte, and
  answers under the type it read.
\<close>

definition java_turn ::
  "(int \<Rightarrow> bool) \<Rightarrow> (byte \<Rightarrow> byte list \<Rightarrow> 'p \<Rightarrow> byte list option \<times> 'p) \<Rightarrow> (('p, 'z) jni_scheme) env \<Rightarrow>
   (unit, ('p, 'z) jni_scheme) prog"
where
  "java_turn room java env =
     andThen (jni_read room env [0]) (\<lambda>(bytes, types) s. case bytes of
       None \<Rightarrow> Ret () s
     | Some bs \<Rightarrow>
         (case java (hd types) bs (peer s) of
            (None, q) \<Rightarrow> Ret () (s\<lparr>peer := q\<rparr>)
          | (Some reply, q) \<Rightarrow> jni_send (scast (hd types)) reply (s\<lparr>peer := q\<rparr>)))"

text \<open>As what happens while another process waits: the pass runs when there is a message.\<close>

definition java_env ::
  "(int \<Rightarrow> bool) \<Rightarrow> (byte \<Rightarrow> byte list \<Rightarrow> 'p \<Rightarrow> byte list option \<times> 'p) \<Rightarrow> (('p, 'z) jni_scheme) env"
where
  "java_env room java d s =
     (case g_client s of
        None \<Rightarrow> s
      | Some cl \<Rightarrow> (case m_hAvail cl of
          Sig a \<Rightarrow> if 0 < sem_val s a then (case java_turn room java (\<lambda>_ s. s) s of Ret _ t \<Rightarrow> t | _ \<Rightarrow> s) else s
        | _ \<Rightarrow> s))"

text \<open>The same as a handler of messages: an answer, or none.\<close>

definition java_handler ::
  "(int \<Rightarrow> bool) \<Rightarrow> (byte \<Rightarrow> byte list \<Rightarrow> 'p \<Rightarrow> byte list option \<times> 'p) \<Rightarrow> SharedFmiMessage \<Rightarrow>
   (SharedFmiMessage, 'p) prog"
where
  "java_handler room java m q =
     (if sint (protoBufMsgSize m) < 0 \<or> \<not> room (sint (protoBufMsgSize m)) then Blocks
      else case payload m of None \<Rightarrow> Fault OutOfBounds | Some bs \<Rightarrow>
        (case java (ucast (cmd m)) bs q of
           (None, _) \<Rightarrow> Blocks
         | (Some reply, q') \<Rightarrow> need OutOfBounds (jni_message (scast (ucast (cmd m) :: byte)) reply) q'))"

definition java_connected :: "IpcServer \<Rightarrow> IpcClient \<Rightarrow> ('p, 'z) jni_scheme \<Rightarrow> bool" where
  "java_connected srv cl s \<longleftrightarrow> at_rest srv cl s \<and> g_client s = Some cl"

lemma java_handler_Ret:
  assumes "java_handler room java m q = Ret r q'"
  obtains bs reply where "\<not> sint (protoBufMsgSize m) < 0" and "room (sint (protoBufMsgSize m))"
    and "payload m = Some bs" and "java (ucast (cmd m)) bs q = (Some reply, q')"
    and "jni_message (scast (ucast (cmd m) :: byte)) reply = Some r"
  using assms by (auto simp: java_handler_def need_Ret_iff split: if_splits option.splits prod.splits)

lemma java_turn_answers:
  assumes "g_client s = Some cl" and "m_hAvail cl = Sig a" and "m_hSignal cl = Sig g" and "m_pBuf cl = Some p"
    and "a \<noteq> g" and "sem_val s a = 1" and "sem_val s g = 0" and "0 < shm_size (shm_objs s p)"
    and "java_handler room java (message (shm_mem (shm_objs s p))) (peer s) = Ret r q"
  shows "java_turn room java (\<lambda>_ s. s) s =
    Ret () ((after_exchange r q p s)\<lparr>sem_val := (sem_val s)(a := 0, g := 1)\<rparr>)"
proof -
  let ?m = "message (shm_mem (shm_objs s p))" and ?s1 = "s\<lparr>sem_val := (sem_val s)(a := 0)\<rparr>"
  from assms(9) obtain bs reply where h: "\<not> sint (protoBufMsgSize ?m) < 0" "room (sint (protoBufMsgSize ?m))"
      "payload ?m = Some bs" "java (ucast (cmd ?m)) bs (peer s) = (Some reply, q)"
      "jni_message (scast (ucast (cmd ?m) :: byte)) reply = Some r"
    by (rule java_handler_Ret)
  have "getMessage (\<lambda>_ s. s) cl 5 s = Ret (Some p) ?s1"
    using assms(2,4,6) by (simp add: getMessage_def signalWait_available sem_take_def)
  then have "jni_read room (\<lambda>_ s. s) [0] s = Ret (Some bs, [ucast (cmd ?m)]) ?s1"
    using assms(1,8) h(1-3) by (simp add: jni_read_def load_msg_def Let_def)
  moreover have "jni_send (scast (ucast (cmd ?m) :: byte)) reply (?s1\<lparr>peer := q\<rparr>) =
      Ret () ((after_exchange r q p s)\<lparr>sem_val := (sem_val s)(a := 0, g := 1)\<rparr>)"
    using assms(1,3-5,7,8) h(5)
    by (simp add: jni_send_def sendReply_def store_msg_def signalPost_Sig SEM_VALUE_MAX_def after_exchange_def)
  ultimately show ?thesis
    using h(4) by (simp add: java_turn_def)
qed

lemma java_exchange:
  fixes s :: "('p, 'z) jni_scheme"
  assumes "java_connected srv cl s" and "java_handler room java m (peer s) = Ret r q"
  shows "\<exists>s'. exchange (java_env room java) srv INFINITE m s = Ret (Some r) s' \<and> java_connected srv cl s' \<and>
    peer s' = q"
proof -
  from assms(1) obtain p a g where h: "m_pBuf srv = Some p" "m_hAvail srv = Sig a" "m_hSignal srv = Sig g" "a \<noteq> g"
      "0 < shm_size (shm_objs s p)" "sem_val s a = 0" "sem_val s g = 0" "\<not> refuse s (OpSemWait g)"
      "m_hAvail cl = Sig a" "m_hSignal cl = Sig g" "m_pBuf cl = Some p" "g_client s = Some cl" "at_rest srv cl s"
    by (auto simp: java_connected_def at_rest_def same_channel_def)
  let ?s1 = "s\<lparr>shm_objs := (shm_objs s)(p := (shm_objs s p)\<lparr>shm_mem := \<lparr>message = m\<rparr>\<rparr>),
      sem_val := (sem_val s)(a := 1)\<rparr>"
  let ?t = "(after_exchange r q p s)\<lparr>sem_val := (sem_val s)(a := 0, g := 1)\<rparr>"
  have "java_turn room java (\<lambda>_ s. s) ?s1 = Ret () ?t"
    using java_turn_answers [of ?s1 cl a g p room java r q] h(4,5,7,9-12) assms(2) by (simp add: after_exchange_def)
  then have "java_env room java None ?s1 = ?t" using h(9,12) by (simp add: java_env_def)
  then have "IpcServer_send (java_env room java) srv m INFINITE s = Ret (Some p) (sem_take g ?t)"
    unfolding INFINITE_def using h(1-8) by (intro send_ready) simp_all
  moreover have take: "sem_take g ?t = after_exchange r q p s"
    using h(4,6,7) by (simp add: sem_take_def after_exchange_def fun_upd_idem)
  ultimately have "exchange (java_env room java) srv INFINITE m s = Ret (Some r) (after_exchange r q p s)"
    using load_after_exchange [OF h(5), of r q] by (simp add: exchange_def)
  moreover have "java_connected srv cl (after_exchange r q p s)"
    using h(12,13) by (simp add: java_connected_def) (simp add: after_exchange_def)
  ultimately show ?thesis by auto
qed

interpretation java: request_reply "exchange (java_env room java) srv INFINITE" "java_connected srv cl" peer
    "java_handler room java" for room java srv cl
  by unfold_locales (rule java_exchange)

text \<open>The contract of the Java program, in terms of the messages it decodes and encodes.\<close>

definition java_serves ::
  "(int \<Rightarrow> bool) \<Rightarrow> (pb_msg \<Rightarrow> byte list) \<Rightarrow> (byte \<Rightarrow> byte list \<Rightarrow> 'p \<Rightarrow> byte list option \<times> 'p) \<Rightarrow>
   'p \<Rightarrow> fmi2Command \<Rightarrow> pb_msg \<Rightarrow> pb_msg \<Rightarrow> 'p \<Rightarrow> bool"
where
  "java_serves room ser java q c m r q' \<longleftrightarrow>
     room (int (length (ser m))) \<and> java (ucast (cmd_code c)) (ser m) q = (Some (ser r), q') \<and>
     kind_of r = reply_kind c \<and> pb_utf8 r \<and> length (ser r) \<le> SharedFmiBufferSize"

lemma payload_size: "payload m = Some bs \<Longrightarrow> sint (protoBufMsgSize m) = int (length bs)"
  by (auto simp: payload_def get_prefix_def split: if_splits)

lemma java_handler_serves:
  assumes "java_serves room ser java q c m r q'" and "cmd sm = cmd_code c" and "payload sm = Some (ser m)"
  shows "\<exists>rep. java_handler room java sm q = Ret rep q' \<and> payload rep = Some (ser r)"
proof -
  let ?type = "scast (ucast (cmd_code c) :: byte) :: c_int"
  have "msg_wf (SharedFmiMessage_zero\<lparr>cmd := ?type\<rparr>)" by simp
  then obtain rep where rep: "jni_message ?type (ser r) = Some rep" "payload rep = Some (ser r)"
    using assms(1) with_payload_fits [of "SharedFmiMessage_zero\<lparr>cmd := ?type\<rparr>" "ser r"] payload_with_payload
    unfolding jni_message_def java_serves_def by blast
  then have "java_handler room java sm q = Ret rep q'"
    using assms payload_size [OF assms(3)]
    by (simp add: java_handler_def java_serves_def del: cmd_code.simps)
  with rep(2) show ?thesis by blast
qed

sublocale protobuf_codec \<subseteq>
  java: proxy_peer "java_env room java" px "java_connected (proxy_server px) cl" peer
    "java_handler room java" ser parse "java_serves room ser java" for room java cl px
proof unfold_locales
  fix q c m r q' sm
  assume "java_serves room ser java q c m r q'" and "cmd sm = cmd_code c" and "payload sm = Some (ser m)"
  then show "\<exists>rep. java_handler room java sm q = Ret rep q' \<and> payload rep = Some (ser r)"
    by (rule java_handler_serves)
next
  fix q c m r q'
  assume "java_serves room ser java q c m r q'"
  then show "kind_of r = reply_kind c \<and> pb_utf8 r" by (simp add: java_serves_def)
qed

definition java_runtime ::
  "(pb_msg \<Rightarrow> byte list) \<Rightarrow> (pb_kind \<Rightarrow> byte list \<Rightarrow> pb_msg) \<Rightarrow> (int \<Rightarrow> bool) \<Rightarrow>
   (byte \<Rightarrow> byte list \<Rightarrow> 'p \<Rightarrow> byte list option \<times> 'p) \<Rightarrow> (('p, 'z) jni_scheme) runtime" where
  "java_runtime ser parse room java = \<lparr>rt_ser = ser, rt_parse = parse, rt_env = java_env room java\<rparr>"

context protobuf_codec
begin

lemmas java_send = java.send [folded java_runtime_def]

end

section \<open>Properties\<close>

text \<open>One pass with a message waiting: the bytes are read, and lost when the virtual machine has no room.\<close>

lemma java_turn_no_answer:
  fixes s :: "('p, 'z) jni_scheme"
  assumes "g_client s = Some cl" and "m_hAvail cl = Sig a" and "m_pBuf cl = Some p" and "sem_val s a = 1"
    and "0 < shm_size (shm_objs s p)" and "payload (message (shm_mem (shm_objs s p))) = Some bs"
    and "room (int (length bs)) \<longrightarrow> fst (java (ucast (cmd (message (shm_mem (shm_objs s p))))) bs (peer s)) = None"
  shows "\<exists>q. java_turn room java (\<lambda>_ s. s) s = Ret () (s\<lparr>sem_val := (sem_val s)(a := 0), peer := q\<rparr>)"
proof -
  let ?m = "message (shm_mem (shm_objs s p))" and ?s1 = "s\<lparr>sem_val := (sem_val s)(a := 0)\<rparr>"
  have "getMessage (\<lambda>_ s. s) cl 5 s = Ret (Some p) ?s1"
    using assms(2-4) by (simp add: getMessage_def signalWait_available sem_take_def)
  then have read: "jni_read room (\<lambda>_ s. s) [0] s =
      Ret (if room (int (length bs)) then Some bs else None, [ucast (cmd ?m)]) ?s1"
    using assms(1,5,6) payload_size [OF assms(6)] by (simp add: jni_read_def load_msg_def Let_def)
  show ?thesis
  proof (cases "room (int (length bs))")
    case True
    with assms(7) obtain q where "java (ucast (cmd ?m)) bs (peer s) = (None, q)" by (metis prod.collapse)
    with read True show ?thesis by (auto simp: java_turn_def)
  next
    case False
    with read show ?thesis by (auto simp: java_turn_def intro: exI [of _ "peer s"])
  qed
qed

lemma java_exchange_blocks:
  fixes s :: "('p, 'z) jni_scheme"
  assumes "java_connected srv cl s" and "payload m = Some bs"
    and "room (int (length bs)) \<longrightarrow> fst (java (ucast (cmd m)) bs (peer s)) = None"
  shows "exchange (java_env room java) srv INFINITE m s = Blocks"
proof -
  from assms(1) obtain p a g where h: "m_pBuf srv = Some p" "m_hAvail srv = Sig a" "m_hSignal srv = Sig g" "a \<noteq> g"
      "0 < shm_size (shm_objs s p)" "sem_val s a = 0" "sem_val s g = 0" "\<not> refuse s (OpSemWait g)"
      "m_hAvail cl = Sig a" "m_hSignal cl = Sig g" "m_pBuf cl = Some p" "g_client s = Some cl"
    by (auto simp: java_connected_def at_rest_def same_channel_def)
  let ?s1 = "s\<lparr>shm_objs := (shm_objs s)(p := (shm_objs s p)\<lparr>shm_mem := \<lparr>message = m\<rparr>\<rparr>),
      sem_val := (sem_val s)(a := 1)\<rparr>"
  from java_turn_no_answer [of ?s1 cl a p bs room java] h assms(2,3) obtain q where
    "java_turn room java (\<lambda>_ s. s) ?s1 = Ret () (?s1\<lparr>sem_val := (sem_val ?s1)(a := 0), peer := q\<rparr>)" by auto
  then have "java_env room java None ?s1 = ?s1\<lparr>sem_val := (sem_val ?s1)(a := 0), peer := q\<rparr>"
    using h by (simp add: java_env_def)
  then have "signalWait (java_env room java) (Sig g) INFINITE ?s1 = Blocks"
    using h by (simp add: signalWait_def INFINITE_def)
  with h show ?thesis
    by (simp add: exchange_def IpcServer_send_def store_msg_def signalPost_Sig SEM_VALUE_MAX_def andThen_def)
qed

text \<open>
  C16: The native methods between the proxy and any Java program at all, a function of the type
  byte, the bytes it reads and its own state. While the library's client is connected to the proxy's
  server, and for a request that fits the buffer, one pass of the program's loop runs while the proxy
  waits. The program is given exactly the command of the request and exactly the bytes the proxy
  serialised. If it answers with bytes that fit the buffer, \<open>FmuProxy::send\<close> returns exactly those
  bytes, decoded as the class for that command, and the two are connected for the next request. If it
  does not answer, or if the virtual machine cannot make the array for the request, whose signal
  \<open>read\<close> has taken by then, \<open>FmuProxy::send\<close> never returns.
\<close>

theorem java_answers_requests:
  fixes s :: "('p, 'z) jni_scheme"
  assumes "java_connected (proxy_server px) cl s" and "length (ser m) \<le> 10000"
    and "java (ucast (cmd_code c)) (ser m) (peer s) = (answer, q')"
    and "\<forall>reply. answer = Some reply \<longrightarrow> length reply \<le> SharedFmiBufferSize"
  shows "if room (int (length (ser m))) \<and> answer \<noteq> None
    then \<exists>s'. FmuProxy_send (java_runtime ser parse room java) px c m s =
        Ret (Some (parse (reply_kind c) (the answer))) s' \<and>
      java_connected (proxy_server px) cl s' \<and> peer s' = q'
    else FmuProxy_send (java_runtime ser parse room java) px c m s = Blocks"
proof -
  let ?bs = "ser m" and ?m0 = "SharedFmiMessage_zero\<lparr>cmd := cmd_code c\<rparr>"
  have wf: "msg_wf ?m0" by simp
  obtain sm where sm: "with_payload ?m0 ?bs = Some sm" "payload sm = Some ?bs"
    using with_payload_fits [OF wf, of ?bs] assms(2) payload_with_payload [OF _ wf]
    by (auto simp: SharedFmiBufferSize_def)
  have c: "cmd sm = cmd_code c" using sm(1) by (auto simp: with_payload_def split: option.splits)
  have fits: "request_fits ?bs" using request_fits_iff [of ?bs] assms(2) by simp
  have send: "FmuProxy_send (java_runtime ser parse room java) px c m s =
      andThen (exchange (java_env room java) (proxy_server px) INFINITE sm) (\<lambda>reply. case reply of
        None \<Rightarrow> ret None
      | Some r \<Rightarrow> andThen (need OutOfBounds (payload r)) (\<lambda>rs. ret (Some (parse (reply_kind c) rs)))) s"
    using fits sm(1) by (simp add: FmuProxy_send_def rpc_def java_runtime_def request_message_def)
  show ?thesis
  proof (cases "room (int (length ?bs)) \<and> answer \<noteq> None")
    case True
    then obtain reply where a: "answer = Some reply" by blast
    let ?type = "scast (ucast (cmd_code c) :: byte) :: c_int"
    have "msg_wf (SharedFmiMessage_zero\<lparr>cmd := ?type\<rparr>)" by simp
    then obtain rep where rep: "jni_message ?type reply = Some rep" "payload rep = Some reply"
      using with_payload_fits [of "SharedFmiMessage_zero\<lparr>cmd := ?type\<rparr>" reply] assms(4) a payload_with_payload
      unfolding jni_message_def by blast
    then have "java_handler room java sm (peer s) = Ret rep q'"
      using assms(3) a c sm(2) True payload_size [OF sm(2)] by (simp add: java_handler_def)
    from java_exchange [OF assms(1) this] rep(2) send True a show ?thesis by auto
  next
    case False
    then have "room (int (length ?bs)) \<longrightarrow> fst (java (ucast (cmd sm)) ?bs (peer s)) = None"
      using assms(3) c by auto
    from java_exchange_blocks [where room = room and java = java, OF assms(1) sm(2) this] send False
    show ?thesis by (simp only: andThen_def outcome.simps if_False)
  qed
qed

text \<open>A Java program that says OK to everything, connected to the proxy of the other examples.\<close>

definition ex_jni :: "unit jni" where
  "ex_jni = world.extend (world0 ()) \<lparr>g_client = Some ends_cl, g_clientDebug = True, g_server = None, g_serverDebug = True\<rparr>"

definition ex_px :: FmuProxy where
  "ex_px = (FmuProxy_new 0 ''key'')\<lparr>proxy_server := ends_srv\<rparr>"

lemma ex_jni_connected: "java_connected ends_srv ends_cl ex_jni"
  by (simp add: java_connected_def ex_jni_def at_rest_def same_channel_def ends_srv_def ends_cl_def world0_def os.defs
      world.defs jni.defs IpcServer_new_def IpcClient_new_def IpcBase_new_def IpcBase.defs)

text \<open>Beside that one, a program that answers nothing.\<close>

theorem java_answers_requests_witness:
  "(\<exists>s'. FmuProxy_send (java_runtime wire_ser wire_parse (\<lambda>_. True)
       (\<lambda>_ _ q. (Some (wire_ser (Fmi2StatusReply 0)), q))) ex_px cmd_fmi2Terminate Fmi2Empty ex_jni =
     Ret (Some (wire_parse K_StatusReply (wire_ser (Fmi2StatusReply 0)))) s' \<and>
     java_connected (proxy_server ex_px) ends_cl s' \<and> peer s' = ()) \<and>
   FmuProxy_send (java_runtime wire_ser wire_parse (\<lambda>_. True) (\<lambda>_ _ q. (None, q))) ex_px cmd_fmi2Terminate
     Fmi2Empty ex_jni = Blocks"
proof -
  have c: "java_connected (proxy_server ex_px) ends_cl ex_jni" using ex_jni_connected by (simp add: ex_px_def)
  have len: "length (wire_ser Fmi2Empty) \<le> 10000" "length (wire_ser (Fmi2StatusReply 0)) \<le> SharedFmiBufferSize"
    using wire.ser_default [of K_StatusReply] wire.ser_default [of K_Empty] by simp_all
  show ?thesis
    using java_answers_requests [where ser = wire_ser and parse = wire_parse and room = "\<lambda>_. True" and
        java = "\<lambda>_ _ q. (Some (wire_ser (Fmi2StatusReply 0)), q)" and answer = "Some (wire_ser (Fmi2StatusReply 0))" and
        c = cmd_fmi2Terminate and q' = "()",
        OF c len(1)] len(2)
      java_answers_requests [where ser = wire_ser and parse = wire_parse and room = "\<lambda>_. True" and
        java = "\<lambda>_ _ q. (None, q)" and answer = None and c = cmd_fmi2Terminate and q' = "()", OF c len(1)]
    by simp
qed

lemma new_client_name [simp]:
  "m_name (if debug then enableConsoleDebug (IpcClient_new i key) else IpcClient_new i key) = key"
  by (simp add: enableConsoleDebug_def)

text \<open>
  C21: In every well-formed state of the system, \<open>setId\<close> returns true exactly when the channel of that
  key can be connected to: the region and the three semaphores have their names and the system
  refuses none of the calls. Only then the library has a client. Otherwise it has none, the
  destructor of the client that failed has removed the region's name, of all names only that, and
  the next attempt with the same key is bound to fail as well.
\<close>

theorem setId_result:
  fixes s :: "('p, 'z) jni_scheme"
  assumes "os_wf s"
  shows "\<exists>t. jni_setId u key s = Ret (connectable u key s) t \<and>
    (g_client t \<noteq> None \<longleftrightarrow> connectable u key s) \<and> sem_names t = sem_names s \<and>
    shm_names t = (if connectable u key s then shm_names s
                   else (shm_names s)(getMappedName u SHARED_MEM_BASE_NAME key := None)) \<and>
    (connectable u key s \<or> \<not> connectable u key t)"
proof -
  let ?client = "if g_clientDebug s then enableConsoleDebug (IpcClient_new 0 key) else IpcClient_new 0 key"
  obtain ok cl s' where c: "IpcClient_connect u ?client s = (ok, cl, s')" by (metis prod_cases3)
  have ok: "ok \<longleftrightarrow> connectable u key s" using connect_iff [OF assms, of u ?client] c by simp
  note frame = connect_frame [OF c]
  have frame': "IpcClient_connect u ?client s = (ok, cl, s')"
    "shm_names s' = shm_names s" "sem_names s' = sem_names s" by (rule c frame)+
  have del: "IpcClient_delete u cl (s'\<lparr>g_client := Some cl\<rparr>) =
      Ret () (shm_unlink (getMappedName u SHARED_MEM_BASE_NAME key) (close_fd (m_hMapFile cl) (s'\<lparr>g_client := Some cl\<rparr>)))"
    using connect_fd [OF assms c] frame(8)
    by (simp add: IpcClient_delete_def IpcBase_delete_def signalClose_def unmap_def Let_def split: option.split)
  show ?thesis
  proof (cases ok)
    case True
    with frame' ok show ?thesis by (simp add: jni_setId_def Let_def)
  next
    case False
    with frame' ok del show ?thesis
      by (simp add: jni_setId_def Let_def shm_unlink_def close_fd_def) (simp add: connectable_def)
  qed
qed

theorem setId_result_witness:
  "\<exists>t. jni_setId Linux ''key'' ex_jni = Ret (connectable Linux ''key'' ex_jni) t \<and>
    (g_client t \<noteq> None \<longleftrightarrow> connectable Linux ''key'' ex_jni) \<and> sem_names t = sem_names ex_jni \<and>
    shm_names t = (if connectable Linux ''key'' ex_jni then shm_names ex_jni
                   else (shm_names ex_jni)(getMappedName Linux SHARED_MEM_BASE_NAME ''key'' := None)) \<and>
    (connectable Linux ''key'' ex_jni \<or> \<not> connectable Linux ''key'' t)"
  by (rule setId_result) (simp add: os_wf_def ex_jni_def world0_def os.defs world.defs jni.defs os_init_def)

text \<open>
  C23: In a well-formed state of the system, and for a key whose three semaphores have different
  names, \<open>serverStart\<close> never returns false. Where the system refuses one of the calls of
  \<open>IpcServer::create\<close>, the method deletes the server that was not created, whose destructor joins a
  thread that does not exist, and that is a fault of the Java process. Otherwise it returns true, and
  the library has a server that is ready: its region and semaphores are there under the names of the
  key.
\<close>

theorem serverStart_result:
  fixes s :: "('p, 'z) jni_scheme"
  assumes "os_wf s" and "signal_names_distinct u key"
  shows "if list_ex (refuse s) (create_ops u key (next_fd s)) then jni_serverStart u key s = Fault NullDeref
    else \<exists>t srv. jni_serverStart u key s = Ret True t \<and> g_server t = Some srv \<and> server_ready u srv t"
proof -
  let ?srv = "if g_serverDebug s then enableConsoleDebug (IpcServer_new 0 key) else IpcServer_new 0 key"
  have new: "m_name ?srv = key" "m_pBuf ?srv = None" "m_connWatchDogThread ?srv = False"
    by (simp_all add: enableConsoleDebug_def)
  obtain ok srv s' where c: "IpcServer_create u ?srv s = (ok, srv, s')" by (metis prod_cases3)
  have ok: "ok \<longleftrightarrow> \<not> list_ex (refuse s) (create_ops u key (next_fd s))"
    using create_success_iff_aux [OF assms(1), of u ?srv] c new(1) by (simp add: list_ex_iff)
  show ?thesis
  proof (cases ok)
    case True
    with IpcServer_create_ready(1) [OF assms(1) _ c [simplified True]] new(1) assms(2) have "server_ready u srv s'"
      by simp
    then have "server_ready u srv (s'\<lparr>g_server := Some srv\<rparr>)" by (simp add: server_ready_def)
    with c True ok show ?thesis by (simp add: jni_serverStart_def Let_def)
  next
    case False
    have "IpcServer_delete u srv (s'\<lparr>g_server := Some srv\<rparr>) = Fault NullDeref"
      using IpcServer_create_failed [OF assms(1), of u ?srv srv s'] False c new(3)
      by (intro delete_unstarted_server) simp
    with c False ok show ?thesis by (simp add: jni_serverStart_def Let_def)
  qed
qed

text \<open>Nothing is refused in the example, so there the server starts.\<close>

theorem serverStart_result_witness:
  "\<exists>t srv. jni_serverStart Linux ''key'' ex_jni = Ret True t \<and> g_server t = Some srv \<and> server_ready Linux srv t"
proof -
  have "os_wf ex_jni" and "\<not> list_ex (refuse ex_jni) (create_ops Linux ''key'' (next_fd ex_jni))"
    by (simp_all add: os_wf_def ex_jni_def world0_def os.defs world.defs jni.defs os_init_def list_ex_iff)
  with serverStart_result [of ex_jni Linux "''key''"] signal_names_distinct_Linux show ?thesis by simp
qed

end
