(* ===== verification/RemoteTestDriver.thy ===== *)
theory RemoteTestDriver
  imports FmuProxy Wire
begin

text \<open>
  The peer of the proxy's tests (testlibshmfmi/RemoteTestDriver.cpp): it keeps a hundred values of
  each type, stores what a set request carries, answers a get request from them, and gives fixed
  answers to the rest.
\<close>

section \<open>The driver\<close>

definition TD_SIZE :: nat where
  "TD_SIZE = 100"

record test_driver =
  reals :: "c_double list"
  bools :: "bool list"
  ints :: "c_int list"
  strings :: "string list"

definition test_driver_init :: test_driver where
  "test_driver_init =
     \<lparr>reals = replicate TD_SIZE 0, bools = replicate TD_SIZE False, ints = replicate TD_SIZE 0,
      strings = replicate TD_SIZE []\<rparr>"

definition td_wf :: "test_driver \<Rightarrow> bool" where
  "td_wf q \<longleftrightarrow> length (reals q) = TD_SIZE \<and> length (bools q) = TD_SIZE \<and>
     length (ints q) = TD_SIZE \<and> length (strings q) = TD_SIZE"

text \<open>A reply is serialized over the request, of which it keeps the command.\<close>

definition reply_with ::
  "(pb_msg \<Rightarrow> byte list) \<Rightarrow> SharedFmiMessage \<Rightarrow> pb_msg \<Rightarrow> (SharedFmiMessage, 's) prog" where
  "reply_with ser msg r = need OutOfBounds (with_payload msg (ser r))"

text \<open>
  The loops over the value references: \<open>values(i)\<close> beyond the values sent, and an index outside
  the array, are out of bounds.
\<close>

fun td_store :: "c_int list \<Rightarrow> 'v list \<Rightarrow> 'v list \<Rightarrow> 'v list option" where
  "td_store [] vs arr = Some arr"
| "td_store (i # ids) [] arr = None"
| "td_store (i # ids) (v # vs) arr = Option.bind (put_at arr (sint i) v) (td_store ids vs)"

fun td_fetch :: "c_int list \<Rightarrow> 'v list \<Rightarrow> 'v list option" where
  "td_fetch [] arr = Some []"
| "td_fetch (i # ids) arr =
     Option.bind (get_at arr (sint i)) (\<lambda>v. map_option ((#) v) (td_fetch ids arr))"

text \<open>
  The answer to a parsed request: the reply message and the driver's new state. The status values
  are those of \<open>Fmi2StatusRequest::FmiStatusKind\<close>; 100.0 and 100.5 are their bit patterns.
\<close>

fun td_answer :: "fmi2Command \<Rightarrow> pb_msg \<Rightarrow> test_driver \<Rightarrow> (pb_msg \<times> test_driver) option" where
  "td_answer cmd_fmi2FreeInstance m q = Some (Fmi2Empty, q)"
| "td_answer cmd_fmi2SetReal m q =
     (case m of Fmi2SetRealRequest ids vs \<Rightarrow>
        map_option (\<lambda>arr. (Fmi2StatusReply Status_Ok, q\<lparr>reals := arr\<rparr>)) (td_store ids vs (reals q))
      | _ \<Rightarrow> None)"
| "td_answer cmd_fmi2SetInteger m q =
     (case m of Fmi2SetIntegerRequest ids vs \<Rightarrow>
        map_option (\<lambda>arr. (Fmi2StatusReply Status_Ok, q\<lparr>ints := arr\<rparr>)) (td_store ids vs (ints q))
      | _ \<Rightarrow> None)"
| "td_answer cmd_fmi2SetBoolean m q =
     (case m of Fmi2SetBooleanRequest ids vs \<Rightarrow>
        map_option (\<lambda>arr. (Fmi2StatusReply Status_Ok, q\<lparr>bools := arr\<rparr>)) (td_store ids vs (bools q))
      | _ \<Rightarrow> None)"
| "td_answer cmd_fmi2SetString m q =
     (case m of Fmi2SetStringRequest ids vs \<Rightarrow>
        map_option (\<lambda>arr. (Fmi2StatusReply Status_Ok, q\<lparr>strings := arr\<rparr>)) (td_store ids (map c_str vs) (strings q))
      | _ \<Rightarrow> None)"
| "td_answer cmd_fmi2GetReal m q =
     (case m of Fmi2GetRequest ids n \<Rightarrow>
        map_option (\<lambda>vs. (Fmi2GetRealReply vs, q)) (td_fetch ids (reals q)) | _ \<Rightarrow> None)"
| "td_answer cmd_fmi2GetBoolean m q =
     (case m of Fmi2GetRequest ids n \<Rightarrow>
        map_option (\<lambda>vs. (Fmi2GetBooleanReply vs, q)) (td_fetch ids (bools q)) | _ \<Rightarrow> None)"
| "td_answer cmd_fmi2GetInteger m q =
     (case m of Fmi2GetRequest ids n \<Rightarrow>
        map_option (\<lambda>vs. (Fmi2GetIntegerReply vs, q)) (td_fetch ids (ints q)) | _ \<Rightarrow> None)"
| "td_answer cmd_fmi2GetString m q =
     (case m of Fmi2GetRequest ids n \<Rightarrow>
        map_option (\<lambda>vs. (Fmi2GetStringReply vs True, q)) (td_fetch ids (strings q)) | _ \<Rightarrow> None)"
| "td_answer cmd_fmi2GetMaxStepSize m q = Some (Fmi2GetMaxStepSizeReply 0x4059000000000000, q)"
| "td_answer cmd_fmi2GetRealStatus m q =
     (case m of Fmi2StatusRequest k \<Rightarrow> Some (Fmi2RealStatusReply (if k = 2 then 0x4059200000000000 else 0), q) | _ \<Rightarrow> None)"
| "td_answer cmd_fmi2GetIntegerStatus m q =
     (case m of Fmi2StatusRequest k \<Rightarrow> Some (Fmi2IntegerStatusReply (if k = 2 then 100 else 0), q) | _ \<Rightarrow> None)"
| "td_answer cmd_fmi2GetBooleanStatus m q =
     (case m of Fmi2StatusRequest k \<Rightarrow> Some (Fmi2BooleanStatusReply (k = 3), q) | _ \<Rightarrow> None)"
| "td_answer cmd_fmi2GetStringStatus m q =
     (case m of Fmi2StatusRequest k \<Rightarrow> Some (Fmi2StringStatusReply (if k = 0 then ''waiting'' else []), q) | _ \<Rightarrow> None)"
| "td_answer cmd_fmi2SetDebugLogging m q = Some (Fmi2StatusReply Status_Ok, q)"
| "td_answer cmd_fmi2Instantiate m q = Some (Fmi2StatusReply Status_Ok, q)"
| "td_answer cmd_fmi2SetupExperiment m q = Some (Fmi2StatusReply Status_Ok, q)"
| "td_answer cmd_fmi2EnterInitializationMode m q = Some (Fmi2StatusReply Status_Ok, q)"
| "td_answer cmd_fmi2ExitInitializationMode m q = Some (Fmi2StatusReply Status_Ok, q)"
| "td_answer cmd_fmi2Terminate m q = Some (Fmi2StatusReply Status_Ok, q)"
| "td_answer cmd_fmi2Reset m q = Some (Fmi2StatusReply Status_Ok, q)"
| "td_answer cmd_fmi2DoStep m q = Some (Fmi2StatusReply Status_Ok, q)"
| "td_answer cmd_fmi2GetStatus m q = Some (Fmi2StatusReply Status_Ok, q)"
| "td_answer cmd_fmi2Log m q = None"

text \<open>The class a request is parsed with, for the commands that look at it.\<close>

fun td_request_kind :: "fmi2Command \<Rightarrow> pb_kind option" where
  "td_request_kind cmd_fmi2SetReal = Some K_SetRealRequest"
| "td_request_kind cmd_fmi2SetInteger = Some K_SetIntegerRequest"
| "td_request_kind cmd_fmi2SetBoolean = Some K_SetBooleanRequest"
| "td_request_kind cmd_fmi2SetString = Some K_SetStringRequest"
| "td_request_kind cmd_fmi2GetReal = Some K_GetRequest"
| "td_request_kind cmd_fmi2GetBoolean = Some K_GetRequest"
| "td_request_kind cmd_fmi2GetInteger = Some K_GetRequest"
| "td_request_kind cmd_fmi2GetString = Some K_GetRequest"
| "td_request_kind cmd_fmi2GetRealStatus = Some K_StatusRequest"
| "td_request_kind cmd_fmi2GetIntegerStatus = Some K_StatusRequest"
| "td_request_kind cmd_fmi2GetBooleanStatus = Some K_StatusRequest"
| "td_request_kind cmd_fmi2GetStringStatus = Some K_StatusRequest"
| "td_request_kind _ = None"

text \<open>
  The \<open>switch\<close> over the command. A command that is none of its cases (\<open>fmi2Log\<close> included) goes to
  the default and the message is sent back as it is.
\<close>

definition td_handle ::
  "(pb_msg \<Rightarrow> byte list) \<Rightarrow> (pb_kind \<Rightarrow> byte list \<Rightarrow> pb_msg) \<Rightarrow> SharedFmiMessage \<Rightarrow>
   (SharedFmiMessage, test_driver) prog"
where
  "td_handle ser parse msg =
     (case cmd_of_code (cmd msg) of
        None \<Rightarrow> ret msg
      | Some c \<Rightarrow>
          if c = cmd_fmi2Log then ret msg
          else
            andThen (case td_request_kind c of
                       None \<Rightarrow> ret Fmi2Empty
                     | Some k \<Rightarrow> andThen (need OutOfBounds (payload msg)) (\<lambda>bs. ret (parse k bs))) (\<lambda>m.
            andThen (\<lambda>q. need OutOfBounds (td_answer c m q) q) (\<lambda>(r, q') _.
            reply_with ser msg r q')))"

text \<open>
  What \<open>remoteTestDriver\<close> does once its client is connected: a message that did not come is a
  null pointer, \<open>getMessage(0)\<close> waits without limit.
\<close>

definition td_turn ::
  "(pb_msg \<Rightarrow> byte list) \<Rightarrow> (pb_kind \<Rightarrow> byte list \<Rightarrow> pb_msg) \<Rightarrow> ((test_driver, 'z) world_scheme) env \<Rightarrow>
   IpcClient \<Rightarrow> (unit, (test_driver, 'z) world_scheme) prog"
where
  "td_turn ser parse env client =
     andThen (getMessage env client 0) (\<lambda>r.
     andThen (need NullDeref r) (\<lambda>p.
     andThen (load_msg p) (\<lambda>msg s.
       case td_handle ser parse msg (peer s) of
         Fault e \<Rightarrow> Fault e
       | Blocks \<Rightarrow> Blocks
       | Ret reply q \<Rightarrow> sendReply client reply (s\<lparr>peer := q\<rparr>))))"

text \<open>
  The whole function: when the client cannot connect it calls itself, with a new client and without
  deleting the old one, until it can. \<open>n\<close> bounds the attempts looked at, between which the others
  run; the result says whether a message was served.
\<close>

definition td_connect ::
  "unix \<Rightarrow> ('a os_scheme) env \<Rightarrow> string \<Rightarrow> nat \<Rightarrow> (IpcClient option, 'a os_scheme) prog" where
  "td_connect u env shmKey n = connect_loop u env (IpcClient_new 0 shmKey) n"

definition remoteTestDriver ::
  "unix \<Rightarrow> (pb_msg \<Rightarrow> byte list) \<Rightarrow> (pb_kind \<Rightarrow> byte list \<Rightarrow> pb_msg) \<Rightarrow>
   ((test_driver, 'z) world_scheme) env \<Rightarrow> string \<Rightarrow> nat \<Rightarrow> (bool, (test_driver, 'z) world_scheme) prog"
where
  "remoteTestDriver u ser parse env shmKey n =
     andThen (td_connect u env shmKey n) (\<lambda>c. case c of
       None \<Rightarrow> ret False
     | Some client \<Rightarrow> andThen (td_turn ser parse env client) (\<lambda>_. ret True))"

text \<open>The entry point of the tests clears a global client that nothing else uses.\<close>

definition remoteTestDriverSingle ::
  "unix \<Rightarrow> (pb_msg \<Rightarrow> byte list) \<Rightarrow> (pb_kind \<Rightarrow> byte list \<Rightarrow> pb_msg) \<Rightarrow>
   ((test_driver, 'z) world_scheme) env \<Rightarrow> string \<Rightarrow> nat \<Rightarrow> (bool, (test_driver, 'z) world_scheme) prog"
where
  "remoteTestDriverSingle u ser parse env shmKey n = remoteTestDriver u ser parse env shmKey n"

lemma td_turn_client:
  assumes "m_hAvail cl = Sig a" and "0 < sem_val s a" and "m_pBuf cl = Some p"
  shows "td_turn ser parse (\<lambda>_ s. s) cl s = client_turn (td_handle ser parse) cl s"
  using assms
  by (simp add: td_turn_def client_turn_def INFINITE_def getMessage_def signalWait_def)

section \<open>Storing and fetching\<close>

lemma td_store_length: "td_store ids vs arr = Some arr' \<Longrightarrow> length arr' = length arr"
  by (induction ids vs arr rule: td_store.induct)
    (auto simp: bind_eq_Some_conv dest: put_at_length)

lemma td_store_other:
  "td_store ids vs arr = Some arr' \<Longrightarrow> j \<notin> set (map sint ids) \<Longrightarrow> get_at arr' j = get_at arr j"
  by (induction ids vs arr rule: td_store.induct) (auto simp: bind_eq_Some_conv get_put_at)

definition td_ids_ok :: "c_int list \<Rightarrow> bool" where
  "td_ids_ok ids \<longleftrightarrow> (\<forall>i\<in>set ids. 0 \<le> sint i \<and> sint i < int TD_SIZE)"

lemma td_store_defined:
  assumes "td_ids_ok ids" and "length arr = TD_SIZE" and "length ids \<le> length vs"
  shows "\<exists>arr'. td_store ids vs arr = Some arr'"
  using assms
proof (induction ids vs arr rule: td_store.induct)
  case (3 i ids v vs arr)
  then have "put_at arr (sint i) v = Some (arr[nat (sint i) := v])"
    by (simp add: put_at_def td_ids_ok_def)
  with 3 show ?case by (simp add: td_ids_ok_def)
qed (simp_all add: td_ids_ok_def)

lemma td_store_fetch:
  assumes "td_store ids vs arr = Some arr'" and "distinct ids" and "length vs = length ids"
  shows "td_fetch ids arr' = Some vs"
  using assms
proof (induction ids vs arr rule: td_store.induct)
  case (3 i ids v vs arr)
  then obtain arr1 where a: "put_at arr (sint i) v = Some arr1" "td_store ids vs arr1 = Some arr'"
    by (auto simp: bind_eq_Some_conv)
  have "sint i \<notin> set (map sint ids)" using 3(3) by (auto dest: signed_word_eqI)
  with td_store_other [OF a(2)] get_put_at [OF a(1)] have "get_at arr' (sint i) = Some v" by simp
  with 3 a show ?case by simp
qed simp_all

lemma td_fetch_length: "td_fetch ids arr = Some vs \<Longrightarrow> length vs = length ids"
  by (induction ids arbitrary: vs) (auto simp: bind_eq_Some_conv)

section \<open>The driver as a peer of the proxy\<close>

text \<open>The requests it is specified for: the class fits the command, and the encodings fit.\<close>

definition td_serves ::
  "(pb_msg \<Rightarrow> byte list) \<Rightarrow> test_driver \<Rightarrow> fmi2Command \<Rightarrow> pb_msg \<Rightarrow> pb_msg \<Rightarrow> test_driver \<Rightarrow> bool"
where
  "td_serves ser q c m r q' \<longleftrightarrow>
     c \<noteq> cmd_fmi2Log \<and> td_answer c m q = Some (r, q') \<and> pb_utf8 m \<and> pb_utf8 r \<and>
     (\<forall>k. td_request_kind c = Some k \<longrightarrow> kind_of m = k) \<and> length (ser r) \<le> SharedFmiBufferSize"

lemma td_answer_class:
  "td_answer c m q = Some (r, q') \<Longrightarrow> c \<noteq> cmd_fmi2Log \<Longrightarrow> kind_of r = reply_kind c"
  by (cases c) (auto split: pb_msg.splits)

text \<open>Commands whose request the driver does not parse get the same answer whatever it is.\<close>

lemma td_answer_unparsed:
  "td_request_kind c = None \<Longrightarrow> td_answer c m q = td_answer c Fmi2Empty q"
  by (cases c) simp_all

lemma td_handle_run:
  assumes "protobuf_codec ser parse" and "td_serves ser q c m r q'" and "cmd sm = cmd_code c"
    and "msg_wf sm" and "payload sm = Some (ser m)"
  shows "\<exists>rep. td_handle ser parse sm q = Ret rep q' \<and> payload rep = Some (ser r)"
proof -
  from assms(2) have c: "c \<noteq> cmd_fmi2Log" and a: "td_answer c m q = Some (r, q')" and u: "pb_utf8 m"
    and k: "\<And>k. td_request_kind c = Some k \<Longrightarrow> kind_of m = k"
    and fits: "length (ser r) \<le> SharedFmiBufferSize"
    by (auto simp: td_serves_def)
  obtain rep where rep: "with_payload sm (ser r) = Some rep"
    using with_payload_fits [OF assms(4) fits] by blast
  let ?request = "case td_request_kind c of None \<Rightarrow> ret Fmi2Empty
    | Some k \<Rightarrow> andThen (need OutOfBounds (payload sm)) (\<lambda>bs. ret (parse k bs))"
  have "\<exists>m'. ?request q = Ret m' q \<and> td_answer c m' q = Some (r, q')"
    using a assms(5) td_answer_unparsed [of c m q]
      protobuf_codec.parse_ser_kind [OF assms(1) u] k
    by (cases "td_request_kind c") simp_all
  then have "td_handle ser parse sm q = Ret rep q'"
    using assms(3) c rep by (auto simp: td_handle_def reply_with_def)
  with payload_with_payload [OF rep assms(4)] show ?thesis by blast
qed

text \<open>The proxy's runtime when the driver is at the other end.\<close>

definition td_runtime ::
  "(pb_msg \<Rightarrow> byte list) \<Rightarrow> (pb_kind \<Rightarrow> byte list \<Rightarrow> pb_msg) \<Rightarrow> IpcClient \<Rightarrow>
   ((test_driver, 'z) world_scheme) runtime" where
  "td_runtime ser parse cl = \<lparr>rt_ser = ser, rt_parse = parse, rt_env = turn_env (td_handle ser parse) cl\<rparr>"

sublocale protobuf_codec \<subseteq>
  td: proxy_peer "turn_env (td_handle ser parse) cl" px "at_rest (proxy_server px) cl" peer
    "td_handle ser parse" ser parse "td_serves ser" for cl px
proof unfold_locales
  fix q c m r q' sm
  assume "td_serves ser q c m r q'" and "cmd sm = cmd_code c" and "msg_wf sm" and "payload sm = Some (ser m)"
  then show "\<exists>rep. td_handle ser parse sm q = Ret rep q' \<and> payload rep = Some (ser r)"
    by (rule td_handle_run [OF protobuf_codec_axioms])
next
  fix q c m r q'
  assume "td_serves ser q c m r q'"
  then show "kind_of r = reply_kind c \<and> pb_utf8 r"
    by (auto simp: td_serves_def dest: td_answer_class)
qed

context protobuf_codec
begin

lemmas td_send = td.send [folded td_runtime_def]

lemmas td_set_get = td.set_get [folded td_runtime_def, unfolded status_code.simps, folded Status_Ok_def]

end

text \<open>What the driver answers to a set and then a get of the same references.\<close>

lemma td_serves_intro:
  assumes "td_answer c m q = Some (r, q')" and "c \<noteq> cmd_fmi2Log" and "pb_utf8 m" and "pb_utf8 r"
    and "\<forall>k. td_request_kind c = Some k \<longrightarrow> kind_of m = k" and "length (ser r) \<le> 10000"
  shows "td_serves ser q c m r q'"
  using assms by (simp add: td_serves_def SharedFmiBufferSize_def)

lemma ser_ok_reply: "protobuf_codec ser parse \<Longrightarrow> length (ser (Fmi2StatusReply Status_Ok)) \<le> 10000"
  using protobuf_codec.ser_default [of ser parse K_StatusReply] by (simp add: Status_Ok_def)

lemma pb_utf8_no_strings: "pb_strings m = [] \<Longrightarrow> pb_utf8 m"
  by (simp add: pb_utf8_def)

text \<open>A proxy connected to a new driver.\<close>

definition td_proxy :: FmuProxy where
  "td_proxy = \<lparr>m_url = ''key'', proxy_server = ends_srv\<rparr>"

lemma td_proxy_at_rest: "at_rest (proxy_server td_proxy) ends_cl (world0 q)"
  by (simp add: td_proxy_def ends_at_rest)

lemma td_wf_init [simp]: "td_wf test_driver_init"
  by (simp add: td_wf_def test_driver_init_def)

lemma enc_bool_simps: "enc_bool False = [0]" "enc_bool True = [1]"
  by (simp_all add: enc_bool_def enc_varint.simps)

lemmas wire_lengths = wire_ser_def enc_fields_def wire_puts enc_int_def enc_bool_simps enc_dbl_def
  enc_varint.simps

text \<open>A set followed by a get of the same references, for reals.\<close>

lemma proxy_set_get_real:
  fixes s :: "(test_driver, 'z) world_scheme"
  assumes "protobuf_codec ser parse" and "at_rest (proxy_server px) cl s" and "td_wf (peer s)"
    and "distinct ids" and "td_ids_ok ids" and "length vs = length ids" and "length out = length ids"
    and "length (ser (Fmi2SetRealRequest ids vs)) \<le> 10000"
    and "length (ser (Fmi2GetRequest ids (of_nat (length ids)))) \<le> 10000"
    and "length (ser (Fmi2GetRealReply vs)) \<le> 10000"
  shows "\<exists>s1 s2 arr. FmuProxy_fmi2SetReal (td_runtime ser parse cl) px ids (length ids) vs s = Ret px_OK s1 \<and>
    FmuProxy_fmi2GetReal (td_runtime ser parse cl) px ids (length ids) out s1 = Ret (px_OK, vs) s2 \<and>
    at_rest (proxy_server px) cl s2 \<and> peer s2 = (peer s)\<lparr>reals := arr\<rparr>"
proof -
  obtain arr where arr: "td_store ids vs (reals (peer s)) = Some arr"
    using td_store_defined [OF assms(5), of "reals (peer s)" vs] assms(3,6) by (auto simp: td_wf_def)
  have "td_serves ser (peer s) cmd_fmi2SetReal (Fmi2SetRealRequest ids vs) (Fmi2StatusReply Status_Ok)
      ((peer s)\<lparr>reals := arr\<rparr>)"
    by (rule td_serves_intro) (simp_all add: arr pb_utf8_no_strings ser_ok_reply [OF assms(1)])
  moreover have "td_serves ser ((peer s)\<lparr>reals := arr\<rparr>) cmd_fmi2GetReal
      (Fmi2GetRequest ids (of_nat (length ids))) (Fmi2GetRealReply vs) ((peer s)\<lparr>reals := arr\<rparr>)"
    by (rule td_serves_intro)
      (simp_all add: td_store_fetch [OF arr assms(4,6)] pb_utf8_no_strings assms(10))
  ultimately show ?thesis
    using protobuf_codec.td_set_get [OF assms(1,2), of cmd_fmi2SetReal Fmi2SetRealRequest ids vs _ out vs
        cmd_fmi2GetReal "Fmi2GetRealReply vs" _ real_values] assms(6-9)
    unfolding FmuProxy_fmi2SetReal_def FmuProxy_fmi2GetReal_def by fastforce
qed

section \<open>Properties\<close>

text \<open>
  A value set through the proxy is the value got back: with any protobuf runtime, over a
  channel at rest, \<open>fmi2SetReal\<close> on distinct references of the driver and then \<open>fmi2GetReal\<close> on
  them both return OK, the values are exactly those set, and no other state of the peer changes.
\<close>

theorem set_get_real:
  fixes s :: "(test_driver, 'z) world_scheme"
  assumes "protobuf_codec ser parse" and "at_rest (proxy_server px) cl s" and "td_wf (peer s)"
    and "distinct ids" and "td_ids_ok ids" and "length vs = length ids" and "length out = length ids"
    and "length (ser (Fmi2SetRealRequest ids vs)) \<le> 10000"
    and "length (ser (Fmi2GetRequest ids (of_nat (length ids)))) \<le> 10000"
    and "length (ser (Fmi2GetRealReply vs)) \<le> 10000"
  shows "\<exists>s1 s2 arr. FmuProxy_fmi2SetReal (td_runtime ser parse cl) px ids (length ids) vs s = Ret px_OK s1 \<and>
    FmuProxy_fmi2GetReal (td_runtime ser parse cl) px ids (length ids) out s1 = Ret (px_OK, vs) s2 \<and>
    at_rest (proxy_server px) cl s2 \<and> peer s2 = (peer s)\<lparr>reals := arr\<rparr>"
  by (rule proxy_set_get_real [OF assms])

theorem set_get_real_witness:
  "\<exists>s1 s2. FmuProxy_fmi2SetReal (td_runtime wire_ser wire_parse ends_cl) td_proxy [3, 5] 2 [7, 8]
       (world0 test_driver_init) = Ret px_OK s1 \<and>
     FmuProxy_fmi2GetReal (td_runtime wire_ser wire_parse ends_cl) td_proxy [3, 5] 2 [0, 0] s1 =
       Ret (px_OK, [7, 8]) s2"
proof -
  have "length (wire_ser (Fmi2SetRealRequest [3, 5] [7, 8])) \<le> 10000"
    and "length (wire_ser (Fmi2GetRequest [3, 5] (of_nat 2))) \<le> 10000"
    and "length (wire_ser (Fmi2GetRealReply [7, 8])) \<le> 10000"
    by (simp_all add: wire_lengths)
  from set_get_real [OF wire.protobuf_codec_axioms td_proxy_at_rest, of test_driver_init "[3, 5]" "[7, 8]" "[0, 0]"] this
  show ?thesis by (simp add: td_wf_init td_ids_ok_def TD_SIZE_def flip: numeral_2_eq_2) blast
qed

text \<open>
  The same for booleans, which travel as \<open>bool\<close>: what comes back of an \<open>int\<close> is 1 where it
  was not zero and 0 where it was.
\<close>

theorem set_get_boolean:
  fixes s :: "(test_driver, 'z) world_scheme"
  assumes "protobuf_codec ser parse" and "at_rest (proxy_server px) cl s" and "td_wf (peer s)"
    and "distinct ids" and "td_ids_ok ids" and "length vs = length ids" and "length out = length ids"
    and "length (ser (Fmi2SetBooleanRequest ids (map to_bool vs))) \<le> 10000"
    and "length (ser (Fmi2GetRequest ids (of_nat (length ids)))) \<le> 10000"
    and "length (ser (Fmi2GetBooleanReply (map to_bool vs))) \<le> 10000"
  shows "\<exists>s1 s2 arr. FmuProxy_fmi2SetBoolean (td_runtime ser parse cl) px ids (length ids) vs s = Ret px_OK s1 \<and>
    FmuProxy_fmi2GetBoolean (td_runtime ser parse cl) px ids (length ids) out s1 =
      Ret (px_OK, map (\<lambda>v. if v = 0 then 0 else 1) vs) s2 \<and>
    at_rest (proxy_server px) cl s2 \<and> peer s2 = (peer s)\<lparr>bools := arr\<rparr>"
proof -
  let ?bs = "map to_bool vs"
  obtain arr where arr: "td_store ids ?bs (bools (peer s)) = Some arr"
    using td_store_defined [OF assms(5), of "bools (peer s)" ?bs] assms(3,6) by (auto simp: td_wf_def)
  have "td_serves ser (peer s) cmd_fmi2SetBoolean (Fmi2SetBooleanRequest ids ?bs) (Fmi2StatusReply Status_Ok)
      ((peer s)\<lparr>bools := arr\<rparr>)"
    by (rule td_serves_intro) (simp_all add: arr pb_utf8_no_strings ser_ok_reply [OF assms(1)])
  moreover have "td_fetch ids arr = Some ?bs"
    using td_store_fetch [OF arr assms(4)] assms(6) by simp
  then have "td_serves ser ((peer s)\<lparr>bools := arr\<rparr>) cmd_fmi2GetBoolean
      (Fmi2GetRequest ids (of_nat (length ids))) (Fmi2GetBooleanReply ?bs) ((peer s)\<lparr>bools := arr\<rparr>)"
    by (intro td_serves_intro) (simp_all add: pb_utf8_no_strings assms(10))
  moreover have "map of_bool_int ?bs = map (\<lambda>v. if v = 0 then 0 else 1) vs"
    by (simp add: of_bool_int_def to_bool_def)
  ultimately show ?thesis
    using protobuf_codec.td_set_get [OF assms(1,2), of cmd_fmi2SetBoolean "\<lambda>refs vs. Fmi2SetBooleanRequest refs (map to_bool vs)"
        ids vs _ out "map of_bool_int ?bs" cmd_fmi2GetBoolean "Fmi2GetBooleanReply ?bs" _ boolean_values] assms(6-9)
    unfolding FmuProxy_fmi2SetBoolean_def FmuProxy_fmi2GetBoolean_def by fastforce
qed

theorem set_get_boolean_witness:
  "\<exists>s1 s2. FmuProxy_fmi2SetBoolean (td_runtime wire_ser wire_parse ends_cl) td_proxy [3, 5] 2 [0, 8]
       (world0 test_driver_init) = Ret px_OK s1 \<and>
     FmuProxy_fmi2GetBoolean (td_runtime wire_ser wire_parse ends_cl) td_proxy [3, 5] 2 [0, 0] s1 =
       Ret (px_OK, [0, 1]) s2"
proof -
  have b: "map to_bool [0, 8] = [False, True]" by (simp add: to_bool_def)
  have "length (wire_ser (Fmi2SetBooleanRequest [3, 5] (map to_bool [0, 8]))) \<le> 10000"
    and "length (wire_ser (Fmi2GetRequest [3, 5] (of_nat 2))) \<le> 10000"
    and "length (wire_ser (Fmi2GetBooleanReply (map to_bool [0, 8]))) \<le> 10000"
    unfolding b by (simp_all add: wire_lengths)
  from set_get_boolean [OF wire.protobuf_codec_axioms td_proxy_at_rest,
      of test_driver_init "[3, 5]" "[0, 8]" "[0, 0]"] this
  show ?thesis by (simp add: td_wf_init td_ids_ok_def TD_SIZE_def flip: numeral_2_eq_2) blast
qed

text \<open>
  C15: Strings set through the proxy come back unchanged. Over a channel at rest, with the
  repository's test driver at the other end, \<open>FmuProxy::fmi2SetString\<close> followed by
  \<open>FmuProxy::fmi2GetString\<close> for the same references both return OK, the second with exactly the
  values that were set; the channel is at rest again, and of the driver nothing but its string array
  has changed. This is for distinct references inside the driver's arrays, as many values as
  references (and room for as many), values without NUL that are valid UTF-8 (the domain in which
  protobuf carries a string unchanged), and messages (the two requests and the reply with the
  values) of at most 10000 bytes each, so that they fit the shared region.
\<close>

theorem set_get_string:
  fixes s :: "(test_driver, 'z) world_scheme"
  assumes "protobuf_codec ser parse" and "at_rest (proxy_server px) cl s" and "td_wf (peer s)"
    and "distinct ids" and "td_ids_ok ids" and "length vs = length ids" and "length out = length ids"
    and "\<forall>v\<in>set vs. CHR 0x00 \<notin> set v \<and> utf8 v"
    and "length (ser (Fmi2SetStringRequest ids vs)) \<le> 10000"
    and "length (ser (Fmi2GetRequest ids (of_nat (length ids)))) \<le> 10000"
    and "length (ser (Fmi2GetStringReply vs True)) \<le> 10000"
  shows "\<exists>s1 s2 arr. FmuProxy_fmi2SetString (td_runtime ser parse cl) px ids (length ids) vs s = Ret px_OK s1 \<and>
    FmuProxy_fmi2GetString (td_runtime ser parse cl) px ids (length ids) out s1 = Ret (px_OK, vs) s2 \<and>
    at_rest (proxy_server px) cl s2 \<and> peer s2 = (peer s)\<lparr>strings := arr\<rparr>"
proof -
  have vs: "map c_str vs = vs" using assms(8) by (simp add: map_c_str_id)
  have u: "pb_utf8 (Fmi2SetStringRequest ids vs)" "pb_utf8 (Fmi2GetStringReply vs True)"
    using assms(8) by (simp_all add: pb_utf8_def list_all_iff)
  obtain arr where arr: "td_store ids vs (strings (peer s)) = Some arr"
    using td_store_defined [OF assms(5), of "strings (peer s)" vs] assms(3,6) by (auto simp: td_wf_def)
  have "td_serves ser (peer s) cmd_fmi2SetString (Fmi2SetStringRequest ids vs) (Fmi2StatusReply Status_Ok)
      ((peer s)\<lparr>strings := arr\<rparr>)"
    by (rule td_serves_intro) (simp_all add: arr vs u pb_utf8_no_strings ser_ok_reply [OF assms(1)])
  moreover have "td_serves ser ((peer s)\<lparr>strings := arr\<rparr>) cmd_fmi2GetString
      (Fmi2GetRequest ids (of_nat (length ids))) (Fmi2GetStringReply vs True) ((peer s)\<lparr>strings := arr\<rparr>)"
    by (rule td_serves_intro)
      (simp_all add: td_store_fetch [OF arr assms(4,6)] u pb_utf8_no_strings assms(11))
  ultimately show ?thesis
    using protobuf_codec.td_set_get [OF assms(1,2), of cmd_fmi2SetString "\<lambda>refs vs. Fmi2SetStringRequest refs (map c_str vs)"
        ids vs _ out vs cmd_fmi2GetString "Fmi2GetStringReply vs True" _ string_values] assms(6,7,9,10) vs
    unfolding FmuProxy_fmi2SetString_def FmuProxy_fmi2GetString_def by fastforce
qed

theorem set_get_string_witness:
  "\<exists>s1 s2. FmuProxy_fmi2SetString (td_runtime wire_ser wire_parse ends_cl) td_proxy [4] 1 [''hi'']
       (world0 test_driver_init) = Ret px_OK s1 \<and>
     FmuProxy_fmi2GetString (td_runtime wire_ser wire_parse ends_cl) td_proxy [4] 1 [[]] s1 =
       Ret (px_OK, [''hi'']) s2"
proof -
  have "length (wire_ser (Fmi2SetStringRequest [4] [''hi''])) \<le> 10000"
    and "length (wire_ser (Fmi2GetRequest [4] (of_nat 1))) \<le> 10000"
    and "length (wire_ser (Fmi2GetStringReply [''hi''] True)) \<le> 10000"
    by (simp_all add: wire_lengths enc_string_def)
  moreover have "utf8 ''hi''" by (simp add: between_def)
  ultimately show ?thesis
    using set_get_string [OF wire.protobuf_codec_axioms td_proxy_at_rest, of test_driver_init "[4]" "[''hi'']" "[[]]"]
    by (fastforce simp: td_wf_init td_ids_ok_def TD_SIZE_def)
qed

text \<open>
  Whatever references of the driver a get asks for, repeated ones included, the reply has as
  many values as there are references: the proxy returns OK, fills that many elements of the
  caller's array, and leaves the rest and the driver as they were.
\<close>

theorem get_integer_fills_array:
  fixes s :: "(test_driver, 'z) world_scheme"
  assumes "protobuf_codec ser parse" and "at_rest (proxy_server px) cl s"
    and "td_fetch ids (ints (peer s)) = Some vs" and "length ids \<le> length out"
    and "length (ser (Fmi2GetRequest ids (of_nat (length ids)))) \<le> 10000"
    and "length (ser (Fmi2GetIntegerReply vs)) \<le> 10000"
  shows "\<exists>s1. FmuProxy_fmi2GetInteger (td_runtime ser parse cl) px ids (length ids) out s =
    Ret (px_OK, vs @ drop (length ids) out) s1 \<and> at_rest (proxy_server px) cl s1 \<and> peer s1 = peer s"
proof -
  have "td_serves ser (peer s) cmd_fmi2GetInteger (Fmi2GetRequest ids (of_nat (length ids)))
      (Fmi2GetIntegerReply vs) (peer s)"
    by (rule td_serves_intro) (simp_all add: assms(3,6) pb_utf8_no_strings)
  from protobuf_codec.td_send [OF assms(1,2) this assms(5)] td_fetch_length [OF assms(3)] assms(4)
  show ?thesis
    by (auto simp: FmuProxy_fmi2GetInteger_def get_values_def createGetRequest_def put_prefix_def)
qed

theorem get_integer_fills_array_witness:
  "\<exists>s1. FmuProxy_fmi2GetInteger (td_runtime wire_ser wire_parse ends_cl) td_proxy [1, 1] 2 [9, 9, 9]
     (world0 (test_driver_init\<lparr>ints := [4, 6]\<rparr>)) = Ret (px_OK, [6, 6, 9]) s1"
proof -
  have "length (wire_ser (Fmi2GetRequest [1, 1] (of_nat 2))) \<le> 10000"
    and "length (wire_ser (Fmi2GetIntegerReply [6, 6])) \<le> 10000"
    by (simp_all add: wire_lengths)
  with get_integer_fills_array [OF wire.protobuf_codec_axioms td_proxy_at_rest,
      of "[1, 1]" "test_driver_init\<lparr>ints := [4, 6]\<rparr>" "[6, 6]" "[9, 9, 9]"]
  show ?thesis by (fastforce simp: get_at_def numeral_2_eq_2)
qed


section \<open>Connecting\<close>

definition td_waits :: "unix \<Rightarrow> ('a os_scheme) env \<Rightarrow> string \<Rightarrow> nat \<Rightarrow> 'a os_scheme \<Rightarrow> 'a os_scheme" where
  "td_waits u env shmKey = connect_waits u env (IpcClient_new 0 shmKey)"

lemma td_waits_simps [simp]:
  "td_waits u env key 0 s = s"
  "td_waits u env key (Suc i) s =
     td_waits u env key i (env None (snd (snd (IpcClient_connect u (IpcClient_new 0 key) s))))"
  by (simp_all add: td_waits_def)

text \<open>
  The driver's connect loop is patient: it never fails, a connection that was refused spoils
  nothing for the next attempt, and within \<open>n\<close> attempts it has connected exactly when the
  server's region and semaphores were complete at the start of one of them.
\<close>

theorem driver_connects_iff:
  fixes s :: "'a os_scheme"
  assumes "os_wf s" and "\<And>t. os_wf t \<Longrightarrow> os_wf (env None t)"
  shows "(td_connect u env key n s \<noteq> Blocks \<and> (\<forall>e. td_connect u env key n s \<noteq> Fault e)) \<and>
    ((\<exists>cl t. td_connect u env key n s = Ret (Some cl) t) \<longleftrightarrow>
     (\<exists>i<n. connectable u key (td_waits u env key i s)))"
proof -
  obtain c t where "td_connect u env key n s = Ret c t"
    and "c \<noteq> None \<longleftrightarrow> (\<exists>i<n. connectable u key (td_waits u env key i s))"
    using connect_loop_iff [of env s u "IpcClient_new 0 key" n] assms
    by (auto simp: td_connect_def td_waits_def)
  then show ?thesis by (cases c) auto
qed

text \<open>A server that appears while the driver waits for the first time: one attempt fails, the next succeeds.\<close>

theorem driver_connects_iff_witness:
  "let env = (\<lambda>(_::(int \<times> int) option) t. snd (snd (IpcServer_create Linux (IpcServer_new 0 ''key'') (t::os)))) in
   \<not> (\<exists>cl t. td_connect Linux env ''key'' 1 os_init = Ret (Some cl) t) \<and>
   (\<exists>cl t. td_connect Linux env ''key'' 2 os_init = Ret (Some cl) t)"
proof -
  define env where "env = (\<lambda>(_::(int \<times> int) option) t. snd (snd (IpcServer_create Linux (IpcServer_new 0 ''key'') (t::os))))"
  have wf: "os_wf (env None t)" if "os_wf t" for t
    unfolding env_def using IpcServer_create_wf that by (metis prod.collapse)
  note iff = driver_connects_iff [of os_init env Linux "''key''", OF os_init_wf wf]
  have 0: "\<not> connectable Linux ''key'' (td_waits Linux env ''key'' 0 os_init)"
    by (simp add: connectable_def)
  have refused: "snd (snd (IpcClient_connect Linux (IpcClient_new 0 ''key'') os_init)) = os_init"
    by (simp add: IpcClient_connect_def openShm_def shm_open_def Let_def)
  have "connectable Linux ''key'' (td_waits Linux env ''key'' 1 os_init)"
    by (simp add: env_def refused create_connectable signal_names_distinct_Linux IpcServer_new_def IpcBase_new_def IpcBase.defs)
  then have "\<exists>i<2. connectable Linux ''key'' (td_waits Linux env ''key'' i os_init)"
    by (intro exI [of _ 1]) simp
  moreover have "\<not> (\<exists>i<1. connectable Linux ''key'' (td_waits Linux env ''key'' i os_init))"
    using 0 by simp
  ultimately show ?thesis
    unfolding Let_def env_def [symmetric] using iff [of 2] iff [of 1] by blast
qed

end
