(* ===== verification/ProxyProperties.thy ===== *)
theory ProxyProperties
  imports RemoteTestDriver
begin

text \<open>
  What the proxy guarantees whatever its peer is: how it bounds a request, how it reads a reply,
  and what it takes on trust from the other process.
\<close>

section \<open>One call\<close>

text \<open>
  The peer's handler answers the request bytes \<open>req\<close> of command \<open>c\<close> by a message that announces
  the bytes \<open>bs\<close>.
\<close>

definition peer_answers ::
  "(SharedFmiMessage \<Rightarrow> (SharedFmiMessage, 'p) prog) \<Rightarrow> fmi2Command \<Rightarrow> byte list \<Rightarrow> 'p \<Rightarrow>
   byte list \<Rightarrow> 'p \<Rightarrow> bool"
where
  "peer_answers h c req q bs q' \<longleftrightarrow>
     (\<forall>sm. cmd sm = cmd_code c \<and> msg_wf sm \<and> payload sm = Some req \<longrightarrow>
        (\<exists>rep. h sm q = Ret rep q' \<and> payload rep = Some bs))"

definition peer_runtime ::
  "(pb_msg \<Rightarrow> byte list) \<Rightarrow> (pb_kind \<Rightarrow> byte list \<Rightarrow> pb_msg) \<Rightarrow>
   (SharedFmiMessage \<Rightarrow> (SharedFmiMessage, 'p) prog) \<Rightarrow> IpcClient \<Rightarrow> (('p, 'z) world_scheme) runtime" where
  "peer_runtime ser parse h cl = \<lparr>rt_ser = ser, rt_parse = parse, rt_env = turn_env h cl\<rparr>"

lemma proxy_call:
  fixes s :: "('p, 'z) world_scheme"
  assumes "at_rest (proxy_server px) cl s" and "length (ser m) \<le> 10000"
    and "peer_answers h c (ser m) (peer s) bs q'"
  shows "\<exists>s'. FmuProxy_send (peer_runtime ser parse h cl) px c m s = Ret (Some (parse (reply_kind c) bs)) s' \<and>
    at_rest (proxy_server px) cl s' \<and> peer s' = q'"
proof -
  obtain sm where sm: "request_message c (ser m) = Some sm"
    using request_small(2) [OF assms(2)] by blast
  from assms(3) request_message_Some [OF sm] obtain rep where
    rep: "h sm (peer s) = Ret rep q'" "payload rep = Some bs"
    by (auto simp: peer_answers_def)
  from ipc.rpc_reply [of "proxy_server px" cl s ser m c sm h rep q' parse, OF assms(1,2) sm rep(1)] rep(2)
  show ?thesis by (auto simp: FmuProxy_send_def peer_runtime_def)
qed

text \<open>A peer that answers every request by the same message, over what it received.\<close>

definition always :: "byte list \<Rightarrow> SharedFmiMessage \<Rightarrow> (SharedFmiMessage, unit) prog" where
  "always bs msg = need OutOfBounds (with_payload msg bs)"

lemma always_answers:
  assumes "length bs \<le> 10000"
  shows "peer_answers (always bs) c req q bs q"
proof -
  have "\<exists>rep. always bs sm q = Ret rep q \<and> payload rep = Some bs" if "msg_wf sm" for sm
  proof -
    from that assms obtain rep where rep: "with_payload sm bs = Some rep"
      using with_payload_fits [of sm bs] by (auto simp: SharedFmiBufferSize_def)
    with payload_with_payload [OF rep that] show ?thesis by (simp add: always_def)
  qed
  then show ?thesis by (simp add: peer_answers_def)
qed

section \<open>Properties\<close>

text \<open>
  C38: The overflow check: a request whose encoding is longer than the buffer and shorter than
  2 GiB is refused before anything is written or sent, and the caller gets NULL; from 2 GiB on
  the length no longer fits the \<open>int\<close> it is compared as, the check passes and the buffer is
  overrun.
\<close>

theorem send_overflow_guard:
  assumes "10000 < length (rt_ser rt msg)" and "length (rt_ser rt msg) < 2 ^ 32"
  shows "FmuProxy_send rt px type msg s =
    (if length (rt_ser rt msg) < 2 ^ 31 then Ret None s else Fault OutOfBounds)"
proof -
  have "request_message type (rt_ser rt msg) = None"
    using assms(1) by (simp add: request_message_None_iff)
  then show ?thesis
    using request_fits_iff [OF assms(2)] assms(1)
    by (simp add: FmuProxy_send_def rpc_def Let_def)
qed

theorem send_overflow_guard_witness:
  "FmuProxy_send (peer_runtime (\<lambda>_. replicate 10001 0) wire_parse (always []) ends_cl) td_proxy
     cmd_fmi2SetReal Fmi2Empty (world0 ()) = Ret None (world0 ()) \<and>
   FmuProxy_send (peer_runtime (\<lambda>_. replicate (2 ^ 31) 0) wire_parse (always []) ends_cl) td_proxy
     cmd_fmi2SetReal Fmi2Empty (world0 ()) = Fault OutOfBounds"
  using send_overflow_guard
      [of "peer_runtime (\<lambda>_. replicate 10001 0) wire_parse (always []) ends_cl" Fmi2Empty td_proxy
          cmd_fmi2SetReal "world0 ()"]
    send_overflow_guard
      [of "peer_runtime (\<lambda>_. replicate (2 ^ 31) 0) wire_parse (always []) ends_cl" Fmi2Empty td_proxy
          cmd_fmi2SetReal "world0 ()"]
  by (simp add: peer_runtime_def)

text \<open>
  Reading a field of a message of another class is the fault \<open>BadHandle\<close>. On a channel at rest, with a
  client that answers, sending does not have it, and what it returns was parsed as the class for the
  command.
\<close>

lemma send_cases:
  fixes s :: "('p, 'z) world_scheme"
  assumes "at_rest (proxy_server px) cl s" and "\<And>m q. \<exists>r q'. h m q = Ret r q'"
  obtains t where "FmuProxy_send (peer_runtime ser parse h cl) px c m s = Ret None t"
    | "FmuProxy_send (peer_runtime ser parse h cl) px c m s = Fault OutOfBounds"
    | bs t where "FmuProxy_send (peer_runtime ser parse h cl) px c m s = Ret (Some (parse (reply_kind c) bs)) t"
proof -
  let ?rt = "peer_runtime ser parse h cl :: (('p, 'z) world_scheme) runtime"
  consider "\<not> request_fits (ser m)" | "request_fits (ser m)" "request_message c (ser m) = None"
    | sm where "request_fits (ser m)" "request_message c (ser m) = Some sm" by blast
  then show thesis
  proof cases
    case 1
    then have "FmuProxy_send ?rt px c m s = Ret None s" by (simp add: FmuProxy_send_def rpc_def peer_runtime_def)
    then show thesis by (rule that(1))
  next
    case 2
    then have "FmuProxy_send ?rt px c m s = Fault OutOfBounds"
      by (simp add: FmuProxy_send_def rpc_def peer_runtime_def)
    then show thesis by (rule that(2))
  next
    case (3 sm)
    from assms(2) obtain r q' where "h sm (peer s) = Ret r q'" by blast
    from exchange_at_rest [of "proxy_server px" cl s INFINITE h sm r q', OF assms(1) deadline_valid_INFINITE this]
    obtain t where "exchange (turn_env h cl) (proxy_server px) INFINITE sm s = Ret (Some r) t" by blast
    with 3 have "FmuProxy_send ?rt px c m s = andThen (need OutOfBounds (payload r))
        (\<lambda>rs. ret (Some (parse (reply_kind c) rs))) t"
      by (simp add: FmuProxy_send_def rpc_def peer_runtime_def)
    then show thesis using that(2,3) by (cases "payload r") simp_all
  qed
qed

lemma kind_cases:
  "kind_of r = K_StatusReply \<Longrightarrow> getStatus r s \<noteq> Fault BadHandle"
  "kind_of r = K_GetRealReply \<Longrightarrow> real_values r \<noteq> None" "kind_of r = K_GetIntegerReply \<Longrightarrow> integer_values r \<noteq> None"
  "kind_of r = K_GetBooleanReply \<Longrightarrow> boolean_values r \<noteq> None" "kind_of r = K_GetStringReply \<Longrightarrow> string_values r \<noteq> None"
  "kind_of r = K_GetMaxStepSizeReply \<Longrightarrow> maxstepsize_of r \<noteq> None" "kind_of r = K_RealStatusReply \<Longrightarrow> real_status_of r \<noteq> None"
  "kind_of r = K_IntegerStatusReply \<Longrightarrow> integer_status_of r \<noteq> None"
  "kind_of r = K_BooleanStatusReply \<Longrightarrow> boolean_status_of r \<noteq> None"
  "kind_of r = K_StringStatusReply \<Longrightarrow> string_status_of r \<noteq> None"
  by (cases r; simp add: getStatus_def)+

lemma casts_right:
  fixes s :: "('p, 'z) world_scheme"
  assumes "protobuf_codec ser parse" and "at_rest (proxy_server px) cl s" and "\<And>m q. \<exists>r q'. h m q = Ret r q'"
  defines "rt \<equiv> peer_runtime ser parse h cl"
  shows "reply_kind c = K_StatusReply \<Longrightarrow> sendRetStatus rt px c m s \<noteq> Fault BadHandle"
    and "(\<And>r. kind_of r = reply_kind c' \<Longrightarrow> content r \<noteq> None) \<Longrightarrow> get_values rt px c' content vr n out s \<noteq> Fault BadHandle"
    and "(\<And>r. kind_of r = reply_kind c'' \<Longrightarrow> content' r \<noteq> None) \<Longrightarrow> get_one rt px c'' m' content' v s \<noteq> Fault BadHandle"
proof -
  have kind: "kind_of (parse k bs) = k" for k bs by (rule protobuf_codec.kind_parse [OF assms(1)])
  show "sendRetStatus rt px c m s \<noteq> Fault BadHandle" if "reply_kind c = K_StatusReply"
    unfolding rt_def
  proof (rule send_cases [of px cl s h ser parse c m, OF assms(2,3)])
    fix bs t
    assume "FmuProxy_send (peer_runtime ser parse h cl) px c m s = Ret (Some (parse (reply_kind c) bs)) t"
    moreover have "getStatus (parse (reply_kind c) bs) t \<noteq> Fault BadHandle" by (rule kind_cases(1)) (simp add: kind that)
    ultimately show "sendRetStatus (peer_runtime ser parse h cl) px c m s \<noteq> Fault BadHandle"
      by (simp add: sendRetStatus_def)
  qed (simp_all add: sendRetStatus_def)
  show "get_values rt px c' content vr n out s \<noteq> Fault BadHandle"
    if c: "\<And>r. kind_of r = reply_kind c' \<Longrightarrow> content r \<noteq> None"
  proof (cases "get_prefix vr (int n)")
    case None
    then show ?thesis by (simp add: get_values_def createGetRequest_def)
  next
    case (Some refs)
    have ok: "content (parse (reply_kind c') bs) \<noteq> None" for bs using c kind by blast
    show ?thesis
      unfolding rt_def
    proof (rule send_cases [of px cl s h ser parse c' "Fmi2GetRequest refs (of_nat n)", OF assms(2,3)])
      fix bs t
      assume "FmuProxy_send (peer_runtime ser parse h cl) px c' (Fmi2GetRequest refs (of_nat n)) s =
        Ret (Some (parse (reply_kind c') bs)) t"
      moreover obtain valid vs where "content (parse (reply_kind c') bs) = Some (valid, vs)" using ok [of bs] by auto
      ultimately show "get_values (peer_runtime ser parse h cl) px c' content vr n out s \<noteq> Fault BadHandle"
        using Some by (cases "put_prefix out vs") (simp_all add: get_values_def createGetRequest_def)
    qed (use Some in \<open>simp_all add: get_values_def createGetRequest_def\<close>)
  qed
  show "get_one rt px c'' m' content' v s \<noteq> Fault BadHandle"
    if c: "\<And>r. kind_of r = reply_kind c'' \<Longrightarrow> content' r \<noteq> None"
    unfolding rt_def
  proof (rule send_cases [of px cl s h ser parse c'' m', OF assms(2,3)])
    fix bs t
    assume "FmuProxy_send (peer_runtime ser parse h cl) px c'' m' s = Ret (Some (parse (reply_kind c'') bs)) t"
    moreover obtain w where "content' (parse (reply_kind c'') bs) = Some w" using c kind by blast
    ultimately show "get_one (peer_runtime ser parse h cl) px c'' m' content' v s \<noteq> Fault BadHandle"
      by (simp add: get_one_def)
  qed (simp_all add: get_one_def)
qed

text \<open>
  C39: The casts of the replies are right. Each of the 22 methods that read a reply treats it as an
  object of a fixed class; \<open>send\<close> chooses the class to parse it as by its own table over the commands.
  Over a channel at rest, whatever bytes a peer that answers leaves in the buffer, and whatever the
  arguments are, no method reads a field of a class that its reply does not have.
\<close>

theorem reply_casts:
  fixes s :: "('p, 'z) world_scheme"
  assumes "protobuf_codec ser parse" and "at_rest (proxy_server px) cl s" and "\<And>m q. \<exists>r q'. h m q = Ret r q'"
  defines "rt \<equiv> peer_runtime ser parse h cl"
  shows "FmuProxy_fmi2Instantiate rt px a b l cb i1 i2 s \<noteq> Fault BadHandle \<and>
    FmuProxy_fmi2SetupExperiment rt px i1 x y i2 z s \<noteq> Fault BadHandle \<and>
    FmuProxy_fmi2EnterInitializationMode rt px s \<noteq> Fault BadHandle \<and>
    FmuProxy_fmi2ExitInitializationMode rt px s \<noteq> Fault BadHandle \<and>
    FmuProxy_fmi2Terminate rt px s \<noteq> Fault BadHandle \<and> FmuProxy_fmi2Reset rt px s \<noteq> Fault BadHandle \<and>
    FmuProxy_fmi2SetDebugLogging rt px i1 n cs s \<noteq> Fault BadHandle \<and> FmuProxy_fmi2DoStep rt px x y i1 s \<noteq> Fault BadHandle \<and>
    FmuProxy_fmi2SetReal rt px vr n rs s \<noteq> Fault BadHandle \<and> FmuProxy_fmi2GetReal rt px vr n rs s \<noteq> Fault BadHandle \<and>
    FmuProxy_fmi2SetInteger rt px vr n is s \<noteq> Fault BadHandle \<and> FmuProxy_fmi2GetInteger rt px vr n is s \<noteq> Fault BadHandle \<and>
    FmuProxy_fmi2SetBoolean rt px vr n is s \<noteq> Fault BadHandle \<and> FmuProxy_fmi2GetBoolean rt px vr n is s \<noteq> Fault BadHandle \<and>
    FmuProxy_fmi2SetString rt px vr n cs s \<noteq> Fault BadHandle \<and> FmuProxy_fmi2GetString rt px vr n cs s \<noteq> Fault BadHandle \<and>
    FmuProxy_fmi2GetMaxStepsize rt px x s \<noteq> Fault BadHandle \<and> FmuProxy_fmi2GetStatus rt px k st s \<noteq> Fault BadHandle \<and>
    FmuProxy_fmi2GetRealStatus rt px k x s \<noteq> Fault BadHandle \<and> FmuProxy_fmi2GetIntegerStatus rt px k i1 s \<noteq> Fault BadHandle \<and>
    FmuProxy_fmi2GetBooleanStatus rt px k i1 s \<noteq> Fault BadHandle \<and> FmuProxy_fmi2GetStringStatus rt px k a s \<noteq> Fault BadHandle"
proof -
  note status = casts_right(1) [of ser parse px cl s h, OF assms(1-3), folded rt_def]
    and vals = casts_right(2) [of ser parse px cl s h, OF assms(1-3), folded rt_def]
    and one = casts_right(3) [of ser parse px cl s h, OF assms(1-3), folded rt_def]
  have inst: "FmuProxy_fmi2Instantiate rt px a b l cb i1 i2 s \<noteq> Fault BadHandle"
  proof -
    let ?m = "Fmi2InstantiateRequest (c_str a) (c_str b) (c_str l) (to_bool i1) (to_bool i2) (c_str cb)"
    have "sendRetStatus rt px cmd_fmi2Instantiate ?m s \<noteq> Fault BadHandle" by (rule status) simp
    then show ?thesis
      by (auto simp: FmuProxy_fmi2Instantiate_def sendRetStatus_def andThen_def split: outcome.splits option.splits)
  qed
  have set: "set_values rt px c req vr n vs s \<noteq> Fault BadHandle" if "reply_kind c = K_StatusReply"
    for c and req :: "c_int list \<Rightarrow> 'v list \<Rightarrow> pb_msg" and vs
    using status [OF that]
    by (cases "get_prefix vr (int n)"; cases "get_prefix vs (int n)") (simp_all add: set_values_def)
  have log: "FmuProxy_fmi2SetDebugLogging rt px i1 n cs s \<noteq> Fault BadHandle"
    using status [of cmd_fmi2SetDebugLogging]
    by (cases "get_prefix cs (int n)") (simp_all add: FmuProxy_fmi2SetDebugLogging_def)
  have stat: "FmuProxy_fmi2GetStatus rt px k st s \<noteq> Fault BadHandle"
    using status [of cmd_fmi2GetStatus "createGetStatusRequest k"]
    by (auto simp: FmuProxy_fmi2GetStatus_def andThen_def split: outcome.splits)
  show ?thesis
    unfolding FmuProxy_fmi2SetupExperiment_def FmuProxy_fmi2EnterInitializationMode_def
      FmuProxy_fmi2ExitInitializationMode_def FmuProxy_fmi2Terminate_def FmuProxy_fmi2Reset_def FmuProxy_fmi2DoStep_def
      FmuProxy_fmi2SetReal_def FmuProxy_fmi2GetReal_def FmuProxy_fmi2SetInteger_def FmuProxy_fmi2GetInteger_def
      FmuProxy_fmi2SetBoolean_def FmuProxy_fmi2GetBoolean_def FmuProxy_fmi2SetString_def FmuProxy_fmi2GetString_def
      FmuProxy_fmi2GetMaxStepsize_def FmuProxy_fmi2GetRealStatus_def FmuProxy_fmi2GetIntegerStatus_def
      FmuProxy_fmi2GetBooleanStatus_def FmuProxy_fmi2GetStringStatus_def
    by (intro conjI inst log stat status set vals one; simp add: kind_cases)
qed

theorem reply_casts_witness:
  "FmuProxy_fmi2GetReal (peer_runtime wire_ser wire_parse (\<lambda>m q. Ret m q) ends_cl) td_proxy [1] 1 [0] (world0 ()) \<noteq> Fault BadHandle \<and>
   FmuProxy_fmi2DoStep (peer_runtime wire_ser wire_parse (\<lambda>m q. Ret m q) ends_cl) td_proxy 0 0 0 (world0 ()) \<noteq> Fault BadHandle"
proof -
  have "\<exists>r q'. (Ret :: SharedFmiMessage \<Rightarrow> (SharedFmiMessage, unit) prog) m q = Ret r q'" for m q by simp
  note casts = reply_casts [OF wire.protobuf_codec_axioms td_proxy_at_rest [of "()"] this]
  show ?thesis by (simp only: casts simp_thms)
qed

text \<open>
  The peer's verdict is what the caller gets: for every command answered by a status, the
  status returned is the one whose code the peer sent, and Fatal for a number that is no status
  code, and the channel is ready for the next call.
\<close>

theorem status_verdict:
  fixes s :: "('p, 'z) world_scheme"
  assumes "protobuf_codec ser parse" and "at_rest (proxy_server px) cl s"
    and "reply_kind c = K_StatusReply" and "length (ser m) \<le> 10000"
    and "peer_answers h c (ser m) (peer s) (ser (Fmi2StatusReply n)) q'"
  shows "\<exists>st s'. sendRetStatus (peer_runtime ser parse h cl) px c m s = Ret st s' \<and>
    (status_code st = n \<or> n \<notin> range status_code \<and> st = px_Fatal) \<and>
    at_rest (proxy_server px) cl s' \<and> peer s' = q'"
proof -
  from proxy_call [of px cl s ser m h c _ q' parse, OF assms(2,4,5)] obtain s' where
    s': "FmuProxy_send (peer_runtime ser parse h cl) px c m s = Ret (Some (parse K_StatusReply (ser (Fmi2StatusReply n)))) s'"
      "at_rest (proxy_server px) cl s'" "peer s' = q'" using assms(3) by auto
  have "parse K_StatusReply (ser (Fmi2StatusReply n)) = Fmi2StatusReply n"
    by (rule protobuf_codec.parse_ser_kind [OF assms(1)]) (simp_all add: pb_utf8_no_strings)
  with s' have run: "sendRetStatus (peer_runtime ser parse h cl) px c m s = getStatus (Fmi2StatusReply n) s'"
    by (simp add: sendRetStatus_def)
  show ?thesis
  proof (cases "n \<in> range status_code")
    case True
    then obtain st where "n = status_code st" by blast
    with run s' show ?thesis by auto
  next
    case False
    with run s' getStatus_other [OF False, of s'] show ?thesis by auto
  qed
qed

theorem status_verdict_witness:
  "\<exists>s'. sendRetStatus (peer_runtime wire_ser wire_parse (always (wire_ser (Fmi2StatusReply 2))) ends_cl)
     td_proxy cmd_fmi2DoStep (Fmi2DoStepRequest 0 1) (world0 ()) = Ret px_Discard s'"
proof -
  have l: "length (wire_ser (Fmi2DoStepRequest 0 1)) \<le> 10000" "length (wire_ser (Fmi2StatusReply 2)) \<le> 10000"
    by (simp_all add: wire_lengths)
  have c: "status_code st = 2 \<longleftrightarrow> st = px_Discard" for st by (cases st) simp_all
  have "2 \<in> range status_code" using c by (metis rangeI)
  then show ?thesis
    using status_verdict [OF wire.protobuf_codec_axioms td_proxy_at_rest _ l(1) always_answers [OF l(2)],
        of cmd_fmi2DoStep] c by fastforce
qed

text \<open>
  What becomes of the caller's array: as many values are written as the reply holds, and the array is
  overrun when it is shorter than that.
\<close>

definition fills :: "(proxy_status \<times> 'v list, 's) outcome \<Rightarrow> 'v list \<Rightarrow> 'v list \<Rightarrow> bool" where
  "fills x vs out \<longleftrightarrow>
     (if length vs \<le> length out then \<exists>t. x = Ret (px_OK, vs @ drop (length vs) out) t else x = Fault OutOfBounds)"

lemma get_values_reply:
  fixes s :: "('p, 'z) world_scheme"
  assumes "protobuf_codec ser parse" and "at_rest (proxy_server px) cl s"
    and "nvr \<le> length vr" and "length (ser (Fmi2GetRequest (take nvr vr) (of_nat nvr))) \<le> 10000"
    and "peer_answers h c (ser (Fmi2GetRequest (take nvr vr) (of_nat nvr))) (peer s) (ser r) q'"
    and "kind_of r = reply_kind c" and "pb_utf8 r" and "content r = Some (valid, vs)"
  shows "if valid then fills (get_values (peer_runtime ser parse h cl) px c content vr nvr out s) vs out
    else \<exists>t. get_values (peer_runtime ser parse h cl) px c content vr nvr out s = Ret (px_Fatal, out) t"
proof -
  from proxy_call [of px cl s ser "Fmi2GetRequest (take nvr vr) (of_nat nvr)" h c _ q' parse, OF assms(2,4,5)] obtain s' where
    s': "FmuProxy_send (peer_runtime ser parse h cl) px c (Fmi2GetRequest (take nvr vr) (of_nat nvr)) s
      = Ret (Some (parse (reply_kind c) (ser r))) s'" by auto
  have "parse (reply_kind c) (ser r) = r"
    by (rule protobuf_codec.parse_ser_kind [OF assms(1)]) (simp_all add: assms(6,7))
  with s' assms(3,8) show ?thesis
    by (simp add: fills_def get_values_def createGetRequest_def get_prefix_def put_prefix_def)
qed

text \<open>
  C40: The four get functions of the proxy trust the number of values in the reply and not \<open>nvr\<close>, for a
  request that fits the buffer and a peer whose reply is of the right class: they write as many values
  as the peer sent, return OK with part of the caller's array unset when it sent fewer than were asked
  for, and write past the array when it sent more than the array holds. \<open>fmi2GetString\<close> does so when the
  reply's flag says that the values are valid, and otherwise returns Fatal and writes nothing.
\<close>

theorem get_trusts_reply:
  fixes s :: "('p, 'z) world_scheme" and h :: "SharedFmiMessage \<Rightarrow> (SharedFmiMessage, 'p) prog"
  assumes "protobuf_codec ser parse" and "at_rest (proxy_server px) cl s"
    and "nvr \<le> length vr" and "length (ser (Fmi2GetRequest (take nvr vr) (of_nat nvr))) \<le> 10000"
  defines "rt \<equiv> peer_runtime ser parse h cl" and "req \<equiv> ser (Fmi2GetRequest (take nvr vr) (of_nat nvr))"
  shows "(peer_answers h cmd_fmi2GetReal req (peer s) (ser (Fmi2GetRealReply rs)) q \<longrightarrow>
      fills (FmuProxy_fmi2GetReal rt px vr nvr out_r s) rs out_r) \<and>
    (peer_answers h cmd_fmi2GetInteger req (peer s) (ser (Fmi2GetIntegerReply is)) q \<longrightarrow>
      fills (FmuProxy_fmi2GetInteger rt px vr nvr out_i s) is out_i) \<and>
    (peer_answers h cmd_fmi2GetBoolean req (peer s) (ser (Fmi2GetBooleanReply bs)) q \<longrightarrow>
      fills (FmuProxy_fmi2GetBoolean rt px vr nvr out_i s) (map of_bool_int bs) out_i) \<and>
    (peer_answers h cmd_fmi2GetString req (peer s) (ser (Fmi2GetStringReply ss valid)) q \<and> list_all utf8 ss \<longrightarrow>
      (if valid then fills (FmuProxy_fmi2GetString rt px vr nvr out_s s) (map c_str ss) out_s
       else \<exists>t. FmuProxy_fmi2GetString rt px vr nvr out_s s = Ret (px_Fatal, out_s) t))"
proof -
  note reply = get_values_reply [of ser parse px cl s nvr vr h, OF assms(1-4), folded rt_def req_def]
  show ?thesis
    unfolding FmuProxy_fmi2GetReal_def FmuProxy_fmi2GetInteger_def FmuProxy_fmi2GetBoolean_def FmuProxy_fmi2GetString_def
  proof (intro conjI impI; (elim conjE)?)
    assume "peer_answers h cmd_fmi2GetReal req (peer s) (ser (Fmi2GetRealReply rs)) q"
    from reply [OF this, of real_values True rs out_r]
    show "fills (get_values rt px cmd_fmi2GetReal real_values vr nvr out_r s) rs out_r"
      by (simp add: pb_utf8_no_strings)
  next
    assume "peer_answers h cmd_fmi2GetInteger req (peer s) (ser (Fmi2GetIntegerReply is)) q"
    from reply [OF this, of integer_values True "is" out_i]
    show "fills (get_values rt px cmd_fmi2GetInteger integer_values vr nvr out_i s) is out_i"
      by (simp add: pb_utf8_no_strings)
  next
    assume "peer_answers h cmd_fmi2GetBoolean req (peer s) (ser (Fmi2GetBooleanReply bs)) q"
    from reply [OF this, of boolean_values True "map of_bool_int bs" out_i]
    show "fills (get_values rt px cmd_fmi2GetBoolean boolean_values vr nvr out_i s) (map of_bool_int bs) out_i"
      by (simp add: pb_utf8_no_strings)
  next
    assume "peer_answers h cmd_fmi2GetString req (peer s) (ser (Fmi2GetStringReply ss valid)) q" and "list_all utf8 ss"
    then show "if valid then fills (get_values rt px cmd_fmi2GetString string_values vr nvr out_s s) (map c_str ss) out_s
       else \<exists>t. get_values rt px cmd_fmi2GetString string_values vr nvr out_s s = Ret (px_Fatal, out_s) t"
      using reply [of cmd_fmi2GetString "Fmi2GetStringReply ss valid" q string_values valid "map c_str ss" out_s]
      by (simp add: pb_utf8_def)
  qed
qed

theorem get_trusts_reply_witness:
  "FmuProxy_fmi2GetReal (peer_runtime wire_ser wire_parse (always (wire_ser (Fmi2GetRealReply [1, 2]))) ends_cl)
     td_proxy [7] 1 [0] (world0 ()) = Fault OutOfBounds"
proof -
  have l: "length (wire_ser (Fmi2GetRequest (take 1 [7]) (of_nat 1))) \<le> 10000"
    "length (wire_ser (Fmi2GetRealReply [1, 2])) \<le> 10000"
    by (simp_all add: wire_lengths)
  show ?thesis
    using get_trusts_reply [OF wire.protobuf_codec_axioms td_proxy_at_rest _ l(1),
        where h = "always (wire_ser (Fmi2GetRealReply [1, 2]))" and rs = "[1, 2]" and out_r = "[0]"]
      always_answers [OF l(2)]
    by (simp add: fills_def)
qed

text \<open>
  An empty reply reads as success: whatever the peer failed at, when it leaves no payload,
  every command that is answered by a status returns OK.
\<close>

theorem empty_reply_is_ok:
  fixes s :: "('p, 'z) world_scheme"
  assumes "protobuf_codec ser parse" and "at_rest (proxy_server px) cl s"
    and "reply_kind c = K_StatusReply" and "length (ser m) \<le> 10000"
    and "peer_answers h c (ser m) (peer s) [] q'"
  shows "\<exists>s'. sendRetStatus (peer_runtime ser parse h cl) px c m s = Ret px_OK s'"
proof -
  from proxy_call [of px cl s ser m h c _ q' parse, OF assms(2,4,5)] obtain s' where
    "FmuProxy_send (peer_runtime ser parse h cl) px c m s = Ret (Some (parse K_StatusReply [])) s'"
    using assms(3) by auto
  then show ?thesis
    using protobuf_codec.parse_empty [OF assms(1)] getStatus_code [of px_OK s']
    by (simp add: sendRetStatus_def)
qed

theorem empty_reply_is_ok_witness:
  "\<exists>s'. sendRetStatus (peer_runtime wire_ser wire_parse (always []) ends_cl)
     td_proxy cmd_fmi2DoStep (Fmi2DoStepRequest 0 1) (world0 ()) = Ret px_OK s'"
proof -
  have l: "length (wire_ser (Fmi2DoStepRequest 0 1)) \<le> 10000" by (simp add: wire_lengths)
  show ?thesis
    using empty_reply_is_ok [OF wire.protobuf_codec_axioms td_proxy_at_rest _ l always_answers, of cmd_fmi2DoStep "()"]
    by simp
qed

end
