(* ===== verification/Uri.thy ===== *)
theory Uri
  imports ShmPrelude
begin

text \<open>
  From the resource URI of an FMU to a native path (libshmfmu/uri.c). Strings here are the
  contents of C strings; reads behind the terminator are faults.
\<close>

section \<open>Characters\<close>

datatype platform = Unix | Windows

fun native_path_separator :: "platform \<Rightarrow> char" where
  "native_path_separator Windows = CHR 0x5C"
| "native_path_separator Unix = CHR ''/''"

fun foreign_path_separator :: "platform \<Rightarrow> char" where
  "foreign_path_separator Windows = CHR ''/''"
| "foreign_path_separator Unix = CHR 0x5C"

lemma foreign_not_percent [simp]: "foreign_path_separator p \<noteq> CHR ''%''" "CHR ''%'' \<noteq> foreign_path_separator p"
  by (cases p; simp)+

lemma native_not_foreign [simp]: "native_path_separator p \<noteq> foreign_path_separator p"
  by (cases p; simp)

lemma separator_not_nul [simp]: "native_path_separator p \<noteq> CHR 0x00"
  by (cases p; simp)

definition code :: "char \<Rightarrow> nat" where
  "code c = of_char c"

definition isxdigit :: "char \<Rightarrow> bool" where
  "isxdigit c \<longleftrightarrow> 48 \<le> code c \<and> code c \<le> 57 \<or> 65 \<le> code c \<and> code c \<le> 70 \<or> 97 \<le> code c \<and> code c \<le> 102"

definition hex_value :: "char \<Rightarrow> nat" where
  "hex_value c = (if code c \<le> 57 then code c - 48 else if code c \<le> 70 then code c - 55 else code c - 87)"

text \<open>\<open>strtol\<close> in base 16 on two hexadecimal digits.\<close>

definition hex_byte :: "char \<Rightarrow> char \<Rightarrow> char" where
  "hex_byte a b = char_of (16 * hex_value a + hex_value b)"

section \<open>The conversion\<close>

definition strncmp_eq :: "string \<Rightarrow> string \<Rightarrow> bool" where
  "strncmp_eq uri p \<longleftrightarrow> take (length p) uri = p"

text \<open>
  \<open>uri[i]\<close> in an array that holds the characters and one NUL behind them.
\<close>

definition uri_at :: "string \<Rightarrow> nat \<Rightarrow> char option" where
  "uri_at uri i = get_at (uri @ [CHR 0x00]) (int i)"

definition uri_path_start :: "platform \<Rightarrow> string \<Rightarrow> (nat, 's) prog" where
  "uri_path_start p uri =
     (if strncmp_eq uri ''file:///'' then
        andThen (need OutOfBounds (uri_at uri 9)) (\<lambda>c. ret (if c = CHR '':'' then 8 else 7))
      else if p = Windows \<and> strncmp_eq uri ''file://'' then ret 5
      else if strncmp_eq uri ''file:/'' then
        andThen (need OutOfBounds (uri_at uri 7)) (\<lambda>c. ret (if c = CHR '':'' then 6 else 5))
      else ret 0)"

text \<open>
  The lengths are of type \<open>unsigned int\<close>, whose arithmetic is modulo \<open>2 ^ 32\<close>; the results of \<open>strlen\<close> are
  cut to it.
\<close>

abbreviation u32 :: "nat \<Rightarrow> nat" where
  "u32 n \<equiv> n mod 2 ^ 32"

definition u32_minus :: "nat \<Rightarrow> nat \<Rightarrow> nat" where
  "u32_minus a b = u32 (a + 2 ^ 32 - b)"

text \<open>
  A character of the URI or its terminator. The loop looks at none behind that: its index is below
  \<open>uri_len\<close>, and it looks at the second character behind a percent sign only when the first is a digit.
\<close>

definition uri_char :: "string \<Rightarrow> nat \<Rightarrow> char" where
  "uri_char uri i = (if i < length uri then uri ! i else CHR 0x00)"

text \<open>
  The copy loop: \<open>path\<close> is what is written to the buffer so far (its length is \<open>j\<close>), \<open>path_len\<close> the code's
  variable. The index cannot wrap: it is at most \<open>uri_len\<close> afterwards, or 3 where \<open>uri_len\<close> is 1 and \<open>uri_len - 2\<close>
  wraps.
\<close>

function uri_loop :: "platform \<Rightarrow> string \<Rightarrow> nat \<Rightarrow> nat \<Rightarrow> string \<Rightarrow> nat \<Rightarrow> string \<times> nat" where
  "uri_loop p uri uri_len i path path_len =
     (if i < uri_len then
        (let c = uri_char uri i
         in if c = CHR ''%'' then
              (if i < u32_minus uri_len 2 \<and> isxdigit (uri_char uri (i + 1)) \<and> isxdigit (uri_char uri (i + 2))
               then uri_loop p uri uri_len (i + 3) (path @ [hex_byte (uri_char uri (i + 1)) (uri_char uri (i + 2))])
                      (u32_minus path_len 2)
               else uri_loop p uri uri_len (i + 1) (path @ [c]) path_len)
            else if c = foreign_path_separator p
            then uri_loop p uri uri_len (i + 1) (path @ [native_path_separator p]) path_len
            else uri_loop p uri uri_len (i + 1) (path @ [c]) path_len)
      else (path, path_len))"
  by pat_completeness auto
termination by (relation "measure (\<lambda>(p, uri, uri_len, i, path, path_len). uri_len - i)") auto

declare uri_loop.simps [simp del]

text \<open>
  The buffer has \<open>path_len + 2\<close> bytes, with \<open>path_len\<close> as it was before the loop and the sum as wide as its operands;
  what malloc left in it is \<open>junk\<close>. \<open>Some\<close> path for a buffer, \<open>None\<close> for NULL.
\<close>

definition uri_finish :: "platform \<Rightarrow> string \<Rightarrow> nat \<Rightarrow> (string, 's) prog" where
  "uri_finish p buf path_len =
     andThen (need OutOfBounds (get_at buf (int (u32_minus path_len 1)))) (\<lambda>last.
     andThen (need OutOfBounds (put_at buf (int path_len)
        (if last = native_path_separator p then CHR 0x00 else native_path_separator p))) (\<lambda>buf.
     andThen (need OutOfBounds (put_at buf (int (u32 (path_len + 1))) (CHR 0x00))) (\<lambda>buf.
     ret buf)))"

definition uri_buffer :: "platform \<Rightarrow> (nat \<Rightarrow> char) \<Rightarrow> string \<Rightarrow> (string option, 's) prog" where
  "uri_buffer p junk uri =
     (let uri_len = u32 (length uri)
      in if uri_len = 0 then ret None
      else andThen (uri_path_start p uri) (\<lambda>path_start.
        let path_len = u32 (length uri - path_start)
        in if path_len = 0 then ret None
        else
          let (path, path_len') = uri_loop p uri uri_len path_start [] path_len
          in andThen (need OutOfBounds (put_prefix (map junk [0..<u32 (path_len + 2)]) path)) (\<lambda>buf.
             andThen (uri_finish p buf path_len') (\<lambda>buf. ret (Some buf)))))"

text \<open>The function, from C string to C string; a null \<open>uri\<close> is \<open>None\<close>.\<close>

definition URIToNativePath :: "platform \<Rightarrow> (nat \<Rightarrow> char) \<Rightarrow> string option \<Rightarrow> (string option, 's) prog" where
  "URIToNativePath p junk uri =
     (case uri of None \<Rightarrow> ret None
      | Some u \<Rightarrow> andThen (uri_buffer p junk u) (\<lambda>b. ret (map_option c_str b)))"

section \<open>The loop\<close>

text \<open>The specification of the loop: what a percent-encoded path denotes.\<close>

fun hex_pair :: "string \<Rightarrow> (char \<times> string) option" where
  "hex_pair (a # b # r) = (if isxdigit a \<and> isxdigit b then Some (hex_byte a b, r) else None)"
| "hex_pair _ = None"

lemma hex_pair_length [termination_simp]:
  "hex_pair rest = Some (h, r) \<Longrightarrow> length r < length rest"
  by (cases rest rule: hex_pair.cases) (auto split: if_splits)

lemma hex_pair_length2: "hex_pair rest = Some (h, r) \<Longrightarrow> length rest = length r + 2"
  by (cases rest rule: hex_pair.cases) (auto split: if_splits)

lemma hex_pair_drop:
  "hex_pair (drop i uri) =
     (if i + 1 < length uri \<and> isxdigit (uri ! i) \<and> isxdigit (uri ! (i + 1))
      then Some (hex_byte (uri ! i) (uri ! (i + 1)), drop (i + 2) uri) else None)"
proof (cases "i + 1 < length uri")
  case True
  then have "drop i uri = uri ! i # uri ! (i + 1) # drop (i + 2) uri"
    using Cons_nth_drop_Suc [of i uri] Cons_nth_drop_Suc [of "i + 1" uri] by simp
  with True show ?thesis by simp
next
  case False
  then have "length (drop i uri) \<le> 1" by simp
  with False show ?thesis by (cases "drop i uri" rule: hex_pair.cases) simp_all
qed

fun uri_decode :: "platform \<Rightarrow> string \<Rightarrow> string" where
  "uri_decode p [] = []"
| "uri_decode p (c # rest) =
     (if c = CHR ''%'' then
        (case hex_pair rest of
           Some (h, rest') \<Rightarrow> h # uri_decode p rest'
         | None \<Rightarrow> c # uri_decode p rest)
      else (if c = foreign_path_separator p then native_path_separator p else c) # uri_decode p rest)"

lemma uri_decode_length: "length (uri_decode p xs) \<le> length xs"
proof (induction p xs rule: uri_decode.induct)
  case (2 p c rest)
  then show ?case by (force split: option.splits dest: hex_pair_length2)
qed simp

lemma uri_decode_empty [simp]: "uri_decode p xs = [] \<longleftrightarrow> xs = []"
  by (cases xs) (auto split: option.splits)

lemma uri_decode_length3: "length xs \<le> 3 * length (uri_decode p xs)"
proof (induction p xs rule: uri_decode.induct)
  case (2 p c rest)
  then show ?case by (force split: option.splits dest: hex_pair_length2)
qed simp

lemma isxdigit_nul [simp]: "\<not> isxdigit (CHR 0x00)"
  by (simp add: isxdigit_def code_def)

lemma u32_minus_small [simp]:
  assumes "b \<le> a" and "a < 2 ^ 32"
  shows "u32_minus a b = a - b"
proof -
  have "a + 2 ^ 32 - b = (a - b) + 2 ^ 32" using assms(1) by simp
  moreover have "(a - b + 2 ^ 32) mod 2 ^ 32 = a - b" using assms(2) by (simp only: mod_add_self2) simp
  ultimately show ?thesis unfolding u32_minus_def by (simp only:)
qed

lemma uri_loop_decode:
  assumes "length uri < 2 ^ 32" and "i \<le> length uri" and "length uri - i \<le> n" and "n < 2 ^ 32"
  shows "uri_loop p uri (length uri) i path n =
    (path @ uri_decode p (drop i uri), n + length (uri_decode p (drop i uri)) - (length uri - i))"
  using assms
proof (induction "length uri - i" arbitrary: i path n rule: less_induct)
  case less
  show ?case
  proof (cases "i < length uri")
    case i: True
    let ?c = "uri ! i"
    from i have drop: "drop i uri = ?c # drop (i + 1) uri" by (simp add: Cons_nth_drop_Suc)
    have c: "uri_char uri i = ?c" using i by (simp add: uri_char_def)
    have le: "length (uri_decode p (drop j uri)) \<le> length uri - j" for j
      using uri_decode_length [of p "drop j uri"] by simp
    have digits: "i < u32_minus (length uri) 2 \<and> isxdigit (uri_char uri (i + 1)) \<and> isxdigit (uri_char uri (i + 2)) \<longleftrightarrow>
        i + 2 < length uri \<and> isxdigit (uri ! (i + 1)) \<and> isxdigit (uri ! (i + 2))"
    proof (cases "i + 2 < length uri")
      case True
      then show ?thesis using less.prems(1) by (auto simp: uri_char_def)
    next
      case False
      then show ?thesis using less.prems(1) i by (cases "i + 1 < length uri") (auto simp: uri_char_def)
    qed
    note step = uri_loop.simps [of p uri "length uri" i path n, simplified c i digits Let_def if_True]
    have later: "uri_loop p uri (length uri) (i + k) path' m =
        (path' @ uri_decode p (drop (i + k) uri), m + length (uri_decode p (drop (i + k) uri)) - (length uri - (i + k)))"
      if "0 < k" "i + k \<le> length uri" "length uri - (i + k) \<le> m" "m < 2 ^ 32" for k path' m
      using less.hyps [of "i + k" m path'] less.prems(1) that by simp
    show ?thesis
    proof (cases "?c = CHR ''%''")
      case pc: True
      show ?thesis
      proof (cases "i + 2 < length uri \<and> isxdigit (uri ! (i + 1)) \<and> isxdigit (uri ! (i + 2))")
        case True
        then have "2 \<le> n" using less.prems(3) by linarith
        with True have "uri_loop p uri (length uri) i path n =
            uri_loop p uri (length uri) (i + 3) (path @ [hex_byte (uri ! (i + 1)) (uri ! (i + 2))]) (n - 2)"
          using pc less.prems by (simp add: step uri_char_def)
        also have "\<dots> = (path @ hex_byte (uri ! (i + 1)) (uri ! (i + 2)) # uri_decode p (drop (i + 3) uri),
            n - 2 + length (uri_decode p (drop (i + 3) uri)) - (length uri - (i + 3)))"
          using True less.prems by (subst later) simp_all
        moreover have "n - 2 + l - (length uri - (i + 3)) = n + Suc l - (length uri - i)" for l
          using True less.prems(3) by arith
        ultimately show ?thesis
          using True pc by (simp only: drop) (simp add: hex_pair_drop numeral_3_eq_3)
      next
        case False
        have "uri_loop p uri (length uri) i path n = uri_loop p uri (length uri) (i + 1) (path @ [?c]) n"
          using False pc by (auto simp: step)
        also have "\<dots> = (path @ ?c # uri_decode p (drop (i + 1) uri),
            n + length (uri_decode p (drop (i + 1) uri)) - (length uri - (i + 1)))"
          using i less.prems by (subst later) simp_all
        finally show ?thesis
          using False pc i less.prems by (auto simp: drop hex_pair_drop)
      qed
    next
      case False
      let ?d = "if ?c = foreign_path_separator p then native_path_separator p else ?c"
      have "uri_loop p uri (length uri) i path n = uri_loop p uri (length uri) (i + 1) (path @ [?d]) n"
        using False by (simp add: step)
      also have "\<dots> = (path @ ?d # uri_decode p (drop (i + 1) uri),
          n + length (uri_decode p (drop (i + 1) uri)) - (length uri - (i + 1)))"
        using i less.prems by (subst later) simp_all
      finally show ?thesis
        using False i less.prems by (simp add: drop)
    qed
  qed (use less.prems in \<open>simp add: uri_loop.simps\<close>)
qed

text \<open>The terminated path, with a separator added where it does not end in one.\<close>

definition with_separator :: "platform \<Rightarrow> string \<Rightarrow> string" where
  "with_separator p xs = (if last xs = native_path_separator p then xs else xs @ [native_path_separator p])"

lemma uri_finish_run:
  assumes "xs \<noteq> []" and "length xs + 1 < 2 ^ 32"
  shows "uri_finish p (xs @ a # b # r) (length xs) s =
    Ret (xs @ (if last xs = native_path_separator p then CHR 0x00 else native_path_separator p) # CHR 0x00 # r) s"
proof -
  obtain ys y where "xs = ys @ [y]" using assms by (metis append_butlast_last_id)
  then have "get_at (xs @ a # b # r) (int (length xs) - 1) = Some (last xs)"
    by (simp add: get_at_def nth_append)
  moreover have "u32_minus (length xs) 1 = length xs - 1" "u32 (length xs + 1) = length xs + 1" "1 \<le> length xs"
    using assms by (simp_all add: Suc_le_eq)
  ultimately show ?thesis
    using assms(2) by (simp add: uri_finish_def put_at_def nat_add_distrib list_update_append of_nat_diff)
qed

lemma split_two: "length xs + 2 \<le> length ys \<Longrightarrow> \<exists>a b r. drop (length xs) ys = a # b # r"
  by (cases "drop (length xs) ys" rule: remdups_adj.cases)
    (auto dest: arg_cong [where f = length])

lemma uri_buffer_run:
  assumes "uri_path_start p uri s = Ret k s" and "k < length uri" and "length uri < 2 ^ 32" and "length uri - k + 2 < 2 ^ 32"
  shows "\<exists>r. uri_buffer p junk uri s = Ret (Some (with_separator p (uri_decode p (drop k uri)) @ CHR 0x00 # r)) s"
proof -
  let ?n = "length uri - k" and ?path = "uri_decode p (drop k uri)"
  have le: "length ?path \<le> ?n" using uri_decode_length [of p "drop k uri"] by simp
  have loop: "uri_loop p uri (length uri) k [] ?n = (?path, length ?path)"
    using uri_loop_decode [of uri k ?n p "[]"] assms(2-4) by simp
  let ?arr = "map junk [0..<?n + 2]"
  obtain a b r where r: "drop (length ?path) ?arr = a # b # r"
    using split_two [of ?path ?arr] le by auto
  then have put: "put_prefix ?arr ?path = Some (?path @ a # b # r)"
    using le by (simp add: put_prefix_def del: upt_Suc)
  have "?path \<noteq> []" using assms(2) by simp
  moreover have "length ?path + 1 < 2 ^ 32" using le assms(4) by linarith
  ultimately
  have "uri_finish p (?path @ a # b # r) (length ?path) s =
    Ret (?path @ (if last ?path = native_path_separator p then CHR 0x00 else native_path_separator p) # CHR 0x00 # r) s"
    by (rule uri_finish_run)
  then show ?thesis
    using assms put loop by (auto simp: uri_buffer_def Let_def with_separator_def simp del: upt_Suc)
qed

lemma URIToNativePath_run:
  assumes "uri_path_start p uri s = Ret k s" and "k < length uri" and "length uri < 2 ^ 32" and "length uri - k + 2 < 2 ^ 32"
  shows "URIToNativePath p junk (Some uri) s = Ret (Some (c_str (with_separator p (uri_decode p (drop k uri))))) s"
  using uri_buffer_run [OF assms, of junk] by (auto simp: URIToNativePath_def)

lemma uri_path_start_cases:
  "uri_path_start p uri s = Ret k s \<longleftrightarrow>
     (if strncmp_eq uri ''file:///'' then
        (\<exists>c. uri_at uri 9 = Some c \<and> k = (if c = CHR '':'' then 8 else 7))
      else if p = Windows \<and> strncmp_eq uri ''file://'' then k = 5
      else if strncmp_eq uri ''file:/'' then
        (\<exists>c. uri_at uri 7 = Some c \<and> k = (if c = CHR '':'' then 6 else 5))
      else k = 0)"
  by (auto simp: uri_path_start_def andThen_Ret_iff need_Ret_iff)

lemma strncmp_eq_length: "strncmp_eq uri q \<Longrightarrow> length q \<le> length uri"
  unfolding strncmp_eq_def by (metis length_take min.cobounded1)

lemma strncmp_eq_exact: "strncmp_eq uri q \<Longrightarrow> length uri = length q \<Longrightarrow> uri = q"
  by (simp add: strncmp_eq_def)

lemma uri_at_None_iff: "uri_at uri i = None \<longleftrightarrow> length uri < i"
  by (simp add: uri_at_def get_at_def)









text \<open>Where the copy starts is found without leaving the URI, but for the two URIs that end too early.\<close>

lemma uri_path_start_safe:
  assumes "uri \<noteq> ''file:///''" and "uri \<noteq> ''file:/''"
  shows "\<exists>k. uri_path_start p uri s = Ret k s"
proof (cases "strncmp_eq uri ''file:///''")
  case True
  then have "length uri \<noteq> 8" using assms strncmp_eq_exact [OF True] by auto
  then have "uri_at uri 9 \<noteq> None"
    using strncmp_eq_length [OF True] by (simp add: uri_at_None_iff)
  then obtain c where "uri_at uri 9 = Some c" by blast
  with True show ?thesis by (simp add: uri_path_start_def)
next
  case False
  show ?thesis
  proof (cases "strncmp_eq uri ''file:/''")
    case True
    then have "length uri \<noteq> 6" using assms strncmp_eq_exact [OF True] by auto
    then have "uri_at uri 7 \<noteq> None"
      using strncmp_eq_length [OF True] by (simp add: uri_at_None_iff)
    then obtain c where "uri_at uri 7 = Some c" by blast
    with True False show ?thesis by (simp add: uri_path_start_def)
  next
    case none: False
    with False show ?thesis by (simp add: uri_path_start_def)
  qed
qed

lemma uri_too_short:
  "URIToNativePath p junk (Some ''file:///'') s = Fault OutOfBounds" "URIToNativePath p junk (Some ''file:/'') s = Fault OutOfBounds"
  by (simp_all add: URIToNativePath_def uri_buffer_def uri_path_start_def strncmp_eq_def uri_at_def get_at_def)

lemma strncmp_eq_shorter: "strncmp_eq uri q \<Longrightarrow> n \<le> length q \<Longrightarrow> take n uri = take n q"
  unfolding strncmp_eq_def by (metis min.absorb1 take_take)

lemma uri_start_prefix:
  assumes "uri_path_start p uri s = Ret k s"
  shows "take 6 uri = ''file:/'' \<and> 5 \<le> k \<or> take 6 uri \<noteq> ''file:/'' \<and> k = 0"
proof -
  have 8: "take 6 uri = ''file:/''" if "strncmp_eq uri ''file:///''" using strncmp_eq_shorter [OF that, of 6] by simp
  have 7: "take 6 uri = ''file:/''" if "strncmp_eq uri ''file://''" using strncmp_eq_shorter [OF that, of 6] by simp
  have 6: "strncmp_eq uri ''file:/'' \<longleftrightarrow> take 6 uri = ''file:/''" by (simp add: strncmp_eq_def numeral_eq_Suc)
  show ?thesis
    using assms unfolding uri_path_start_cases 6 by (auto split: if_splits dest: 8 7)
qed

text \<open>Two native paths of lengths for which \<open>path_len + 2\<close> wraps; the copy does not fit in what was allocated.\<close>

lemma uri_buffer_overrun:
  assumes "uri_path_start p uri s = Ret 0 s" and "length uri < 2 ^ 32" and "\<not> length uri + 2 < 2 ^ 32"
  shows "uri_buffer p junk uri s = Fault OutOfBounds"
proof -
  let ?n = "length uri" and ?path = "uri_decode p uri"
  have loop: "uri_loop p uri ?n 0 [] ?n = (?path, length ?path)"
    using uri_loop_decode [of uri 0 ?n p "[]"] assms(2) by simp
  have "u32 (?n + 2) = ?n + 2 - 2 ^ 32" using assms(2,3) by (subst le_mod_geq) simp_all
  then have "u32 (?n + 2) < 2" using assms(2) by linarith
  moreover have "2 \<le> length ?path" using uri_decode_length3 [of uri p] assms(3) by simp
  ultimately have "put_prefix (map junk [0..<u32 (?n + 2)]) ?path = None" by (simp add: put_prefix_def)
  moreover have "uri \<noteq> []" using assms(3) by auto
  ultimately show ?thesis
    using assms loop by (simp add: uri_buffer_def Let_def)
qed

section \<open>Properties\<close>

text \<open>
  C13: Memory safety of the conversion: for a URI of less than \<open>2 ^ 32\<close> characters, on either platform, the
  function returns without an access outside its arrays exactly if the URI is neither \<open>file:///\<close> nor \<open>file:/\<close>,
  where it looks for a drive letter's colon behind the terminator, nor a native path of \<open>2 ^ 32 - 2\<close> or
  \<open>2 ^ 32 - 1\<close> characters, for which the size of the buffer, an \<open>unsigned int\<close>, wraps to 0 or 1.
\<close>

theorem uri_memory_safe:
  assumes "length uri < 2 ^ 32"
  shows "(\<exists>r. URIToNativePath p junk (Some uri) s = Ret r s) \<longleftrightarrow>
    uri \<noteq> ''file:///'' \<and> uri \<noteq> ''file:/'' \<and> (take 6 uri = ''file:/'' \<or> length uri < 2 ^ 32 - 2)"
proof (cases "uri = ''file:///'' \<or> uri = ''file:/''")
  case True
  then have "URIToNativePath p junk (Some uri) s = Fault OutOfBounds"
    by (auto simp: uri_too_short)
  with True show ?thesis by auto
next
  case False
  then obtain k where k: "uri_path_start p uri s = Ret k s" using uri_path_start_safe [of uri p s] by blast
  note start = k [unfolded uri_path_start_cases]
  show ?thesis
  proof (cases "length uri - k + 2 < 2 ^ 32")
    case small: True
    have "\<exists>r. URIToNativePath p junk (Some uri) s = Ret r s"
    proof (cases "k < length uri")
      case True
      then show ?thesis using URIToNativePath_run [OF k True assms small] by blast
    next
      case False
      then show ?thesis using k by (simp add: URIToNativePath_def uri_buffer_def Let_def)
    qed
    moreover have "take 6 uri = ''file:/'' \<or> length uri < 2 ^ 32 - 2"
      using small start uri_start_prefix [OF k] by auto
    ultimately show ?thesis using False by simp
  next
    case large: False
    then have "k = 0" "take 6 uri \<noteq> ''file:/''" using assms uri_start_prefix [OF k] by auto
    moreover have "URIToNativePath p junk (Some uri) s = Fault OutOfBounds"
      using uri_buffer_overrun [OF k [unfolded \<open>k = 0\<close>] assms] large \<open>k = 0\<close> by (simp add: URIToNativePath_def)
    ultimately show ?thesis using large False by simp
  qed
qed

theorem uri_memory_safe_witness:
  "(\<exists>r. URIToNativePath Windows (\<lambda>_. CHR ''?'') (Some ''file://'') () = Ret r ()) \<and>
   \<not> (\<exists>r. URIToNativePath Windows (\<lambda>_. CHR ''?'') (Some ''file:/'') () = Ret r ())"
  using uri_memory_safe [of "''file://''" Windows "\<lambda>_. CHR ''?''" "()"] uri_memory_safe [of "''file:/''" Windows "\<lambda>_. CHR ''?''" "()"]
  by simp



text \<open>
  What is returned for any URI that is converted: the part behind the scheme, decoded and
  with the other platform's separators replaced, ends in the native separator and has no foreign
  separator that was not percent-encoded.
\<close>

theorem uri_result:
  assumes "URIToNativePath p junk (Some uri) s = Ret (Some path) s" and "CHR ''%'' \<notin> set uri"
    and "CHR 0x00 \<notin> set uri" and "length uri < 2 ^ 32 - 2"
  shows "last path = native_path_separator p \<and> foreign_path_separator p \<notin> set path \<and>
    (\<exists>k \<le> 8. path = with_separator p
       (map (\<lambda>c. if c = foreign_path_separator p then native_path_separator p else c) (drop k uri)))"
proof -
  let ?tr = "\<lambda>c. if c = foreign_path_separator p then native_path_separator p else c"
  have "uri \<noteq> u" if "URIToNativePath p junk (Some u) s = Fault OutOfBounds" for u
    using assms(1) that by auto
  from uri_path_start_safe [OF this [OF uri_too_short(1)] this [OF uri_too_short(2)], of p s]
  obtain k where k: "uri_path_start p uri s = Ret k s" ..
  have "k < length uri"
  proof (rule ccontr)
    assume "\<not> k < length uri"
    then have "URIToNativePath p junk (Some uri) s = Ret None s" using k by (simp add: URIToNativePath_def uri_buffer_def Let_def)
    with assms(1) show False by simp
  qed
  note k = k this
  have dec: "CHR ''%'' \<notin> set xs \<Longrightarrow> uri_decode p xs = map ?tr xs" for xs
    by (induction xs) auto
  have sub: "set (drop k uri) \<subseteq> set uri" by (rule set_drop_subset)
  let ?q = "with_separator p (map ?tr (drop k uri))"
  have nul: "CHR 0x00 \<notin> set ?q"
    using sub assms(3) by (cases p) (auto simp: with_separator_def split: if_splits)
  have "CHR ''%'' \<notin> set (drop k uri)" using sub assms(2) by blast
  then have path: "path = ?q"
    using URIToNativePath_run [OF k, of junk] assms(1,4) dec [of "drop k uri"] c_str_id [OF nul] by simp
  have "k \<le> 8" using k(1) by (auto simp: uri_path_start_cases split: if_splits)
  moreover have "last ?q = native_path_separator p"
    by (simp add: with_separator_def)
  moreover have "foreign_path_separator p \<notin> set ?q"
    by (cases p) (auto simp: with_separator_def split: if_splits)
  ultimately show ?thesis using path by blast
qed

theorem uri_result_witness:
  "URIToNativePath Windows (\<lambda>_. CHR ''?'') (Some ''file:///c:/x'') () = Ret (Some (''c:'' @ [CHR 0x5C] @ ''x'' @ [CHR 0x5C])) ()"
proof -
  have "uri_path_start Windows ''file:///c:/x'' () = Ret 8 ()"
    by (simp add: uri_path_start_def strncmp_eq_def uri_at_def get_at_def)
  from URIToNativePath_run [OF this, of "\<lambda>_. CHR ''?''"]
  have "URIToNativePath Windows (\<lambda>_. CHR ''?'') (Some ''file:///c:/x'') () = Ret (Some (''c:'' @ [CHR 0x5C] @ ''x'' @ [CHR 0x5C])) ()"
    by (simp add: with_separator_def c_str_def)
  with uri_result [OF this] show ?thesis by simp
qed

end
