(* ===== verification/Launch.thy ===== *)
theory Launch
  imports ShmPrelude
begin

text \<open>
  Starting the external program: the configuration read from an FMU's resources
  (libshmfmu/ConfigFile.h, ConfigFile.cpp) and the launcher (libshmfmu/JavaLauncher.h,
  JavaLauncher.cpp). File contents and the results of the system calls are parameters.
\<close>

section \<open>The configuration file\<close>

abbreviation LF :: char where "LF \<equiv> CHR 0x0A"
abbreviation CR :: char where "CR \<equiv> CHR 0x0D"

text \<open>The lines \<open>std::getline\<close> yields: a last line without newline counts unless it is empty.\<close>

fun getlines :: "string \<Rightarrow> string \<Rightarrow> string list" where
  "getlines acc [] = (if acc = [] then [] else [acc])"
| "getlines acc (c # cs) = (if c = LF then acc # getlines [] cs else getlines (acc @ [c]) cs)"

record ConfigFile =
  m_skipLaunch :: bool
  m_port :: string
  m_args :: "string list"

text \<open>The reading loop, from line \<open>index\<close> on; \<open>m_args\<close> collects \<open>arguments\<close>.\<close>

fun config_loop :: "nat \<Rightarrow> string list \<Rightarrow> ConfigFile \<Rightarrow> ConfigFile" where
  "config_loop index [] cf = cf"
| "config_loop index (str # strs) cf =
     config_loop (index + 1) strs
       (if index = 0 then cf\<lparr>m_skipLaunch := \<not> (str = ''false'')\<rparr>
        else if m_skipLaunch cf \<and> index = 1 then cf\<lparr>m_port := str\<rparr>
        else cf\<lparr>m_args := m_args cf @ [str]\<rparr>)"

text \<open>An argument as the C string it becomes: ended by its first NUL or carriage return.\<close>

definition config_arg :: "string \<Rightarrow> string" where
  "config_arg s = takeWhile (\<lambda>c. c \<noteq> CR) (c_str s)"

text \<open>
  \<open>contents\<close> is what the file holds, \<open>None\<close> when it cannot be read. \<open>m_args\<close> is the argument
  vector before its terminating null pointer.
\<close>

definition ConfigFile_new :: "string option \<Rightarrow> string \<Rightarrow> ConfigFile" where
  "ConfigFile_new contents port =
     (let lines = (case contents of None \<Rightarrow> [] | Some t \<Rightarrow> getlines [] t);
          cf = config_loop 0 lines \<lparr>m_skipLaunch = True, m_port = [], m_args = []\<rparr>
      in cf\<lparr>m_args := map config_arg (m_args cf) @ [c_str port]\<rparr>)"

section \<open>The launcher\<close>

record JavaLauncher =
  m_workingDir :: string
  m_launched :: bool
  jl_args :: "string list"
  m_visible :: bool
  jl_pid :: int

definition JavaLauncher_new :: "bool \<Rightarrow> string \<Rightarrow> string list \<Rightarrow> JavaLauncher" where
  "JavaLauncher_new visible workingDir args =
     \<lparr>m_workingDir = workingDir, m_launched = False, jl_args = args, m_visible = visible, jl_pid = -1\<rparr>"

text \<open>
  What the system answers to one \<open>launch\<close> on a POSIX system: the value \<open>fork\<close> returns to the
  caller (-1 when it fails), the status \<open>waitpid\<close> stores, the value the second \<open>fork\<close> returns in
  the child, and whether the grandchild's \<open>chdir\<close> and \<open>execvp\<close> succeed.
\<close>

record launch_os =
  fork1 :: int
  wait_status :: c_int
  fork2 :: int
  chdir_ok :: bool
  exec_ok :: bool

datatype process = Caller | Grandchild

text \<open>
  The processes that return from the call, each with its result (\<open>None\<close> for the uninitialized
  \<open>status\<close>) and its copy of the launcher, and the program that was started, with its arguments and
  whether it runs in the working directory. The child itself exits whatever the second \<open>fork\<close>
  returned to it, -1 included.
\<close>

definition launch ::
  "launch_os \<Rightarrow> JavaLauncher \<Rightarrow>
   (process \<times> c_int option \<times> JavaLauncher) list \<times> (string list \<times> bool) option"
where
  "launch os jl =
     (if fork1 os = -1 then
        ([(Caller, None, jl\<lparr>jl_pid := -1, m_launched := False\<rparr>)], None)
      else
        let caller = (Caller, Some (wait_status os), jl\<lparr>jl_pid := fork1 os, m_launched := True\<rparr>)
        in if fork2 os = -1 then ([caller], None)
           else if exec_ok os then ([caller], Some (jl_args jl, chdir_ok os))
           else ([caller, (Grandchild, Some (-1), jl\<lparr>jl_pid := 0\<rparr>)], None))"

definition JavaLauncher_terminate :: "JavaLauncher \<Rightarrow> JavaLauncher" where
  "JavaLauncher_terminate jl = (if m_launched jl then jl\<lparr>m_launched := False\<rparr> else jl)"

text \<open>
  The command line the Windows branch builds: every argument with a blank behind it, copied
  without a terminator; the last blank is overwritten by one.
\<close>

definition windows_cmd :: "string list \<Rightarrow> string" where
  "windows_cmd args = concat (map (\<lambda>a. a @ '' '') args)"

definition windows_command_line :: "string list \<Rightarrow> (string, 's) prog" where
  "windows_command_line args =
     (let cmd = windows_cmd args
      in andThen (need OutOfBounds (put_at cmd (int (length cmd) - 1) (CHR 0x00))) (\<lambda>buf. ret (c_str buf)))"

text \<open>
  The Windows branch of \<open>launch\<close>: \<open>CreateProcess\<close> is given the command line, whether a window may be
  shown and the directory to run in, and returns the process or fails.
\<close>

definition launch_windows ::
  "(string \<Rightarrow> bool \<Rightarrow> string \<Rightarrow> int option) \<Rightarrow> JavaLauncher \<Rightarrow> (c_int \<times> JavaLauncher, 's) prog" where
  "launch_windows CreateProcess jl =
     andThen (windows_command_line (jl_args jl)) (\<lambda>buf.
     case CreateProcess buf (m_visible jl) (m_workingDir jl) of
       None \<Rightarrow> ret (1, jl)
     | Some pid \<Rightarrow> ret (0, jl\<lparr>jl_pid := pid, m_launched := True\<rparr>))"

text \<open>\<open>terminate\<close> on Windows, with the process of the last launch and exit code 0.\<close>

definition terminate_windows ::
  "(int \<Rightarrow> nat \<Rightarrow> 's \<Rightarrow> 's) \<Rightarrow> JavaLauncher \<Rightarrow> (JavaLauncher, 's) prog" where
  "terminate_windows TerminateProcess jl s =
     (if m_launched jl then Ret (jl\<lparr>m_launched := False\<rparr>) (TerminateProcess (jl_pid jl) 0 s) else Ret jl s)"

section \<open>Lines\<close>

text \<open>A text file with the given line ends.\<close>

definition text_file :: "string \<Rightarrow> string list \<Rightarrow> string" where
  "text_file eol ls = concat (map (\<lambda>l. l @ eol @ [LF]) ls)"

lemma getlines_line: "LF \<notin> set l \<Longrightarrow> getlines acc (l @ LF # r) = (acc @ l) # getlines [] r"
  by (induction l arbitrary: acc) auto

lemma getlines_file:
  "LF \<notin> set eol \<Longrightarrow> \<forall>l\<in>set ls. LF \<notin> set l \<Longrightarrow> getlines [] (text_file eol ls) = map (\<lambda>l. l @ eol) ls"
proof (induction ls)
  case (Cons l ls)
  then show ?case
    using getlines_line [of "l @ eol" "[]" "text_file eol ls"] by (simp add: text_file_def)
qed (simp add: text_file_def)

lemma config_loop_rest:
  "2 \<le> index \<Longrightarrow> config_loop index ls cf = cf\<lparr>m_args := m_args cf @ ls\<rparr>"
  by (induction ls arbitrary: index cf) simp_all

lemma config_loop_args:
  "\<not> m_skipLaunch cf \<Longrightarrow> 1 \<le> index \<Longrightarrow> config_loop index ls cf = cf\<lparr>m_args := m_args cf @ ls\<rparr>"
  by (induction ls arbitrary: index cf) simp_all

lemma config_loop_skip:
  "m_skipLaunch cf \<Longrightarrow> config_loop 1 (l # ls) cf = cf\<lparr>m_port := l, m_args := m_args cf @ ls\<rparr>"
  by (simp add: config_loop_rest)

definition plain :: "string \<Rightarrow> bool" where
  "plain l \<longleftrightarrow> LF \<notin> set l \<and> CR \<notin> set l \<and> CHR 0x00 \<notin> set l"

lemma config_arg_eol:
  "plain l \<Longrightarrow> eol = [] \<or> eol = [CR] \<Longrightarrow> config_arg (l @ eol) = l"
  by (induction l) (auto simp: config_arg_def c_str_def plain_def)

lemma config_file_launches:
  assumes "\<forall>l\<in>set args. plain l" and "plain port"
  shows "ConfigFile_new (Some (text_file [] (''false'' # args))) port =
    \<lparr>m_skipLaunch = False, m_port = [], m_args = args @ [port]\<rparr>"
proof -
  have "getlines [] (text_file [] (''false'' # args)) = ''false'' # args"
    using getlines_file [of "[]" "''false'' # args"] assms(1) by (simp add: plain_def)
  moreover have "map config_arg args = args"
    using assms(1) config_arg_eol [of _ "[]"] by (intro map_idI) fastforce
  moreover have "c_str port = port" using assms(2) by (intro c_str_id) (simp add: plain_def)
  ultimately show ?thesis
    by (simp add: ConfigFile_new_def config_loop_args)
qed

section \<open>Properties\<close>

text \<open>
  A configuration with Unix line ends whose first line is \<open>false\<close> launches: the argument
  vector is exactly the remaining lines followed by the memory key.
\<close>

theorem config_launches:
  assumes "\<forall>l\<in>set args. plain l" and "plain port"
  shows "ConfigFile_new (Some (text_file [] (''false'' # args))) port =
    \<lparr>m_skipLaunch = False, m_port = [], m_args = args @ [port]\<rparr>"
  by (rule config_file_launches [OF assms])

theorem config_launches_witness:
  "ConfigFile_new (Some (text_file [] [''false'', ''java'', ''-jar''])) ''key'' =
     \<lparr>m_skipLaunch = False, m_port = [], m_args = [''java'', ''-jar'', ''key'']\<rparr>"
  using config_launches [of "[''java'', ''-jar'']" "''key''"] by (simp add: plain_def)

text \<open>
  With carriage returns at the line ends the same configuration does not launch, although the
  reader strips them from the arguments: the comparison of the first line with \<open>false\<close> fails, the
  launch is skipped and the program's name is taken for the port.
\<close>

theorem config_crlf_skips:
  assumes "\<forall>l\<in>set args. plain l" and "plain prog" and "plain port"
  shows "ConfigFile_new (Some (text_file [CR] (''false'' # prog # args))) port =
    \<lparr>m_skipLaunch = True, m_port = prog @ [CR], m_args = args @ [port]\<rparr>"
proof -
  have "getlines [] (text_file [CR] (''false'' # prog # args)) = map (\<lambda>l. l @ [CR]) (''false'' # prog # args)"
    using getlines_file [of "[CR]" "''false'' # prog # args"] assms(1,2) by (simp add: plain_def)
  moreover have "map (\<lambda>l. config_arg (l @ [CR])) args = args"
    using assms(1) config_arg_eol [of _ "[CR]"] by (intro map_idI) fastforce
  moreover have "c_str port = port" using assms(3) by (intro c_str_id) (simp add: plain_def)
  ultimately show ?thesis
    using config_loop_skip by (simp add: ConfigFile_new_def comp_def config_loop_rest)
qed

theorem config_crlf_skips_witness:
  "ConfigFile_new (Some (text_file [CR] [''false'', ''java'', ''-jar''])) ''key'' =
     \<lparr>m_skipLaunch = True, m_port = ''java'' @ [CR], m_args = [''-jar'', ''key'']\<rparr>"
  using config_crlf_skips [of "[''-jar'']" "''java''" "''key''"] by (simp add: plain_def)

text \<open>
  The caller learns nothing of a launch that failed after the first \<open>fork\<close>: it sees the launch
  as done, with the child's status, whether or not the program runs; and when the program cannot
  be executed, a second copy of the calling process returns from \<open>launch\<close>.
\<close>

theorem launch_reports:
  assumes "fork1 os \<noteq> -1"
  shows "(\<exists>jl'. hd (fst (launch os jl)) = (Caller, Some (wait_status os), jl') \<and> m_launched jl') \<and>
    (snd (launch os jl) \<noteq> None \<longleftrightarrow> fork2 os \<noteq> -1 \<and> exec_ok os) \<and>
    (length (fst (launch os jl)) = 2 \<longleftrightarrow> fork2 os \<noteq> -1 \<and> \<not> exec_ok os)"
  using assms by (simp add: launch_def Let_def)

theorem launch_reports_witness:
  "length (fst (launch \<lparr>fork1 = 41, wait_status = 0, fork2 = 42, chdir_ok = True, exec_ok = False\<rparr>
     (JavaLauncher_new True ''.'' [''nojava'', ''key'']))) = 2"
  using launch_reports [of "\<lparr>fork1 = 41, wait_status = 0, fork2 = 42, chdir_ok = True, exec_ok = False\<rparr>"
      "JavaLauncher_new True ''.'' [''nojava'', ''key'']"] by simp

text \<open>
  On Windows the command line is the arguments separated by single blanks; an empty argument
  vector is out of bounds. Arguments are not quoted.
\<close>

theorem windows_command_line_joins:
  assumes "\<forall>a\<in>set args. CHR 0x00 \<notin> set a"
  shows "windows_command_line args s =
    (if args = [] then Fault OutOfBounds
     else Ret (concat (map (\<lambda>a. a @ '' '') (butlast args)) @ last args) s)"
proof (cases "args = []")
  case True
  then show ?thesis by (simp add: windows_command_line_def windows_cmd_def put_at_def)
next
  case False
  let ?body = "concat (map (\<lambda>a. a @ '' '') (butlast args)) @ last args"
  have "windows_cmd (butlast args @ [last args]) = ?body @ '' ''"
    by (simp add: windows_cmd_def)
  then have cmd: "windows_cmd args = ?body @ '' ''" using False by simp
  have "\<forall>a\<in>set (butlast args @ [last args]). CHR 0x00 \<notin> set a"
    using assms False by simp
  then have "CHR 0x00 \<notin> set ?body" by auto
  then have "c_str (?body @ [CHR 0x00]) = ?body"
    using c_str_id c_str_prefix [of ?body "[]"] by simp
  moreover have "put_at (?body @ '' '') (int (length (?body @ '' '')) - 1) (CHR 0x00) = Some (?body @ [CHR 0x00])"
    by (rule put_at_last)
  ultimately show ?thesis
    unfolding windows_command_line_def cmd Let_def using False by simp
qed

theorem windows_command_line_joins_witness:
  "windows_command_line [''java'', ''-jar'', ''key''] () = Ret ''java -jar key'' ()"
  using windows_command_line_joins [of "[''java'', ''-jar'', ''key'']" "()"] by simp

text \<open>
  On Windows the launcher starts one process from the joined arguments and says truly whether it
  started: zero and launched, or one and the launcher as it was.
\<close>

theorem launch_windows_reports:
  assumes "\<forall>a\<in>set (jl_args jl). CHR 0x00 \<notin> set a" and "jl_args jl = args @ [key]"
  shows "launch_windows CreateProcess jl s =
    (case CreateProcess (concat (map (\<lambda>a. a @ '' '') args) @ key) (m_visible jl) (m_workingDir jl) of
       None \<Rightarrow> Ret (1, jl) s
     | Some pid \<Rightarrow> Ret (0, jl\<lparr>jl_pid := pid, m_launched := True\<rparr>) s)"
  using windows_command_line_joins [OF assms(1), of s] assms(2)
  by (simp add: launch_windows_def andThen_def split: option.split)

text \<open>
  A process that \<open>launch\<close> started on Windows is terminated once, however often \<open>terminate\<close> is called;
  where it started none, none is terminated.
\<close>

theorem terminate_windows_once:
  assumes "launch_windows CreateProcess jl s = Ret (r, jl') t" and "\<not> m_launched jl"
  shows "andThen (terminate_windows TerminateProcess jl') (terminate_windows TerminateProcess) u =
    Ret (jl'\<lparr>m_launched := False\<rparr>) (if r = 0 then TerminateProcess (jl_pid jl') 0 u else u)"
  using assms by (auto simp: launch_windows_def terminate_windows_def andThen_Ret_iff split: option.splits)

end
