(* ===== verification/Fmu.thy ===== *)
theory Fmu
  imports ProxyProperties Uri Launch
begin

text \<open>
  The FMI functions of the wrapper FMU (libshmfmu/fmu.cpp) and the container that stands behind a
  component (libshmfmu/FmuContainer.h, FmuContainer.cpp): creating an instance, forwarding every
  call to its proxy, freeing it, and the thread that delivers the remote side's log messages.
\<close>

section \<open>State\<close>

datatype fmi2Status = fmi2OK | fmi2Warning | fmi2Discard | fmi2Error | fmi2Fatal | fmi2Pending

datatype fmi2StatusKind =
  fmi2DoStepStatus | fmi2PendingStatus | fmi2LastSuccessfulTime | fmi2Terminated

text \<open>What the code uses of \<open>fmi2CallbackFunctions\<close>: whether \<open>logger\<close> is set, and the environment.\<close>

record callbacks =
  has_logger :: bool
  cb_environment :: nat

text \<open>One call of the simulator's logger: the format and what it is formatted with.\<close>

record log_entry =
  log_environment :: nat
  log_instance :: string
  log_status :: fmi2Status
  log_category :: string
  log_format :: string
  log_args :: "string list"

text \<open>
  \<open>callbackThread\<close> is the key the thread was started with; \<open>m_functions\<close> cannot be null, its
  constructor dereferences it.
\<close>

record FmuContainer =
  m_functions :: callbacks
  m_proxy :: FmuProxy
  c_name :: string
  m_javaLauncher :: JavaLauncher
  active :: bool
  componentEnvironment :: nat
  c_id :: c_int
  callbackThread :: "string option"

text \<open>
  The library's globals and heap: an \<open>fmi2Component\<close> is a pointer, \<open>None\<close> for NULL, and
  \<open>containers\<close> says what is allocated at an address. \<open>launched\<close> are the programs started.
\<close>

record 'p fmu_world = "'p world" +
  currentId :: c_int
  g_clients :: "nat option list"
  containers :: "nat \<Rightarrow> FmuContainer option"
  next_addr :: nat
  logged :: "log_entry list"
  launched :: "(string list \<times> bool) list"

text \<open>What an instantiation depends on besides: the UUID, the files, the launch, malloc's memory.\<close>

record inst_os =
  uuid4 :: "bool \<times> string"
  files :: "string \<Rightarrow> string option"
  launch_env :: launch_os
  malloc_junk :: "nat \<Rightarrow> char"

section \<open>Containers\<close>

definition FileExists :: "inst_os \<Rightarrow> string \<Rightarrow> bool" where
  "FileExists ios f \<longleftrightarrow> files ios f \<noteq> None"

definition getFmuContainer :: "nat option list \<Rightarrow> nat option \<Rightarrow> nat option" where
  "getFmuContainer cs c = (if c \<in> set cs then c else None)"

definition FmuContainer_new ::
  "c_int \<Rightarrow> FmuProxy \<Rightarrow> string \<Rightarrow> callbacks option \<Rightarrow> JavaLauncher \<Rightarrow> (FmuContainer, 's) prog"
where
  "FmuContainer_new ident proxy name functions launcher =
     andThen (need NullDeref functions) (\<lambda>f.
     ret \<lparr>m_functions = f, m_proxy = proxy, c_name = c_str name, m_javaLauncher = launcher,
          active = True, componentEnvironment = cb_environment f, c_id = ident, callbackThread = None\<rparr>)"

text \<open>Reading and writing through a container's address.\<close>

definition get_container :: "nat \<Rightarrow> (FmuContainer, ('p, 'z) fmu_world_scheme) prog" where
  "get_container k s = need BadHandle (containers s k) s"

definition set_container :: "nat \<Rightarrow> FmuContainer \<Rightarrow> (unit, ('p, 'z) fmu_world_scheme) prog" where
  "set_container k fc s = Ret () (s\<lparr>containers := (containers s)(k \<mapsto> fc)\<rparr>)"

text \<open>
  The destructor: terminate the launcher, free it, the name, the proxy with its server, and the
  thread object; then the memory is gone.
\<close>

definition FmuContainer_delete :: "unix \<Rightarrow> nat \<Rightarrow> (unit, ('p, 'z) fmu_world_scheme) prog" where
  "FmuContainer_delete u k =
     andThen (get_container k) (\<lambda>fc.
     andThen (FmuProxy_delete u (m_proxy fc)) (\<lambda>_ s.
     Ret () (s\<lparr>containers := (containers s)(k := None)\<rparr>)))"

section \<open>Conversions and logging\<close>

fun convertStatus :: "proxy_status \<Rightarrow> fmi2Status" where
  "convertStatus px_Discard = fmi2Discard"
| "convertStatus px_Error = fmi2Error"
| "convertStatus px_Fatal = fmi2Fatal"
| "convertStatus px_OK = fmi2OK"
| "convertStatus px_Pending = fmi2Pending"
| "convertStatus px_Warning = fmi2Warning"

fun convertStatusKind :: "fmi2StatusKind \<Rightarrow> proxy_status_kind" where
  "convertStatusKind fmi2DoStepStatus = px_DoStepStatus"
| "convertStatusKind fmi2LastSuccessfulTime = px_LastSuccessfulTime"
| "convertStatusKind fmi2PendingStatus = px_PendingStatus"
| "convertStatusKind fmi2Terminated = px_Terminated"

definition call_logger :: "log_entry \<Rightarrow> (unit, ('p, 'z) fmu_world_scheme) prog" where
  "call_logger e s = Ret () (s\<lparr>logged := logged s @ [e]\<rparr>)"

text \<open>The macro \<open>LOG\<close>; without callbacks the message goes to the standard error stream.\<close>

definition LOG ::
  "callbacks option \<Rightarrow> string \<Rightarrow> fmi2Status \<Rightarrow> string \<Rightarrow> string \<Rightarrow> string list \<Rightarrow>
   (unit, ('p, 'z) fmu_world_scheme) prog"
where
  "LOG functions name status category fmt args =
     (case functions of
        None \<Rightarrow> ret ()
      | Some f \<Rightarrow> if has_logger f
          then call_logger \<lparr>log_environment = cb_environment f, log_instance = name, log_status = status,
                 log_category = category, log_format = fmt, log_args = args\<rparr>
          else ret ())"

text \<open>
  \<open>notimplemented\<close> uses the component it is given as a container, without looking it up.
\<close>

definition notimplemented :: "nat option \<Rightarrow> string \<Rightarrow> (unit, ('p, 'z) fmu_world_scheme) prog" where
  "notimplemented c what =
     (case c of None \<Rightarrow> ret ()
      | Some k \<Rightarrow> andThen (get_container k) (\<lambda>fmu.
          if has_logger (m_functions fmu)
          then call_logger \<lparr>log_environment = componentEnvironment fmu, log_instance = c_name fmu,
                 log_status = fmi2Error, log_category = ''error'',
                 log_format = ''Not implemented: '' @ what, log_args = []\<rparr>
          else ret ()))"

text \<open>
  The debug printer installed by \<open>fmi2SetDebugLogging\<close>: the first client with the sender's id
  logs, through its logger whether it has one or not; true when one was found.
\<close>

fun debug_print ::
  "nat option list \<Rightarrow> c_int \<Rightarrow> string \<Rightarrow> string list \<Rightarrow> (bool, ('p, 'z) fmu_world_scheme) prog" where
  "debug_print [] sender fmt args = ret False"
| "debug_print (None # cs) sender fmt args = debug_print cs sender fmt args"
| "debug_print (Some k # cs) sender fmt args =
     andThen (get_container k) (\<lambda>c.
       if getId (FmuProxy_getChannel (m_proxy c)) = sender
       then if has_logger (m_functions c)
            then andThen (call_logger \<lparr>log_environment = componentEnvironment c, log_instance = c_name c,
                   log_status = fmi2OK, log_category = ''LogAll'', log_format = fmt, log_args = args\<rparr>)
                   (\<lambda>_. ret True)
            else fail NullDeref
       else debug_print cs sender fmt args)"

definition fmuInternalDebugPrint ::
  "c_int \<Rightarrow> string \<Rightarrow> string list \<Rightarrow> (bool, ('p, 'z) fmu_world_scheme) prog" where
  "fmuInternalDebugPrint sender fmt args s = debug_print (g_clients s) sender fmt args s"

section \<open>Freeing\<close>

text \<open>
  The first entry of the component is erased and the container destroyed. Before that the callback
  thread is joined, which this definition takes to return: \<open>active\<close> is false by then, and the theory
  \<open>InstanceThreads\<close> has the join as a step that waits for the thread, and shows that it ends.
\<close>

definition fmi2FreeInstance ::
  "unix \<Rightarrow> (('p, 'z) fmu_world_scheme) runtime \<Rightarrow> nat option \<Rightarrow> (unit, ('p, 'z) fmu_world_scheme) prog"
where
  "fmi2FreeInstance u rt c s =
     (case getFmuContainer (g_clients s) c of
        None \<Rightarrow> Ret () s
      | Some k \<Rightarrow>
          andThen (get_container k) (\<lambda>fmu.
          andThen (FmuProxy_fmi2FreeInstance rt (m_proxy fmu)) (\<lambda>_.
          andThen (get_container k) (\<lambda>fmu.
          andThen (set_container k (fmu\<lparr>active := False\<rparr>)) (\<lambda>_.
          andThen (\<lambda>s. Ret () (s\<lparr>g_clients := remove1 (Some k) (g_clients s)\<rparr>)) (\<lambda>_.
          FmuContainer_delete u k))))) s)"

section \<open>Instantiating\<close>

definition skip_key :: string where
  "skip_key = ''shmFmiTest''"

text \<open>The beginning: the dummy entry, the instance number, the UUID, the resource directory.\<close>

definition inst_key ::
  "inst_os \<Rightarrow> string \<Rightarrow> string \<Rightarrow> callbacks option \<Rightarrow> c_int \<Rightarrow> (string, ('p, 'z) fmu_world_scheme) prog"
where
  "inst_key ios instanceName fmuGUID functions loggingOn =
     andThen (\<lambda>s. Ret () (if g_clients s = [] then s\<lparr>g_clients := [None]\<rparr> else s)) (\<lambda>_.
     andThen (\<lambda>s. Ret () (s\<lparr>currentId := currentId s + 1\<rparr>)) (\<lambda>_.
     andThen (if to_bool loggingOn
              then LOG functions instanceName fmi2OK ''logFmiCall''
                (''FMU: Called instantiate with instance '%s' and GUID '%s'' @ [CHR 0x27]) [instanceName, fmuGUID]
              else ret ()) (\<lambda>_.
     andThen (if \<not> fst (uuid4 ios)
              then LOG functions instanceName fmi2Fatal ''logFmiCall''
                ''FMU: Could not generate UUID4 for shared memory%s'' [[]]
              else ret ()) (\<lambda>_.
     ret (c_str (snd (uuid4 ios)))))))"

definition inst_resources :: "inst_os \<Rightarrow> string option \<Rightarrow> (string, 's) prog" where
  "inst_resources ios fmuResourceLocation =
     andThen (URIToNativePath Unix (malloc_junk ios) fmuResourceLocation) (\<lambda>r. need NullDeref r)"

text \<open>The configuration, the launcher and the key under which the memory is shared.\<close>

definition inst_config ::
  "inst_os \<Rightarrow> string \<Rightarrow> callbacks option \<Rightarrow> c_int \<Rightarrow> c_int \<Rightarrow> string \<Rightarrow> string \<Rightarrow>
   (bool \<times> JavaLauncher \<times> string, ('p, 'z) fmu_world_scheme) prog"
where
  "inst_config ios instanceName functions visible loggingOn key resourceLocation =
     andThen (if to_bool loggingOn
              then LOG functions instanceName fmi2OK ''logFmiCall''
                (''FMU: Launching Tool Wrapper memory key: '%s' and resource location '%s'' @ [CHR 0x27]) [key, resourceLocation]
              else ret ()) (\<lambda>_.
     let config = ConfigFile_new (files ios (resourceLocation @ ''/config.txt'')) key;
         launcher = JavaLauncher_new (to_bool visible) resourceLocation (m_args config)
     in andThen (if m_skipLaunch config
                 then LOG functions instanceName fmi2OK ''logFmiCall''
                   (''FMU: FMU Debug skipping launch of external FMU. SHM is '%s'' @ [CHR 0x27]) [key]
                 else ret ()) (\<lambda>_.
        let key = (if m_skipLaunch config then skip_key else key)
        in andThen (if to_bool loggingOn
                    then LOG functions instanceName fmi2OK ''logFmiCall''
                      (''FMU: Launching with shared memory key: '%s'' @ [CHR 0x27]) [key]
                    else ret ()) (\<lambda>_. ret (m_skipLaunch config, launcher, key))))"

text \<open>The proxy and its container, which is registered before the shared memory is created.\<close>

definition inst_container ::
  "inst_os \<Rightarrow> string \<Rightarrow> callbacks option \<Rightarrow> JavaLauncher \<Rightarrow> string \<Rightarrow> string \<Rightarrow>
   (nat, ('p, 'z) fmu_world_scheme) prog"
where
  "inst_container ios instanceName functions launcher key resourceLocation s =
     (let DEBUG = FileExists ios (resourceLocation @ ''/DEBUG'');
          client = FmuProxy_new (currentId s) key;
          client = (if DEBUG then client\<lparr>proxy_server := enableConsoleDebug (proxy_server client)\<rparr>
                    else client\<lparr>proxy_server := (proxy_server client)\<lparr>debugPrintPtr := NoPrint\<rparr>\<rparr>)
      in andThen (FmuContainer_new (currentId s) client instanceName functions launcher) (\<lambda>container s.
           Ret (next_addr s)
             (s\<lparr>containers := (containers s)(next_addr s \<mapsto> container), next_addr := next_addr s + 1,
                g_clients := g_clients s @ [Some (next_addr s)]\<rparr>)) s)"

definition inst_initialize :: "unix \<Rightarrow> nat \<Rightarrow> (bool, ('p, 'z) fmu_world_scheme) prog" where
  "inst_initialize u k =
     andThen (get_container k) (\<lambda>fc s.
       case FmuProxy_initialize u (m_proxy fc) s of
         (success, px, s) \<Rightarrow> andThen (set_container k (fc\<lparr>m_proxy := px\<rparr>)) (\<lambda>_. ret success) s)"

definition inst_launch :: "inst_os \<Rightarrow> nat \<Rightarrow> (unit, ('p, 'z) fmu_world_scheme) prog" where
  "inst_launch ios k =
     andThen (get_container k) (\<lambda>fc.
       case launch (launch_env ios) (m_javaLauncher fc) of
         (returned, started) \<Rightarrow>
           andThen (set_container k (fc\<lparr>m_javaLauncher := snd (snd (hd returned))\<rparr>)) (\<lambda>_ s.
           Ret () (s\<lparr>launched := launched s @ (case started of None \<Rightarrow> [] | Some x \<Rightarrow> [x])\<rparr>)))"

text \<open>The remote instantiation and, when it succeeded and logging is on, the callback thread.\<close>

definition inst_remote ::
  "unix \<Rightarrow> (('p, 'z) fmu_world_scheme) runtime \<Rightarrow> nat \<Rightarrow> string \<Rightarrow> string \<Rightarrow> string \<Rightarrow> callbacks option \<Rightarrow>
   c_int \<Rightarrow> c_int \<Rightarrow> (nat option, ('p, 'z) fmu_world_scheme) prog"
where
  "inst_remote u rt k instanceName fmuGUID fmuResourceLocation functions visible loggingOn =
     (let threadCallbackId = c_str fmuGUID @ c_str instanceName @ ''Callback''
      in andThen (get_container k) (\<lambda>fc.
         andThen (FmuProxy_fmi2Instantiate rt (m_proxy fc) instanceName fmuGUID fmuResourceLocation
                    threadCallbackId visible loggingOn) (\<lambda>ok.
         if ok then
           andThen (get_container k) (\<lambda>fc.
           andThen (if (case functions of None \<Rightarrow> False | Some f \<Rightarrow> has_logger f) \<and> to_bool loggingOn
                    then set_container k (fc\<lparr>callbackThread := Some threadCallbackId\<rparr>) else ret ()) (\<lambda>_.
           ret (Some k)))
         else andThen (fmi2FreeInstance u rt (Some k)) (\<lambda>_. ret None))))"

definition fmi2Instantiate ::
  "unix \<Rightarrow> (('p, 'z) fmu_world_scheme) runtime \<Rightarrow> inst_os \<Rightarrow> string \<Rightarrow> string \<Rightarrow> string \<Rightarrow>
   callbacks option \<Rightarrow> c_int \<Rightarrow> c_int \<Rightarrow> (nat option, ('p, 'z) fmu_world_scheme) prog"
where
  "fmi2Instantiate u rt ios instanceName fmuGUID fmuResourceLocation functions visible loggingOn =
     andThen (inst_key ios instanceName fmuGUID functions loggingOn) (\<lambda>key.
     andThen (inst_resources ios (Some fmuResourceLocation)) (\<lambda>resourceLocation.
     andThen (inst_config ios instanceName functions visible loggingOn key resourceLocation) (\<lambda>(skip, launcher, key).
     andThen (inst_container ios instanceName functions launcher key resourceLocation) (\<lambda>k.
     andThen (inst_initialize u k) (\<lambda>created.
     if \<not> created then
       andThen (LOG functions instanceName fmi2Fatal ''logFmiCall''
         (''FMU: FMU Debug FATAL: cannot create and initialize IPC server for FMU. SHM is '%s'' @ [CHR 0x27, LF]) [key]) (\<lambda>_.
       ret None)
     else
       andThen (if to_bool loggingOn
                then LOG functions instanceName fmi2OK ''logFmiCall''
                  ''FMU: FMU Server create, hosting SHM with raw key: %s'' [key]
                else ret ()) (\<lambda>_.
       andThen (if \<not> skip then inst_launch ios k else ret ()) (\<lambda>_.
       inst_remote u rt k instanceName fmuGUID fmuResourceLocation functions visible loggingOn)))))))"

section \<open>The calls of an instance\<close>

text \<open>
  Every call looks the component up and is forwarded to its proxy; an unknown component gets a
  fixed answer and nothing else happens.
\<close>

definition with_fmu ::
  "nat option \<Rightarrow> 'r \<Rightarrow> (FmuContainer \<Rightarrow> ('r, ('p, 'z) fmu_world_scheme) prog) \<Rightarrow>
   ('r, ('p, 'z) fmu_world_scheme) prog"
where
  "with_fmu c unknown body s =
     (case getFmuContainer (g_clients s) c of
        None \<Rightarrow> Ret unknown s
      | Some k \<Rightarrow> andThen (get_container k) body s)"

definition converted :: "(proxy_status, 's) prog \<Rightarrow> (fmi2Status, 's) prog" where
  "converted m = andThen m (\<lambda>st. ret (convertStatus st))"

definition converted_with :: "(proxy_status \<times> 'v, 's) prog \<Rightarrow> (fmi2Status \<times> 'v, 's) prog" where
  "converted_with m = andThen m (\<lambda>(st, v). ret (convertStatus st, v))"

text \<open>Of all calls only this one answers OK when the component is unknown.\<close>

definition fmi2SetupExperiment ::
  "(('p, 'z) fmu_world_scheme) runtime \<Rightarrow> nat option \<Rightarrow> c_int \<Rightarrow> c_double \<Rightarrow> c_double \<Rightarrow> c_int \<Rightarrow> c_double \<Rightarrow>
   (fmi2Status, ('p, 'z) fmu_world_scheme) prog" where
  "fmi2SetupExperiment rt c toleranceDefined tolerance startTime stopTimeDefined stopTime =
     with_fmu c fmi2OK (\<lambda>fmu. converted (FmuProxy_fmi2SetupExperiment rt (m_proxy fmu) toleranceDefined tolerance startTime stopTimeDefined stopTime))"

definition fmi2EnterInitializationMode ::
  "(('p, 'z) fmu_world_scheme) runtime \<Rightarrow> nat option \<Rightarrow>
   (fmi2Status, ('p, 'z) fmu_world_scheme) prog" where
  "fmi2EnterInitializationMode rt c =
     with_fmu c fmi2Fatal (\<lambda>fmu. converted (FmuProxy_fmi2EnterInitializationMode rt (m_proxy fmu)))"

definition fmi2ExitInitializationMode ::
  "(('p, 'z) fmu_world_scheme) runtime \<Rightarrow> nat option \<Rightarrow>
   (fmi2Status, ('p, 'z) fmu_world_scheme) prog" where
  "fmi2ExitInitializationMode rt c =
     with_fmu c fmi2Fatal (\<lambda>fmu. converted (FmuProxy_fmi2ExitInitializationMode rt (m_proxy fmu)))"

definition fmi2Terminate ::
  "(('p, 'z) fmu_world_scheme) runtime \<Rightarrow> nat option \<Rightarrow>
   (fmi2Status, ('p, 'z) fmu_world_scheme) prog" where
  "fmi2Terminate rt c =
     with_fmu c fmi2Fatal (\<lambda>fmu. converted (FmuProxy_fmi2Terminate rt (m_proxy fmu)))"

definition fmi2Reset ::
  "(('p, 'z) fmu_world_scheme) runtime \<Rightarrow> nat option \<Rightarrow>
   (fmi2Status, ('p, 'z) fmu_world_scheme) prog" where
  "fmi2Reset rt c =
     with_fmu c fmi2Fatal (\<lambda>fmu. converted (FmuProxy_fmi2Reset rt (m_proxy fmu)))"

text \<open>
  The categories are compared before the call is forwarded; switching logging off does not remove
  the debug printer.
\<close>

fun debug_categories :: "c_int \<Rightarrow> string list \<Rightarrow> debugPrint \<Rightarrow> debugPrint" where
  "debug_categories loggingOn [] d = d"
| "debug_categories loggingOn (c # cs) d =
     debug_categories loggingOn cs
       (if c = ''logShm'' then (if to_bool loggingOn then FmuPrint else d)
        else if c = ''logLaunch'' then (if to_bool loggingOn then FmuPrint else d)
        else d)"

definition set_debug_printer :: "debugPrint \<Rightarrow> FmuContainer \<Rightarrow> FmuContainer" where
  "set_debug_printer d fmu =
     fmu\<lparr>m_proxy := (m_proxy fmu)\<lparr>proxy_server := (proxy_server (m_proxy fmu))\<lparr>debugPrintPtr := d\<rparr>\<rparr>\<rparr>"

definition fmi2SetDebugLogging ::
  "(('p, 'z) fmu_world_scheme) runtime \<Rightarrow> nat option \<Rightarrow> c_int \<Rightarrow> nat \<Rightarrow> string list \<Rightarrow>
   (fmi2Status, ('p, 'z) fmu_world_scheme) prog" where
  "fmi2SetDebugLogging rt c loggingOn nCategories categories =
     with_fmu c fmi2Fatal (\<lambda>fmu.
       andThen (need OutOfBounds (get_prefix categories (int nCategories))) (\<lambda>cs.
       let fmu = set_debug_printer
             (debug_categories loggingOn (map c_str cs) (debugPrintPtr (proxy_server (m_proxy fmu)))) fmu
       in andThen (set_container (the c) fmu) (\<lambda>_.
          converted (FmuProxy_fmi2SetDebugLogging rt (m_proxy fmu) loggingOn nCategories categories))))"

definition fmi2GetReal ::
  "(('p, 'z) fmu_world_scheme) runtime \<Rightarrow> nat option \<Rightarrow> c_uint list \<Rightarrow> nat \<Rightarrow> c_double list \<Rightarrow>
   (fmi2Status \<times> c_double list, ('p, 'z) fmu_world_scheme) prog" where
  "fmi2GetReal rt c vr nvr v =
     with_fmu c (fmi2Fatal, v) (\<lambda>fmu. converted_with (FmuProxy_fmi2GetReal rt (m_proxy fmu) vr nvr v))"

definition fmi2GetInteger ::
  "(('p, 'z) fmu_world_scheme) runtime \<Rightarrow> nat option \<Rightarrow> c_uint list \<Rightarrow> nat \<Rightarrow> c_int list \<Rightarrow>
   (fmi2Status \<times> c_int list, ('p, 'z) fmu_world_scheme) prog" where
  "fmi2GetInteger rt c vr nvr v =
     with_fmu c (fmi2Fatal, v) (\<lambda>fmu. converted_with (FmuProxy_fmi2GetInteger rt (m_proxy fmu) vr nvr v))"

definition fmi2GetBoolean ::
  "(('p, 'z) fmu_world_scheme) runtime \<Rightarrow> nat option \<Rightarrow> c_uint list \<Rightarrow> nat \<Rightarrow> c_int list \<Rightarrow>
   (fmi2Status \<times> c_int list, ('p, 'z) fmu_world_scheme) prog" where
  "fmi2GetBoolean rt c vr nvr v =
     with_fmu c (fmi2Fatal, v) (\<lambda>fmu. converted_with (FmuProxy_fmi2GetBoolean rt (m_proxy fmu) vr nvr v))"

definition fmi2GetString ::
  "(('p, 'z) fmu_world_scheme) runtime \<Rightarrow> nat option \<Rightarrow> c_uint list \<Rightarrow> nat \<Rightarrow> string list \<Rightarrow>
   (fmi2Status \<times> string list, ('p, 'z) fmu_world_scheme) prog" where
  "fmi2GetString rt c vr nvr v =
     with_fmu c (fmi2Fatal, v) (\<lambda>fmu. converted_with (FmuProxy_fmi2GetString rt (m_proxy fmu) vr nvr v))"

definition fmi2SetReal ::
  "(('p, 'z) fmu_world_scheme) runtime \<Rightarrow> nat option \<Rightarrow> c_uint list \<Rightarrow> nat \<Rightarrow> c_double list \<Rightarrow>
   (fmi2Status, ('p, 'z) fmu_world_scheme) prog" where
  "fmi2SetReal rt c vr nvr val =
     with_fmu c fmi2Fatal (\<lambda>fmu. converted (FmuProxy_fmi2SetReal rt (m_proxy fmu) vr nvr val))"

definition fmi2SetInteger ::
  "(('p, 'z) fmu_world_scheme) runtime \<Rightarrow> nat option \<Rightarrow> c_uint list \<Rightarrow> nat \<Rightarrow> c_int list \<Rightarrow>
   (fmi2Status, ('p, 'z) fmu_world_scheme) prog" where
  "fmi2SetInteger rt c vr nvr val =
     with_fmu c fmi2Fatal (\<lambda>fmu. converted (FmuProxy_fmi2SetInteger rt (m_proxy fmu) vr nvr val))"

definition fmi2SetBoolean ::
  "(('p, 'z) fmu_world_scheme) runtime \<Rightarrow> nat option \<Rightarrow> c_uint list \<Rightarrow> nat \<Rightarrow> c_int list \<Rightarrow>
   (fmi2Status, ('p, 'z) fmu_world_scheme) prog" where
  "fmi2SetBoolean rt c vr nvr val =
     with_fmu c fmi2Fatal (\<lambda>fmu. converted (FmuProxy_fmi2SetBoolean rt (m_proxy fmu) vr nvr val))"

definition fmi2SetString ::
  "(('p, 'z) fmu_world_scheme) runtime \<Rightarrow> nat option \<Rightarrow> c_uint list \<Rightarrow> nat \<Rightarrow> string list \<Rightarrow>
   (fmi2Status, ('p, 'z) fmu_world_scheme) prog" where
  "fmi2SetString rt c vr nvr val =
     with_fmu c fmi2Fatal (\<lambda>fmu. converted (FmuProxy_fmi2SetString rt (m_proxy fmu) vr nvr val))"

definition fmi2DoStep ::
  "(('p, 'z) fmu_world_scheme) runtime \<Rightarrow> nat option \<Rightarrow> c_double \<Rightarrow> c_double \<Rightarrow> c_int \<Rightarrow>
   (fmi2Status, ('p, 'z) fmu_world_scheme) prog" where
  "fmi2DoStep rt c currentCommunicationPoint communicationStepSize noSetFMUState =
     with_fmu c fmi2Fatal (\<lambda>fmu. converted (FmuProxy_fmi2DoStep rt (m_proxy fmu) currentCommunicationPoint communicationStepSize noSetFMUState))"

definition fmi2GetStatus ::
  "(('p, 'z) fmu_world_scheme) runtime \<Rightarrow> nat option \<Rightarrow> fmi2StatusKind \<Rightarrow> fmi2Status \<Rightarrow>
   (fmi2Status \<times> fmi2Status, ('p, 'z) fmu_world_scheme) prog" where
  "fmi2GetStatus rt c kind v =
     with_fmu c (fmi2Fatal, v) (\<lambda>fmu.
       andThen (FmuProxy_fmi2GetStatus rt (m_proxy fmu) (convertStatusKind kind) px_OK) (\<lambda>(st, status).
       ret (convertStatus st, convertStatus status)))"

definition fmi2GetRealStatus ::
  "(('p, 'z) fmu_world_scheme) runtime \<Rightarrow> nat option \<Rightarrow> fmi2StatusKind \<Rightarrow> c_double \<Rightarrow>
   (fmi2Status \<times> c_double, ('p, 'z) fmu_world_scheme) prog" where
  "fmi2GetRealStatus rt c kind v =
     with_fmu c (fmi2Fatal, v) (\<lambda>fmu. converted_with (FmuProxy_fmi2GetRealStatus rt (m_proxy fmu) (convertStatusKind kind) v))"

definition fmi2GetIntegerStatus ::
  "(('p, 'z) fmu_world_scheme) runtime \<Rightarrow> nat option \<Rightarrow> fmi2StatusKind \<Rightarrow> c_int \<Rightarrow>
   (fmi2Status \<times> c_int, ('p, 'z) fmu_world_scheme) prog" where
  "fmi2GetIntegerStatus rt c kind v =
     with_fmu c (fmi2Fatal, v) (\<lambda>fmu. converted_with (FmuProxy_fmi2GetIntegerStatus rt (m_proxy fmu) (convertStatusKind kind) v))"

definition fmi2GetBooleanStatus ::
  "(('p, 'z) fmu_world_scheme) runtime \<Rightarrow> nat option \<Rightarrow> fmi2StatusKind \<Rightarrow> c_int \<Rightarrow>
   (fmi2Status \<times> c_int, ('p, 'z) fmu_world_scheme) prog" where
  "fmi2GetBooleanStatus rt c kind v =
     with_fmu c (fmi2Fatal, v) (\<lambda>fmu. converted_with (FmuProxy_fmi2GetBooleanStatus rt (m_proxy fmu) (convertStatusKind kind) v))"

definition fmi2GetStringStatus ::
  "(('p, 'z) fmu_world_scheme) runtime \<Rightarrow> nat option \<Rightarrow> fmi2StatusKind \<Rightarrow> string \<Rightarrow>
   (fmi2Status \<times> string, ('p, 'z) fmu_world_scheme) prog" where
  "fmi2GetStringStatus rt c kind v =
     with_fmu c (fmi2Fatal, v) (\<lambda>fmu. converted_with (FmuProxy_fmi2GetStringStatus rt (m_proxy fmu) (convertStatusKind kind) v))"

definition fmi2GetMaxStepsize ::
  "(('p, 'z) fmu_world_scheme) runtime \<Rightarrow> nat option \<Rightarrow> c_double \<Rightarrow>
   (fmi2Status \<times> c_double, ('p, 'z) fmu_world_scheme) prog" where
  "fmi2GetMaxStepsize rt c v =
     with_fmu c (fmi2Fatal, v) (\<lambda>fmu. converted_with (FmuProxy_fmi2GetMaxStepsize rt (m_proxy fmu) v))"

text \<open>The two constants are defined by the FMI headers.\<close>

definition fmi2GetVersion :: string where
  "fmi2GetVersion = ''2.0''"

definition fmi2GetTypesPlatform :: string where
  "fmi2GetTypesPlatform = ''default''"

text \<open>What the wrapper does not implement: a log message and an error.\<close>

definition fmi2GetFMUstate :: "nat option \<Rightarrow> (fmi2Status, ('p, 'z) fmu_world_scheme) prog" where
  "fmi2GetFMUstate c = andThen (notimplemented c ''fmi2GetFMUstate'') (\<lambda>_. ret fmi2Error)"

definition fmi2SetFMUstate :: "nat option \<Rightarrow> (fmi2Status, ('p, 'z) fmu_world_scheme) prog" where
  "fmi2SetFMUstate c = andThen (notimplemented c ''fmi2SetFMUstate'') (\<lambda>_. ret fmi2Error)"

definition fmi2FreeFMUstate :: "nat option \<Rightarrow> (fmi2Status, ('p, 'z) fmu_world_scheme) prog" where
  "fmi2FreeFMUstate c = andThen (notimplemented c ''fmi2FreeFMUstate'') (\<lambda>_. ret fmi2Error)"

definition fmi2SerializedFMUstateSize :: "nat option \<Rightarrow> (fmi2Status, ('p, 'z) fmu_world_scheme) prog" where
  "fmi2SerializedFMUstateSize c = andThen (notimplemented c ''fmi2SerializedFMUstateSize'') (\<lambda>_. ret fmi2Error)"

definition fmi2SerializeFMUstate :: "nat option \<Rightarrow> (fmi2Status, ('p, 'z) fmu_world_scheme) prog" where
  "fmi2SerializeFMUstate c = andThen (notimplemented c ''fmi2SerializeFMUstate'') (\<lambda>_. ret fmi2Error)"

definition fmi2DeSerializeFMUstate :: "nat option \<Rightarrow> (fmi2Status, ('p, 'z) fmu_world_scheme) prog" where
  "fmi2DeSerializeFMUstate c = andThen (notimplemented c ''fmi2DeSerializeFMUstate'') (\<lambda>_. ret fmi2Error)"

definition fmi2GetDirectionalDerivative :: "nat option \<Rightarrow> (fmi2Status, ('p, 'z) fmu_world_scheme) prog" where
  "fmi2GetDirectionalDerivative c = andThen (notimplemented c ''fmi2GetDirectionalDerivative'') (\<lambda>_. ret fmi2Error)"

definition fmi2SetRealInputDerivatives :: "nat option \<Rightarrow> (fmi2Status, ('p, 'z) fmu_world_scheme) prog" where
  "fmi2SetRealInputDerivatives c = andThen (notimplemented c ''fmi2SetRealInputDerivatives'') (\<lambda>_. ret fmi2Error)"

definition fmi2GetRealOutputDerivatives :: "nat option \<Rightarrow> (fmi2Status, ('p, 'z) fmu_world_scheme) prog" where
  "fmi2GetRealOutputDerivatives c = andThen (notimplemented c ''fmi2GetRealOutputDerivatives'') (\<lambda>_. ret fmi2Error)"

definition fmi2CancelStep :: "nat option \<Rightarrow> (fmi2Status, ('p, 'z) fmu_world_scheme) prog" where
  "fmi2CancelStep c = andThen (notimplemented c ''fmi2CancelStep'') (\<lambda>_. ret fmi2Error)"

text \<open>
  The functions for model exchange, in a build without \<open>FMI_COSIMULATION\<close>: an error, and no output
  is written.
\<close>

definition fmi2EnterEventMode :: "nat option \<Rightarrow> (fmi2Status, 's) prog" where
  "fmi2EnterEventMode c = ret fmi2Error"

definition fmi2NewDiscreteStates :: "nat option \<Rightarrow> (fmi2Status, 's) prog" where
  "fmi2NewDiscreteStates c = ret fmi2Error"

definition fmi2EnterContinuousTimeMode :: "nat option \<Rightarrow> (fmi2Status, 's) prog" where
  "fmi2EnterContinuousTimeMode c = ret fmi2Error"

definition fmi2CompletedIntegratorStep :: "nat option \<Rightarrow> (fmi2Status, 's) prog" where
  "fmi2CompletedIntegratorStep c = ret fmi2Error"

definition fmi2SetTime :: "nat option \<Rightarrow> (fmi2Status, 's) prog" where
  "fmi2SetTime c = ret fmi2Error"

definition fmi2SetContinuousStates :: "nat option \<Rightarrow> (fmi2Status, 's) prog" where
  "fmi2SetContinuousStates c = ret fmi2Error"

definition fmi2GetDerivatives :: "nat option \<Rightarrow> (fmi2Status, 's) prog" where
  "fmi2GetDerivatives c = ret fmi2Error"

definition fmi2GetEventIndicators :: "nat option \<Rightarrow> (fmi2Status, 's) prog" where
  "fmi2GetEventIndicators c = ret fmi2Error"

definition fmi2GetContinuousStates :: "nat option \<Rightarrow> (fmi2Status, 's) prog" where
  "fmi2GetContinuousStates c = ret fmi2Error"

definition fmi2GetNominalsOfContinuousStates :: "nat option \<Rightarrow> (fmi2Status, 's) prog" where
  "fmi2GetNominalsOfContinuousStates c = ret fmi2Error"

section \<open>The callback thread\<close>

text \<open>
  Connecting to the memory under the callback key, retried while the instance is active; a
  failed client is deleted and the thread sleeps for a second. \<open>n\<close> bounds the attempts looked at;
  the second component says whether the loop ended by itself.
\<close>

fun callback_connect ::
  "unix \<Rightarrow> (('p, 'z) fmu_world_scheme) runtime \<Rightarrow> nat \<Rightarrow> string \<Rightarrow> nat \<Rightarrow>
   (IpcClient option \<times> bool, ('p, 'z) fmu_world_scheme) prog" where
  "callback_connect u rt k key 0 = ret (None, False)"
| "callback_connect u rt k key (Suc n) =
     andThen (get_container k) (\<lambda>container.
       if active container then
         (\<lambda>s. case IpcClient_connect u (IpcClient_new (c_id container) key) s of
            (success, client, s) \<Rightarrow>
              if success then Ret (Some client, True) s
              else andThen (IpcClient_delete u client) (\<lambda>_ s.
                   callback_connect u rt k key n (rt_env rt None s)) s)
       else ret (None, True))"

definition convert_log_status :: "c_int \<Rightarrow> fmi2Status" where
  "convert_log_status st =
     (if st = Status_Ok then fmi2OK
      else if st = Status_Warning then fmi2Warning
      else if st = Status_Discard then fmi2Discard
      else if st = Status_Error then fmi2Error
      else if st = Status_Fatal then fmi2Fatal
      else if st = Status_Pending then fmi2Pending
      else fmi2Error)"

text \<open>
  One pass of the receiving loop: false when the instance is no longer active. A message that is
  not a log message gets no reply.
\<close>

definition callback_pass ::
  "(('p, 'z) fmu_world_scheme) runtime \<Rightarrow> nat \<Rightarrow> IpcClient \<Rightarrow> (bool, ('p, 'z) fmu_world_scheme) prog" where
  "callback_pass rt k client =
     andThen (get_container k) (\<lambda>container.
       if \<not> active container then ret False
       else
         andThen (getMessage (rt_env rt) client 10) (\<lambda>msg. case msg of
           None \<Rightarrow> ret True
         | Some p \<Rightarrow>
             andThen (load_msg p) (\<lambda>msg.
               if cmd msg = cmd_code cmd_fmi2Log then
                 andThen (need OutOfBounds (payload msg)) (\<lambda>bs.
                 case rt_parse rt K_LogReply bs of
                   Fmi2LogReply v st category \<Rightarrow>
                     andThen (call_logger \<lparr>log_environment = componentEnvironment container,
                        log_instance = c_name container, log_status = convert_log_status st,
                        log_category = c_str category, log_format = c_str v, log_args = []\<rparr>) (\<lambda>_.
                     andThen (need OutOfBounds (with_payload (SharedFmiMessage_zero\<lparr>cmd := cmd_code cmd_fmi2Log\<rparr>)
                                                 (rt_ser rt Fmi2Empty))) (\<lambda>msgReply.
                     andThen (sendReply client msgReply) (\<lambda>_. ret True)))
                 | _ \<Rightarrow> fail BadHandle)
               else ret True)))"

text \<open>The thread: nothing without a logger; then connect and receive, at most \<open>n\<close> passes of each loop.\<close>

fun callback_loop ::
  "(('p, 'z) fmu_world_scheme) runtime \<Rightarrow> nat \<Rightarrow> IpcClient \<Rightarrow> nat \<Rightarrow> (bool, ('p, 'z) fmu_world_scheme) prog" where
  "callback_loop rt k client 0 = ret False"
| "callback_loop rt k client (Suc n) =
     andThen (callback_pass rt k client) (\<lambda>go. if go then callback_loop rt k client n else ret True)"

definition callbackThreadFunc ::
  "unix \<Rightarrow> (('p, 'z) fmu_world_scheme) runtime \<Rightarrow> nat \<Rightarrow> string \<Rightarrow> nat \<Rightarrow> (bool, ('p, 'z) fmu_world_scheme) prog" where
  "callbackThreadFunc u rt k key n =
     andThen (get_container k) (\<lambda>container.
       if \<not> has_logger (m_functions container) then ret True
       else andThen (callback_connect u rt k key n) (\<lambda>(client, finished).
         case client of
           None \<Rightarrow> ret finished
         | Some cl \<Rightarrow> andThen (callback_loop rt k cl n) (\<lambda>finished.
             if finished then andThen (IpcClient_delete u cl) (\<lambda>_. ret True) else ret False)))"

end
