(* ===== verification/FmuProperties.thy ===== *)
theory FmuProperties
  imports Fmu
begin

text \<open>
  What the FMI functions guarantee about components: which pointers they accept, what happens to
  an instance that fails or is freed, and how log messages are delivered.
\<close>

section \<open>What a call leaves alone\<close>

text \<open>The part of the state that belongs to the library, and environments that leave it alone.\<close>

definition lib ::
  "('p, 'z) fmu_world_scheme \<Rightarrow> c_int \<times> nat option list \<times> (nat \<Rightarrow> FmuContainer option) \<times> nat" where
  "lib s = (currentId s, g_clients s, containers s, next_addr s)"

definition env_keeps_lib :: "(('p, 'z) fmu_world_scheme) env \<Rightarrow> bool" where
  "env_keeps_lib env \<longleftrightarrow> (\<forall>d s. lib (env d s) = lib s)"

lemma lib_os [simp]:
  "lib (s\<lparr>shm_names := a\<rparr>) = lib s" "lib (s\<lparr>shm_objs := b\<rparr>) = lib s" "lib (s\<lparr>next_obj := n\<rparr>) = lib s"
  "lib (s\<lparr>fds := c\<rparr>) = lib s" "lib (s\<lparr>next_fd := i\<rparr>) = lib s" "lib (s\<lparr>sem_names := e\<rparr>) = lib s"
  "lib (s\<lparr>sem_val := v\<rparr>) = lib s" "lib (s\<lparr>next_sem := n\<rparr>) = lib s" "lib (s\<lparr>peer := q\<rparr>) = lib s"
  "lib (s\<lparr>logged := l\<rparr>) = lib s" "lib (s\<lparr>launched := x\<rparr>) = lib s"
  by (simp_all add: lib_def)

lemma keeps_load [keeps_rules]: "keeps lib (load_msg p)"
  by (auto simp: keeps_def load_msg_def split: if_splits)

lemma keeps_store [keeps_rules]: "keeps lib (store_msg p m)"
  by (auto simp: keeps_def store_msg_def split: if_splits)

lemma keeps_post [keeps_rules]: "keeps lib (signalPost h)"
  unfolding signalPost_def
proof (intro keeps_rules)
  show "keeps lib (sem_post h)"
    by (cases h) (auto simp: keeps_def split: if_splits)
qed

lemma keeps_wait:
  assumes "env_keeps_lib env"
  shows "keeps lib (signalWait env h d)"
proof (rule keepsI)
  fix s r t
  assume "signalWait env h d s = Ret r t"
  then show "lib t = lib s"
    using assms
    by (cases h)
      (auto simp: signalWait_def sem_take_def Let_def env_keeps_lib_def split: if_splits)
qed

lemma keeps_server_send: "env_keeps_lib env \<Longrightarrow> keeps lib (IpcServer_send env srv m d)"
  unfolding IpcServer_send_def by (intro keeps_rules keeps_wait)

lemma keeps_send:
  "env_keeps_lib (rt_env rt) \<Longrightarrow> keeps lib (FmuProxy_send rt px c m)"
  unfolding FmuProxy_send_def rpc_def exchange_def Let_def
  by (intro keeps_rules keeps_server_send)

lemma keeps_getStatus [keeps_rules]: "keeps f (getStatus r)"
  unfolding getStatus_def by (cases r) (simp_all add: keeps_rules)

lemma keeps_sendRetStatus:
  "env_keeps_lib (rt_env rt) \<Longrightarrow> keeps lib (sendRetStatus rt px c m)"
  unfolding sendRetStatus_def by (intro keeps_rules keeps_send)

lemma keeps_values:
  assumes "env_keeps_lib (rt_env rt)"
  shows "keeps lib (get_values rt px c content vr n v)" and "keeps lib (set_values rt px c' req vr n v')"
    and "keeps lib (get_one rt px c'' m content'' v'')"
  unfolding get_values_def set_values_def get_one_def createGetRequest_def
  by (intro keeps_rules keeps_send keeps_sendRetStatus assms)+

lemma keeps_instantiate:
  "env_keeps_lib (rt_env rt) \<Longrightarrow> keeps lib (FmuProxy_fmi2Instantiate rt px a b c d e f)"
  unfolding FmuProxy_fmi2Instantiate_def by (intro keeps_rules keeps_send)

lemma keeps_free: "env_keeps_lib (rt_env rt) \<Longrightarrow> keeps lib (FmuProxy_fmi2FreeInstance rt px)"
  unfolding FmuProxy_fmi2FreeInstance_def by (intro keeps_rules keeps_server_send)

lemma keeps_delete [keeps_rules]: "keeps lib (FmuProxy_delete u px)"
  unfolding FmuProxy_delete_def IpcServer_delete_def Let_def
proof (intro keeps_rules)
  show "keeps lib (IpcBase_delete u b)" for b :: "'x IpcBase_scheme"
    by (auto simp: keeps_def IpcBase_delete_def Let_def signalClose_def unmap_def shm_unlink_def
        close_fd_def split: option.splits if_splits)
qed

text \<open>Creating the shared memory and the semaphores is the business of the system as well.\<close>

lemma lib_open [simp]: "lib (snd (snd (openShm u ok n c s))) = lib s"
  by (auto simp: openShm_def shm_open_def shm_unlink_def new_fd_def new_obj_def Let_def
      split: prod.splits option.splits if_splits)

lemma lib_map [simp]: "lib (snd (snd (mapShm u ok b h t s))) = lib s"
  by (auto simp: mapShm_def ftruncate_def split: option.splits if_splits)

lemma lib_signal [simp]: "lib (snd (snd (createSignal u ok b n c s))) = lib s"
  by (auto simp: createSignal_def sem_open_def sem_unlink_def Let_def split: option.splits if_splits prod.splits)

lemma lib_openD: "openShm u ok n c s = (ok', h, s') \<Longrightarrow> lib s' = lib s"
  by (metis lib_open snd_conv)

lemma lib_mapD: "mapShm u ok b h t s = (ok', b', s') \<Longrightarrow> lib s' = lib s"
  by (metis lib_map snd_conv)

lemma lib_signalD: "createSignal u ok b n c s = (ok', h, s') \<Longrightarrow> lib s' = lib s"
  by (metis lib_signal snd_conv)

lemma lib_create_shm: "create_shm u srv s = (ok, srv', s') \<Longrightarrow> lib s' = lib s"
  by (auto simp: create_shm_def Let_def dest!: lib_openD lib_mapD split: prod.splits if_splits)

lemma lib_create_signals: "create_signals u srv s = (ok, srv', s') \<Longrightarrow> lib s' = lib s"
  by (auto simp: create_signals_def Let_def dest!: lib_signalD split: prod.splits if_splits)

lemma lib_create: "IpcServer_create u srv s = (ok, srv', s') \<Longrightarrow> lib s' = lib s"
  by (auto simp: IpcServer_create_def dest!: lib_create_shm lib_create_signals split: prod.splits if_splits)

lemma keeps_logger [keeps_rules]: "keeps lib (call_logger e)"
  by (simp add: keeps_def call_logger_def)

lemma keeps_LOG [keeps_rules]: "keeps lib (LOG f n st cat fmt args)"
  unfolding LOG_def by (intro keeps_rules)

section \<open>The registry of components\<close>

text \<open>
  The registered components are exactly the allocated containers, each registered once, and below
  the next address; a list that was used begins with the null entry.
\<close>

definition fmu_inv :: "('p, 'z) fmu_world_scheme \<Rightarrow> bool" where
  "fmu_inv s \<longleftrightarrow>
     distinct (g_clients s) \<and> (g_clients s \<noteq> [] \<longrightarrow> hd (g_clients s) = None) \<and>
     (\<forall>k. Some k \<in> set (g_clients s) \<longleftrightarrow> containers s k \<noteq> None) \<and>
     (\<forall>k. containers s k \<noteq> None \<longrightarrow> k < next_addr s)"

lemma fmu_inv_lib: "lib t = lib s \<Longrightarrow> fmu_inv t = fmu_inv s"
  by (simp add: fmu_inv_def lib_def)

lemma fmu_inv_set_container:
  "fmu_inv s \<Longrightarrow> containers s k \<noteq> None \<Longrightarrow> fmu_inv (s\<lparr>containers := (containers s)(k \<mapsto> fc)\<rparr>)"
  by (auto simp: fmu_inv_def)

lemma getFmuContainer_Some: "getFmuContainer cs c = Some k \<longleftrightarrow> c = Some k \<and> Some k \<in> set cs"
  by (auto simp: getFmuContainer_def)

lemma getFmuContainer_None: "getFmuContainer cs c = None \<longleftrightarrow> c = None \<or> c \<notin> set cs"
  by (auto simp: getFmuContainer_def)

text \<open>A registered component can be used: its memory is there.\<close>

lemma get_container_registered:
  "fmu_inv s \<Longrightarrow> getFmuContainer (g_clients s) c = Some k \<Longrightarrow> \<exists>fc. get_container k s = Ret fc s \<and> containers s k = Some fc"
  by (fastforce simp: fmu_inv_def getFmuContainer_Some get_container_def)

lemma get_container_Ret: "get_container k s = Ret fc t \<longleftrightarrow> containers s k = Some fc \<and> t = s"
  by (auto simp: get_container_def need_Ret_iff)

lemma set_container_Ret: "set_container k fc s = Ret x t \<longleftrightarrow> t = s\<lparr>containers := (containers s)(k \<mapsto> fc)\<rparr>"
  by (auto simp: set_container_def)

lemma with_fmu_unknown: "getFmuContainer (g_clients s) c = None \<Longrightarrow> with_fmu c unknown body s = Ret unknown s"
  by (simp add: with_fmu_def)

lemma with_fmu_registered:
  "getFmuContainer (g_clients s) c = Some k \<Longrightarrow> containers s k = Some fc \<Longrightarrow> with_fmu c unknown body s = body fc s"
  by (simp add: with_fmu_def get_container_def)

text \<open>Freeing: what a call on a registered component leaves behind.\<close>

lemma free_registered:
  assumes env: "env_keeps_lib (rt_env rt)" and reg: "getFmuContainer (g_clients s) c = Some k"
    and run: "fmi2FreeInstance u rt c s = Ret x t"
  shows "g_clients t = remove1 (Some k) (g_clients s) \<and> containers t = (containers s)(k := None) \<and>
    next_addr t = next_addr s \<and> currentId t = currentId s"
proof -
  let ?t1 = "\<lambda>s1 fc2. s1\<lparr>containers := (containers s1)(k \<mapsto> fc2\<lparr>active := False\<rparr>),
        g_clients := remove1 (Some k) (g_clients s1)\<rparr>"
  have "\<exists>(fc :: FmuContainer) s1 fc2 s2. FmuProxy_fmi2FreeInstance rt (m_proxy fc) s = Ret () s1 \<and>
      FmuProxy_delete u (m_proxy fc2) (?t1 s1 fc2) = Ret () s2 \<and>
      s2\<lparr>containers := (containers s2)(k := None)\<rparr> = t"
    using run reg
    by (simp add: fmi2FreeInstance_def andThen_Ret_iff get_container_Ret set_container_Ret FmuContainer_delete_def)
      blast
  then obtain fc :: FmuContainer and s1 fc2 s2 where 1: "FmuProxy_fmi2FreeInstance rt (m_proxy fc) s = Ret () s1"
    and 2: "FmuProxy_delete u (m_proxy fc2) (?t1 s1 fc2) = Ret () s2"
    and t: "t = s2\<lparr>containers := (containers s2)(k := None)\<rparr>" by blast
  have "lib s1 = lib s" by (rule keepsD [OF keeps_free [OF env] 1])
  moreover have "lib s2 = lib (?t1 s1 fc2)" by (rule keepsD [OF keeps_delete 2])
  ultimately show ?thesis by (simp add: t lib_def)
qed

lemma free_inv:
  assumes "env_keeps_lib (rt_env rt)" and "fmu_inv s" and "fmi2FreeInstance u rt c s = Ret x t"
  shows "fmu_inv t"
proof (cases "getFmuContainer (g_clients s) c")
  case None
  with assms show ?thesis by (simp add: fmi2FreeInstance_def)
next
  case (Some k)
  from assms(2) have d: "distinct (g_clients s)" by (simp add: fmu_inv_def)
  have hd: "hd (remove1 (Some k) (g_clients s)) = None" if "remove1 (Some k) (g_clients s) \<noteq> []"
    using assms(2) that by (cases "g_clients s") (auto simp: fmu_inv_def)
  show ?thesis
    using free_registered [OF assms(1) Some assms(3)] assms(2) hd d
    by (auto simp: fmu_inv_def set_remove1_eq)
qed

text \<open>Instantiating: the parts of \<open>fmi2Instantiate\<close> and what they do to the registry.\<close>

lemma inst_key_lib:
  "inst_key ios a b f l s = Ret key t \<Longrightarrow>
   g_clients t = (if g_clients s = [] then [None] else g_clients s) \<and> containers t = containers s \<and>
   next_addr t = next_addr s"
proof -
  let ?s1 = "(if g_clients s = [] then s\<lparr>g_clients := [None]\<rparr> else s)"
  let ?s2 = "?s1\<lparr>currentId := currentId ?s1 + 1\<rparr>"
  assume run: "inst_key ios a b f l s = Ret key t"
  let ?tail = "andThen (if to_bool l then LOG f a fmi2OK ''logFmiCall''
        (''FMU: Called instantiate with instance '%s' and GUID '%s'' @ [CHR 0x27]) [a, b] else ret ()) (\<lambda>_.
     andThen (if \<not> fst (uuid4 ios) then LOG f a fmi2Fatal ''logFmiCall''
        ''FMU: Could not generate UUID4 for shared memory%s'' [[]]  else ret ()) (\<lambda>_.
     ret (c_str (snd (uuid4 ios)))))"
  have "keeps lib ?tail" by (intro keeps_rules)
  moreover have "?tail ?s2 = Ret key t" using run by (simp add: inst_key_def)
  ultimately have "lib t = lib ?s2" by (rule keepsD)
  then show ?thesis by (auto simp: lib_def)
qed

lemma keeps_inst_resources: "keeps f (inst_resources ios l)"
proof -
  have "keeps f (URIToNativePath p junk uri)" for p junk uri
    unfolding URIToNativePath_def uri_buffer_def uri_path_start_def uri_finish_def Let_def
    by (intro keeps_rules)
  then show ?thesis unfolding inst_resources_def by (intro keeps_rules)
qed

lemma keeps_inst_config: "keeps lib (inst_config ios a f v l key r)"
  unfolding inst_config_def Let_def by (intro keeps_rules)

lemma inst_container_lib:
  assumes "inst_container ios a f la key r s = Ret k t"
  shows "k = next_addr s \<and> next_addr t = Suc (next_addr s) \<and> g_clients t = g_clients s @ [Some k] \<and>
    (\<exists>fc. containers t = (containers s)(k \<mapsto> fc)) \<and> f \<noteq> None"
  using assms
  by (auto simp: inst_container_def Let_def andThen_Ret_iff FmuContainer_new_def need_Ret_iff)

text \<open>Writing to a registered container, with system calls in between.\<close>

definition lib_updates :: "nat \<Rightarrow> ('p, 'z) fmu_world_scheme \<Rightarrow> ('p, 'z) fmu_world_scheme \<Rightarrow> bool" where
  "lib_updates k s t \<longleftrightarrow> g_clients t = g_clients s \<and> next_addr t = next_addr s \<and>
     (containers t = containers s \<or> (\<exists>fc. containers t = (containers s)(k \<mapsto> fc)))"

lemma lib_updates_refl: "lib t = lib s \<Longrightarrow> lib_updates k s t"
  by (simp add: lib_updates_def lib_def)

lemma lib_updates_trans: "lib_updates k s t \<Longrightarrow> lib_updates k t u \<Longrightarrow> lib_updates k s u"
  by (auto simp: lib_updates_def)

lemma lib_updates_inv: "lib_updates k s t \<Longrightarrow> fmu_inv s \<Longrightarrow> containers s k \<noteq> None \<Longrightarrow> fmu_inv t \<and> containers t k \<noteq> None"
  by (auto simp: lib_updates_def fmu_inv_def split: if_splits)

lemma inst_initialize_updates: "inst_initialize u k s = Ret ok t \<Longrightarrow> lib_updates k s t"
proof -
  assume "inst_initialize u k s = Ret ok t"
  then obtain fc srv s1 px where "IpcServer_create u (proxy_server (m_proxy fc)) s = (ok, srv, s1)"
    and t: "t = s1\<lparr>containers := (containers s1)(k \<mapsto> fc\<lparr>m_proxy := px\<rparr>)\<rparr>"
    by (auto simp: inst_initialize_def FmuProxy_initialize_def andThen_Ret_iff get_container_Ret
        set_container_Ret split: prod.splits)
  from lib_create [OF this(1)] have "lib s1 = lib s" .
  with t show ?thesis by (auto simp: lib_updates_def lib_def)
qed

lemma inst_launch_updates: "inst_launch ios k s = Ret x t \<Longrightarrow> lib_updates k s t"
  by (auto simp: inst_launch_def andThen_Ret_iff get_container_Ret set_container_Ret lib_updates_def
      case_prod_beta)

lemma inst_launch_skip: "(if b then inst_launch ios k else ret ()) s = Ret x t \<Longrightarrow> lib_updates k s t"
  by (auto simp: lib_updates_refl dest: inst_launch_updates split: if_splits)

lemma inst_remote_cases:
  assumes env: "env_keeps_lib (rt_env rt)" and inv: "fmu_inv s" and reg: "containers s k \<noteq> None"
    and run: "inst_remote u rt k a b l f v o' s = Ret r t"
  shows "r = Some k \<and> lib_updates k s t \<or>
    r = None \<and> g_clients t = remove1 (Some k) (g_clients s) \<and> containers t k = None \<and> fmu_inv t"
proof -
  from run obtain fc ok s1 where
    s1: "FmuProxy_fmi2Instantiate rt (m_proxy (fc :: FmuContainer)) a b l (c_str b @ c_str a @ ''Callback'') v o' s = Ret ok s1"
    and rest: "(if ok then
           andThen (get_container k) (\<lambda>fc.
           andThen (if (case f of None \<Rightarrow> False | Some f \<Rightarrow> has_logger f) \<and> to_bool o'
                    then set_container k (fc\<lparr>callbackThread := Some (c_str b @ c_str a @ ''Callback'')\<rparr>) else ret ()) (\<lambda>_.
           ret (Some k)))
         else andThen (fmi2FreeInstance u rt (Some k)) (\<lambda>_. ret None)) s1 = Ret r t"
    by (auto simp: inst_remote_def Let_def andThen_Ret_iff get_container_Ret)
  have lib: "lib s1 = lib s" by (rule keepsD [OF keeps_instantiate [OF env] s1])
  show ?thesis
  proof (cases ok)
    case True
    with rest have "r = Some k \<and> lib_updates k s1 t"
      by (auto simp: andThen_Ret_iff get_container_Ret set_container_Ret lib_updates_def split: if_splits)
    then show ?thesis using lib_updates_trans [OF lib_updates_refl [OF lib]] by blast
  next
    case False
    with rest have free: "fmi2FreeInstance u rt (Some k) s1 = Ret () t" and r: "r = None"
      by (auto simp: andThen_Ret_iff)
    have inv1: "fmu_inv s1" and eq: "g_clients s1 = g_clients s" "containers s1 = containers s"
      using fmu_inv_lib [OF lib] inv lib by (simp, simp_all add: lib_def)
    then have "getFmuContainer (g_clients s1) (Some k) = Some k"
      using inv reg by (auto simp: fmu_inv_def getFmuContainer_Some)
    from free_registered [OF env this free] free_inv [OF env inv1 free] r eq
    show ?thesis by simp
  qed
qed

definition base_clients :: "nat option list \<Rightarrow> nat option list" where
  "base_clients cs = (if cs = [] then [None] else cs)"

lemma base_inv:
  "fmu_inv s \<Longrightarrow> g_clients t = base_clients (g_clients s) \<Longrightarrow> containers t = containers s \<Longrightarrow>
   next_addr t = next_addr s \<Longrightarrow> fmu_inv t"
  by (auto simp: fmu_inv_def base_clients_def split: if_splits)

lemma inst_container_inv:
  assumes "fmu_inv s" and "g_clients s \<noteq> []" and "inst_container ios a f la key r s = Ret k t"
  shows "fmu_inv t \<and> containers t k \<noteq> None"
proof -
  have "containers s (next_addr s) = None" using assms(1) by (auto simp: fmu_inv_def)
  moreover from this have "Some (next_addr s) \<notin> set (g_clients s)" using assms(1) by (simp add: fmu_inv_def)
  ultimately show ?thesis
    using inst_container_lib [OF assms(3)] assms(1,2)
    by (auto simp: fmu_inv_def less_Suc_eq split: if_splits)
qed

text \<open>Up to the container, which is registered under the next address; then the memory, and the rest.\<close>

lemma inst_begun:
  fixes s :: "('p, 'z) fmu_world_scheme"
  assumes inv: "fmu_inv s" and 1: "inst_key ios a b f o' s = Ret key s1" and 2: "inst_resources ios l s1 = Ret res s2"
    and 3: "inst_config ios a f v o' key res s2 = Ret (skip, la, key') s3"
    and 4: "inst_container ios a f la key' res s3 = Ret k s4"
  shows "f \<noteq> None" and "k = next_addr s" and "g_clients s4 = base_clients (g_clients s) @ [Some (next_addr s)]"
    and "fmu_inv s4" and "containers s4 k \<noteq> None"
proof -
  have l1: "g_clients s1 = base_clients (g_clients s)" "containers s1 = containers s" "next_addr s1 = next_addr s"
    using inst_key_lib [OF 1] by (simp_all add: base_clients_def)
  have "lib s3 = lib s1"
    using keepsD [OF keeps_inst_resources 2] keepsD [OF keeps_inst_config 3] by (metis (no_types))
  with l1 have l3: "g_clients s3 = base_clients (g_clients s)" "containers s3 = containers s" "next_addr s3 = next_addr s"
    by (simp_all add: lib_def)
  have "g_clients s3 \<noteq> []" using l3(1) by (simp add: base_clients_def)
  from inst_container_inv [OF base_inv [OF inv l3] this 4] show "fmu_inv s4" and "containers s4 k \<noteq> None" by auto
  from inst_container_lib [OF 4] l3
  show "f \<noteq> None" and "k = next_addr s" and "g_clients s4 = base_clients (g_clients s) @ [Some (next_addr s)]" by auto
qed

lemma inst_finished:
  fixes s :: "('p, 'z) fmu_world_scheme"
  assumes env: "env_keeps_lib (rt_env rt)" and inv: "fmu_inv s" and c: "containers s k \<noteq> None"
    and run: "andThen (if to_bool o' then LOG f a fmi2OK cat fmt args else ret ()) (\<lambda>_.
       andThen (if \<not> skip then inst_launch ios k else ret ()) (\<lambda>_. inst_remote u rt k a b l f v o')) s = Ret r t"
  shows "fmu_inv t \<and> (r = Some k \<and> g_clients t = g_clients s \<or> r = None \<and> g_clients t = remove1 (Some k) (g_clients s))"
proof -
  from run obtain s6 x s7 where
    6: "(if to_bool o' then LOG f a fmi2OK cat fmt args else ret ()) s = Ret () s6" and
    7: "(if \<not> skip then inst_launch ios k else ret ()) s6 = Ret x s7" and
    8: "inst_remote u rt k a b l f v o' s7 = Ret r t"
    by (auto simp: andThen_Ret_iff)
  have "lib s6 = lib s" by (rule keepsD [OF keeps_if [OF keeps_LOG keeps_ret] 6])
  then have u7: "lib_updates k s s7"
    using lib_updates_trans [OF lib_updates_refl inst_launch_skip [OF 7]] by blast
  from lib_updates_inv [OF u7 inv c] have inv7: "fmu_inv s7" and c7: "containers s7 k \<noteq> None" by auto
  have g7: "g_clients s7 = g_clients s" using u7 by (simp add: lib_updates_def)
  from inst_remote_cases [OF env inv7 c7 8] show ?thesis
  proof
    assume "r = Some k \<and> lib_updates k s7 t"
    with lib_updates_inv [OF _ inv7 c7] g7 show ?thesis by (auto simp: lib_updates_def)
  next
    assume "r = None \<and> g_clients t = remove1 (Some k) (g_clients s7) \<and> containers t k = None \<and> fmu_inv t"
    with g7 show ?thesis by simp
  qed
qed

text \<open>
  \<open>fmi2Instantiate\<close> in its three parts: up to the attempt to create the channel; the launch; the
  remote instantiation.
\<close>

definition inst_opened ::
  "unix \<Rightarrow> inst_os \<Rightarrow> string \<Rightarrow> string \<Rightarrow> string \<Rightarrow> callbacks option \<Rightarrow> c_int \<Rightarrow> c_int \<Rightarrow>
   (bool \<times> nat \<times> bool \<times> string, ('p, 'z) fmu_world_scheme) prog" where
  "inst_opened u ios a b l f v o' =
     andThen (inst_key ios a b f o') (\<lambda>key.
     andThen (inst_resources ios (Some l)) (\<lambda>res.
     andThen (inst_config ios a f v o' key res) (\<lambda>(skip, la, key).
     andThen (inst_container ios a f la key res) (\<lambda>k.
     andThen (inst_initialize u k) (\<lambda>created. ret (created, k, skip, key))))))"

definition inst_started ::
  "inst_os \<Rightarrow> string \<Rightarrow> callbacks option \<Rightarrow> c_int \<Rightarrow> nat \<Rightarrow> bool \<Rightarrow> string \<Rightarrow> (unit, ('p, 'z) fmu_world_scheme) prog"
where
  "inst_started ios a f o' k skip key =
     andThen (if to_bool o' then LOG f a fmi2OK ''logFmiCall''
                ''FMU: FMU Server create, hosting SHM with raw key: %s'' [key] else ret ()) (\<lambda>_.
     if \<not> skip then inst_launch ios k else ret ())"

lemma instantiate_parts:
  assumes "fmi2Instantiate u rt ios a b l f v o' s = Ret r t"
  obtains (failed) k skip key s5 where "inst_opened u ios a b l f v o' s = Ret (False, k, skip, key) s5"
      and "r = None" and "lib t = lib s5"
  | (opened) k skip key s5 s7 where "inst_opened u ios a b l f v o' s = Ret (True, k, skip, key) s5"
      and "inst_started ios a f o' k skip key s5 = Ret () s7" and "inst_remote u rt k a b l f v o' s7 = Ret r t"
proof -
  from assms obtain k created skip key s5 where
    5: "inst_opened u ios a b l f v o' s = Ret (created, k, skip, key) s5" and
    rest: "(if \<not> created then
       andThen (LOG f a fmi2Fatal ''logFmiCall''
         (''FMU: FMU Debug FATAL: cannot create and initialize IPC server for FMU. SHM is '%s'' @ [CHR 0x27, LF]) [key]) (\<lambda>_.
       ret None)
     else
       andThen (if to_bool o'
                then LOG f a fmi2OK ''logFmiCall''
                  ''FMU: FMU Server create, hosting SHM with raw key: %s'' [key]
                else ret ()) (\<lambda>_.
       andThen (if \<not> skip then inst_launch ios k else ret ()) (\<lambda>_.
       inst_remote u rt k a b l f v o'))) s5 = Ret r t"
    by (auto simp: fmi2Instantiate_def inst_opened_def andThen_Ret_iff)
  show thesis
  proof (cases created)
    case False
    with rest have "r = None" and log: "LOG f a fmi2Fatal ''logFmiCall''
         (''FMU: FMU Debug FATAL: cannot create and initialize IPC server for FMU. SHM is '%s'' @ [CHR 0x27, LF]) [key] s5 = Ret () t"
      by (auto simp: andThen_Ret_iff)
    moreover have "lib t = lib s5" by (rule keepsD [OF keeps_LOG log])
    ultimately show thesis using failed 5 False by simp
  next
    case True
    with rest obtain s7 where "inst_started ios a f o' k skip key s5 = Ret () s7"
      and "inst_remote u rt k a b l f v o' s7 = Ret r t"
      by (auto simp: inst_started_def andThen_Ret_iff split: if_splits)
    then show thesis using opened 5 True by simp
  qed
qed

lemma inst_opened_lib:
  fixes s :: "('p, 'z) fmu_world_scheme"
  assumes inv: "fmu_inv s" and run: "inst_opened u ios a b l f v o' s = Ret (created, k, skip, key) s5"
  shows "f \<noteq> None" and "k = next_addr s" and "g_clients s5 = base_clients (g_clients s) @ [Some (next_addr s)]"
    and "fmu_inv s5" and "containers s5 k \<noteq> None"
proof -
  from run obtain key0 s1 res s2 la s3 s4 where
    1: "inst_key ios a b f o' s = Ret key0 s1" and
    2: "inst_resources ios (Some l) s1 = Ret res s2" and
    3: "inst_config ios a f v o' key0 res s2 = Ret (skip, la, key) s3" and
    4: "inst_container ios a f la key res s3 = Ret k s4" and
    5: "inst_initialize u k s4 = Ret created s5"
    by (auto simp: inst_opened_def andThen_Ret_iff)
  note begun = inst_begun [OF inv 1 2 3 4]
  from begun(1,2) show "f \<noteq> None" and "k = next_addr s" .
  from lib_updates_inv [OF inst_initialize_updates [OF 5] begun(4,5)]
  show "fmu_inv s5" and "containers s5 k \<noteq> None" by auto
  from inst_initialize_updates [OF 5] begun(3)
  show "g_clients s5 = base_clients (g_clients s) @ [Some (next_addr s)]" by (simp add: lib_updates_def)
qed

lemma inst_started_updates:
  assumes "inst_started ios a f o' k skip key s = Ret () t"
  shows "lib_updates k s t"
proof -
  from assms obtain s6 where
    6: "(if to_bool o' then LOG f a fmi2OK ''logFmiCall''
           ''FMU: FMU Server create, hosting SHM with raw key: %s'' [key] else ret ()) s = Ret () s6" and
    7: "(if \<not> skip then inst_launch ios k else ret ()) s6 = Ret () t"
    by (auto simp: inst_started_def andThen_Ret_iff)
  have "lib s6 = lib s" by (rule keepsD [OF keeps_if [OF keeps_LOG keeps_ret] 6])
  then show ?thesis using lib_updates_trans [OF lib_updates_refl inst_launch_skip [OF 7]] by blast
qed

text \<open>What the remote instantiation leaves, by the peer's answer \<open>ok\<close>.\<close>

definition remote_left ::
  "nat \<Rightarrow> string \<Rightarrow> string \<Rightarrow> callbacks option \<Rightarrow> c_int \<Rightarrow> FmuContainer \<Rightarrow> nat option list \<Rightarrow> bool \<Rightarrow>
   nat option \<Rightarrow> ('p, 'z) fmu_world_scheme \<Rightarrow> bool" where
  "remote_left k a b f o' fc cs ok r t \<longleftrightarrow>
     (if ok then r = Some k \<and> g_clients t = cs \<and>
        containers t k = Some (if (\<exists>g. f = Some g \<and> has_logger g) \<and> to_bool o'
          then fc\<lparr>callbackThread := Some (c_str b @ c_str a @ ''Callback'')\<rparr> else fc)
      else r = None \<and> g_clients t = remove1 (Some k) cs \<and> containers t k = None)"

lemma remote_left_last:
  assumes "Some k \<notin> set cs"
  shows "remote_left k a b f o' fc (cs @ [Some k]) ok r t =
    (if ok then r = Some k \<and> g_clients t = cs @ [Some k] \<and>
        containers t k = Some (if (\<exists>g. f = Some g \<and> has_logger g) \<and> to_bool o'
          then fc\<lparr>callbackThread := Some (c_str b @ c_str a @ ''Callback'')\<rparr> else fc)
      else r = None \<and> g_clients t = cs \<and> containers t k = None)"
  using assms by (simp add: remote_left_def remove1_append)

lemma inst_remote_outcome:
  assumes env: "env_keeps_lib (rt_env rt)" and inv: "fmu_inv s" and reg: "containers s k \<noteq> None"
    and run: "inst_remote u rt k a b l f v o' s = Ret r t"
  obtains fc ok s1 where "containers s k = Some fc"
    and "FmuProxy_fmi2Instantiate rt (m_proxy fc) a b l (c_str b @ c_str a @ ''Callback'') v o' s = Ret ok s1"
    and "remote_left k a b f o' fc (g_clients s) ok r t" and "fmu_inv t"
proof -
  from run obtain fc ok s1 where fc: "containers s k = Some fc" and
    s1: "FmuProxy_fmi2Instantiate rt (m_proxy fc) a b l (c_str b @ c_str a @ ''Callback'') v o' s = Ret ok s1"
    and rest: "(if ok then
           andThen (get_container k) (\<lambda>fc.
           andThen (if (case f of None \<Rightarrow> False | Some f \<Rightarrow> has_logger f) \<and> to_bool o'
                    then set_container k (fc\<lparr>callbackThread := Some (c_str b @ c_str a @ ''Callback'')\<rparr>) else ret ()) (\<lambda>_.
           ret (Some k)))
         else andThen (fmi2FreeInstance u rt (Some k)) (\<lambda>_. ret None)) s1 = Ret r t"
    by (auto simp: inst_remote_def Let_def andThen_Ret_iff get_container_Ret)
  have lib: "lib s1 = lib s" by (rule keepsD [OF keeps_instantiate [OF env] s1])
  then have inv1: "fmu_inv s1" and eq: "g_clients s1 = g_clients s" "containers s1 = containers s"
    using fmu_inv_lib [OF lib] inv by (simp, simp_all add: lib_def)
  have "remote_left k a b f o' fc (g_clients s) ok r t \<and> fmu_inv t"
  proof (cases ok)
    case True
    with rest fc eq have left: "remote_left k a b f o' fc (g_clients s) ok r t" and up: "lib_updates k s1 t"
      by (auto simp: andThen_Ret_iff get_container_Ret set_container_Ret lib_updates_def remote_left_def
          split: if_splits option.splits)
    from left lib_updates_inv [OF up inv1] fc eq show ?thesis by simp
  next
    case False
    with rest have free: "fmi2FreeInstance u rt (Some k) s1 = Ret () t" and r: "r = None"
      by (auto simp: andThen_Ret_iff)
    have "getFmuContainer (g_clients s1) (Some k) = Some k"
      using inv reg eq by (auto simp: fmu_inv_def getFmuContainer_Some)
    from free_registered [OF env this free] free_inv [OF env inv1 free] r eq False
    show ?thesis by (simp add: remote_left_def)
  qed
  with fc s1 show thesis using that by blast
qed

lemma instantiate_cases:
  fixes s :: "('p, 'z) fmu_world_scheme"
  assumes env: "env_keeps_lib (rt_env rt)" and inv: "fmu_inv s"
    and run: "fmi2Instantiate u rt ios a b l f v o' s = Ret r t"
  shows "f \<noteq> None \<and> fmu_inv t \<and> (\<exists>created skip key s5.
    inst_opened u ios a b l f v o' s = Ret (created, next_addr s, skip, key) s5 \<and>
    (if created then \<exists>s7 fc ok s8. inst_started ios a f o' (next_addr s) skip key s5 = Ret () s7 \<and>
       containers s7 (next_addr s) = Some fc \<and>
       FmuProxy_fmi2Instantiate rt (m_proxy fc) a b l (c_str b @ c_str a @ ''Callback'') v o' s7 = Ret ok s8 \<and>
       remote_left (next_addr s) a b f o' fc (base_clients (g_clients s) @ [Some (next_addr s)]) ok r t
     else r = None \<and> g_clients t = base_clients (g_clients s) @ [Some (next_addr s)] \<and>
       containers t (next_addr s) \<noteq> None))"
  using run
proof (cases rule: instantiate_parts)
  case (failed k skip key s5)
  note o = inst_opened_lib [OF inv failed(1)]
  show ?thesis using failed o fmu_inv_lib [OF failed(3)] by (auto simp: lib_def)
next
  case (opened k skip key s5 s7)
  note o = inst_opened_lib [OF inv opened(1)] and st = inst_started_updates [OF opened(2)]
  from lib_updates_inv [OF st o(4,5)] have "fmu_inv s7" "containers s7 k \<noteq> None" by auto
  then obtain fc ok s8 where "containers s7 k = Some fc"
    and "FmuProxy_fmi2Instantiate rt (m_proxy fc) a b l (c_str b @ c_str a @ ''Callback'') v o' s7 = Ret ok s8"
    and "remote_left k a b f o' fc (g_clients s7) ok r t" and "fmu_inv t"
    using inst_remote_outcome [OF env _ _ opened(3)] by metis
  moreover have "g_clients s7 = g_clients s5" using st by (simp add: lib_updates_def)
  ultimately show ?thesis using opened o(1-3) by auto
qed

section \<open>A program that uses the library\<close>

text \<open>
  What can happen to the library's state from its loading on: instances are created and freed,
  the debug printer of one is set, and everything else, the forwarded calls and the other threads
  and processes, leaves its part of the state alone.
\<close>

inductive fmu_reach ::
  "unix \<Rightarrow> (('p, 'z) fmu_world_scheme) runtime \<Rightarrow> ('p, 'z) fmu_world_scheme \<Rightarrow> bool"
  for u rt where
  loaded: "g_clients s = [] \<Longrightarrow> containers s = (\<lambda>_. None) \<Longrightarrow> fmu_reach u rt s"
| instantiated: "fmu_reach u rt s \<Longrightarrow> fmi2Instantiate u rt ios a b l f v o' s = Ret r t \<Longrightarrow> fmu_reach u rt t"
| freed: "fmu_reach u rt s \<Longrightarrow> fmi2FreeInstance u rt c s = Ret x t \<Longrightarrow> fmu_reach u rt t"
| debug_set: "fmu_reach u rt s \<Longrightarrow> fmi2SetDebugLogging rt c o' n cs s = Ret st t \<Longrightarrow> fmu_reach u rt t"
| other: "fmu_reach u rt s \<Longrightarrow> lib t = lib s \<Longrightarrow> fmu_reach u rt t"

lemma keeps_with_fmu: "(\<And>fc. keeps lib (body fc)) \<Longrightarrow> keeps lib (with_fmu c unknown body)"
  by (auto simp: keeps_def with_fmu_def andThen_Ret_iff get_container_Ret split: option.splits)

lemma keeps_converted:
  "keeps lib m \<Longrightarrow> keeps lib (converted m)" "keeps lib m' \<Longrightarrow> keeps lib (converted_with m')"
  unfolding converted_def converted_with_def by (intro keeps_rules; assumption)+

text \<open>Forwarded calls are steps of the kind \<open>other\<close>.\<close>

lemma forwarded_keeps_lib:
  assumes env: "env_keeps_lib (rt_env rt)"
  shows "keeps lib (fmi2DoStep rt c x y n)" and "keeps lib (fmi2GetReal rt c vr nvr v)"
    and "keeps lib (fmi2SetReal rt c vr nvr v)" and "keeps lib (fmi2Terminate rt c)"
  unfolding fmi2DoStep_def fmi2GetReal_def fmi2SetReal_def fmi2Terminate_def
    FmuProxy_fmi2DoStep_def FmuProxy_fmi2GetReal_def FmuProxy_fmi2SetReal_def FmuProxy_fmi2Terminate_def
  by (intro keeps_with_fmu keeps_converted keeps_values keeps_sendRetStatus env)+

lemma debug_set_inv:
  assumes env: "env_keeps_lib (rt_env rt)" and inv: "fmu_inv s"
    and run: "fmi2SetDebugLogging rt c o' n cs s = Ret st t"
  shows "fmu_inv t"
proof (cases "getFmuContainer (g_clients s) c")
  case None
  with inv run show ?thesis by (simp add: fmi2SetDebugLogging_def with_fmu_unknown)
next
  case (Some k)
  then have c: "c = Some k" by (simp add: getFmuContainer_Some)
  from inv Some obtain fc where fc: "containers s k = Some fc"
    using get_container_registered by blast
  from run have "andThen (need OutOfBounds (get_prefix cs (int n))) (\<lambda>cats.
       let fmu = set_debug_printer
             (debug_categories o' (map c_str cats) (debugPrintPtr (proxy_server (m_proxy fc)))) fc
       in andThen (set_container k fmu) (\<lambda>_.
          converted (FmuProxy_fmi2SetDebugLogging rt (m_proxy fmu) o' n cs))) s = Ret st t"
    unfolding fmi2SetDebugLogging_def with_fmu_registered [OF Some fc] by (simp add: c)
  then obtain fc' where
    "converted (FmuProxy_fmi2SetDebugLogging rt (m_proxy fc') o' n cs) (s\<lparr>containers := (containers s)(k \<mapsto> fc')\<rparr>) = Ret st t"
    by (auto simp: andThen_Ret_iff need_Ret_iff set_container_Ret Let_def)
  moreover have "keeps lib (FmuProxy_fmi2SetDebugLogging rt px o' n cs)" for px
    unfolding FmuProxy_fmi2SetDebugLogging_def by (intro keeps_rules keeps_sendRetStatus env)
  ultimately have "lib t = lib (s\<lparr>containers := (containers s)(k \<mapsto> fc')\<rparr>)"
    by (auto simp: converted_def andThen_Ret_iff dest: keepsD)
  from fmu_inv_lib [OF this] fmu_inv_set_container [OF inv] fc show ?thesis by simp
qed

lemma fmu_reach_inv:
  "fmu_reach u rt s \<Longrightarrow> env_keeps_lib (rt_env rt) \<Longrightarrow> fmu_inv s"
proof (induction rule: fmu_reach.induct)
  case (loaded s)
  then show ?case by (simp add: fmu_inv_def)
next
  case (instantiated s ios a b l f v o' r t)
  then show ?case using instantiate_cases by blast
next
  case (freed s c x t)
  then show ?case using free_inv by blast
next
  case (debug_set s c o' n cs st t)
  then show ?case using debug_set_inv by blast
next
  case (other s t)
  then show ?case using fmu_inv_lib by blast
qed

section \<open>An instance for the examples\<close>

text \<open>A world with one registered instance, whose server is connected to the other end.\<close>

definition ex_container :: FmuContainer where
  "ex_container = \<lparr>m_functions = \<lparr>has_logger = True, cb_environment = 7\<rparr>,
     m_proxy = \<lparr>m_url = ''key'', proxy_server = ends_srv\<lparr>m_connected := True, m_connWatchDogThread := True\<rparr>\<rparr>,
     c_name = ''inst'', m_javaLauncher = JavaLauncher_new False [] [], active = True,
     componentEnvironment = 7, c_id = 1, callbackThread = None\<rparr>"

definition fmu_ext :: "FmuContainer option \<Rightarrow> 'p world \<Rightarrow> 'p fmu_world" where
  "fmu_ext fc w = world.extend w
     \<lparr>currentId = 1, g_clients = (if fc = None then [] else [None, Some 0]), containers = (\<lambda>_. None)(0 := fc),
      next_addr = 1, logged = [], launched = []\<rparr>"

definition ex_world :: "'p \<Rightarrow> 'p fmu_world" where
  "ex_world q = fmu_ext (Some ex_container) (world0 q)"

lemma ex_world_simps [simp]:
  "g_clients (ex_world q) = [None, Some 0]" "containers (ex_world q) = (\<lambda>_. None)(0 \<mapsto> ex_container)"
  "next_addr (ex_world q) = 1" "peer (ex_world q) = q" "clock (ex_world q) = (0, 0)" "logged (ex_world q) = []"
  by (simp_all add: ex_world_def fmu_ext_def world.defs world0_def)

lemma ex_world_inv: "fmu_inv (ex_world q)"
  by (auto simp: fmu_inv_def)

lemma ex_server_at_rest: "at_rest (proxy_server (m_proxy ex_container)) ends_cl (ex_world q)"
  by (simp add: ex_container_def at_rest_def same_channel_def ends_srv_def ends_cl_def ex_world_def fmu_ext_def
      world.defs world0_def IpcServer_new_def IpcClient_new_def IpcBase_new_def IpcBase.defs)

lemma ex_registered: "getFmuContainer (g_clients (ex_world q)) (Some 0) = Some 0"
  by (simp add: getFmuContainer_Some)

lemma keeps_sendReply [keeps_rules]: "keeps lib (sendReply cl r)"
  unfolding sendReply_def by (intro keeps_rules)

lemma keeps_getMessage: "env_keeps_lib env \<Longrightarrow> keeps lib (getMessage env cl d)"
  unfolding getMessage_def by (intro keeps_rules keeps_wait)

lemma client_turn_keeps_lib:
  fixes h :: "SharedFmiMessage \<Rightarrow> (SharedFmiMessage, 'p) prog"
  shows "keeps (lib :: ('p, 'z) fmu_world_scheme \<Rightarrow> _) (client_turn h cl)"
proof -
  have "keeps (lib :: ('p, 'z) fmu_world_scheme \<Rightarrow> _) (\<lambda>s. case h m (peer s) of Fault e \<Rightarrow> Fault e | Blocks \<Rightarrow> Blocks
      | Ret reply q \<Rightarrow> sendReply cl reply (s\<lparr>peer := q\<rparr>))" for m
  proof (rule keepsI)
    fix s t :: "('p, 'z) fmu_world_scheme" and r
    assume "(case h m (peer s) of Fault e \<Rightarrow> Fault e | Blocks \<Rightarrow> Blocks
      | Ret reply q \<Rightarrow> sendReply cl reply (s\<lparr>peer := q\<rparr>)) = Ret r t"
    then obtain reply q where "sendReply cl reply (s\<lparr>peer := q\<rparr>) = Ret r t"
      by (auto split: outcome.splits)
    from keepsD [OF keeps_sendReply this] show "lib t = lib s" by simp
  qed
  moreover have "env_keeps_lib (\<lambda>_ s. s :: ('p, 'z) fmu_world_scheme)" by (simp add: env_keeps_lib_def)
  ultimately show ?thesis
    unfolding client_turn_def by (intro keeps_andThen keeps_option keeps_ret keeps_load keeps_getMessage)
qed

lemma turn_env_keeps_lib: "env_keeps_lib (turn_env h cl)"
proof -
  have "lib (turn_env h cl d s) = lib s" for d and s :: "('a, 'b) fmu_world_scheme"
    by (auto simp: turn_env_def sem_take_def keepsD [OF client_turn_keeps_lib]
        split: outcome.split SIGNAL_HANDLE.split)
  then show ?thesis by (simp add: env_keeps_lib_def)
qed

text \<open>Freeing the instance of the example, whose peer answers.\<close>

lemma ex_proxy_free:
  fixes s :: "(unit, 'z) fmu_world_scheme"
  assumes "at_rest (proxy_server (m_proxy ex_container)) ends_cl s" and "clock s = (0, 0)"
  shows "\<exists>rep. FmuProxy_fmi2FreeInstance (peer_runtime wire_ser wire_parse (always []) ends_cl) (m_proxy ex_container) s =
    Ret () (after_exchange rep () 0 s)"
proof -
  have ser: "wire_ser Fmi2Empty = []" by (simp add: wire_ser_def enc_fields_def)
  obtain m where m: "request_message cmd_fmi2FreeInstance [] = Some m"
    using request_small(2) [of "[]"] by auto
  from request_message_Some(2) [OF m] obtain rep where "always [] m () = Ret rep ()"
    using with_payload_fits [of m "[]"] by (auto simp: always_def SharedFmiBufferSize_def)
  then have "IpcServer_send (turn_env (always []) ends_cl) (proxy_server (m_proxy ex_container)) m 1 s =
      Ret (Some 0) (after_exchange rep () 0 s)"
    using assms by (intro send_at_rest) (simp_all add: deadline_valid_def deadline_def ex_container_def ends_srv_def)
  then show ?thesis
    by (auto simp: FmuProxy_fmi2FreeInstance_def peer_runtime_def ser m)
qed

lemma ex_proxy_delete: "FmuProxy_delete u (m_proxy ex_container) s = Ret () s"
  by (simp add: FmuProxy_delete_def IpcServer_delete_def IpcServer_close_def IpcBase_delete_def Let_def
      signalClose_def unmap_def ex_container_def ends_srv_def IpcServer_new_def IpcBase_new_def IpcBase.defs)

lemma ex_free:
  "\<exists>t. fmi2FreeInstance u (peer_runtime wire_ser wire_parse (always []) ends_cl) (Some 0) (ex_world ()) = Ret () t"
proof -
  obtain rep where "FmuProxy_fmi2FreeInstance (peer_runtime wire_ser wire_parse (always []) ends_cl)
      (m_proxy ex_container) (ex_world ()) = Ret () (after_exchange rep () 0 (ex_world ()))"
    using ex_proxy_free [OF ex_server_at_rest] by auto
  then show ?thesis
    using ex_registered [of "()"]
    by (simp add: fmi2FreeInstance_def get_container_def set_container_def FmuContainer_delete_def after_exchange_def
        ex_proxy_delete)
qed

text \<open>An instantiation in a system that refuses to share memory.\<close>

definition ex_os :: inst_os where
  "ex_os = \<lparr>uuid4 = (True, ''u''), files = (\<lambda>_. None),
     launch_env = \<lparr>fork1 = 41, wait_status = 0, fork2 = 42, chdir_ok = True, exec_ok = True\<rparr>,
     malloc_junk = (\<lambda>_. CHR 0x00)\<rparr>"

definition ex_callbacks :: callbacks where
  "ex_callbacks = \<lparr>has_logger = False, cb_environment = 7\<rparr>"

definition ex_refusing :: "unit fmu_world" where
  "ex_refusing = (fmu_ext None (world0 ()))\<lparr>refuse := \<lambda>_. True\<rparr>"

lemma ex_refusing_simps:
  "g_clients ex_refusing = []" "containers ex_refusing = (\<lambda>_. None)" "next_addr ex_refusing = 1"
  "refuse ex_refusing = (\<lambda>_. True)"
  by (simp_all add: ex_refusing_def fmu_ext_def world.defs fun_eq_iff)

lemma ex_failed_instantiate:
  "\<exists>t. fmi2Instantiate Linux rt ex_os ''a'' ''g'' ''/r'' (Some ex_callbacks) 0 0 ex_refusing = Ret None t \<and>
     getFmuContainer (g_clients t) (Some 1) = Some 1"
proof -
  have log: "LOG (Some ex_callbacks) n st cat fmt args = ret ()" for n st cat fmt args
    by (simp add: LOG_def ex_callbacks_def)
  have start: "uri_path_start Unix ''/r'' s = Ret 0 s" for s :: "unit fmu_world"
    by (simp add: uri_path_start_def strncmp_eq_def)
  have res: "inst_resources ex_os (Some ''/r'') s = Ret ''/r/'' s" for s :: "unit fmu_world"
    using URIToNativePath_run [of Unix "''/r''" s 0 "malloc_junk ex_os", OF start]
    by (simp add: inst_resources_def with_separator_def c_str_def)
  have cfg: "inst_config ex_os ''a'' (Some ex_callbacks) 0 0 key r s =
      Ret (True, JavaLauncher_new False r [c_str key], skip_key) s" for key r and s :: "unit fmu_world"
    by (simp add: inst_config_def log to_bool_def ConfigFile_new_def ex_os_def)
  let ?s1 = "ex_refusing\<lparr>g_clients := [None], currentId := currentId ex_refusing + 1\<rparr>"
  have key: "inst_key ex_os ''a'' ''g'' (Some ex_callbacks) 0 ex_refusing = Ret ''u'' ?s1"
    by (simp add: inst_key_def log to_bool_def ex_refusing_simps ex_os_def c_str_def)
  obtain fc s4 where con: "inst_container ex_os ''a'' (Some ex_callbacks) (JavaLauncher_new False ''/r/'' [''u'']) skip_key ''/r/'' ?s1
      = Ret 1 s4"
    and s4: "containers s4 1 = Some fc" "refuse s4 = (\<lambda>_. True)" "g_clients s4 = [None, Some 1]"
    by (simp add: inst_container_def FmuContainer_new_def Let_def ex_refusing_simps ex_os_def FileExists_def)
  have "\<exists>s5. inst_initialize Linux 1 s4 = Ret False s5 \<and> g_clients s5 = [None, Some 1]"
    using s4 by (simp add: inst_initialize_def FmuProxy_initialize_def IpcServer_create_def create_shm_def Let_def
        openShm_def shm_open_def get_container_def set_container_def)
  then obtain s5 where init: "inst_initialize Linux 1 s4 = Ret False s5" and "g_clients s5 = [None, Some 1]" by blast
  with key res [of ?s1] cfg [of "''u''" "''/r/''" ?s1] con show ?thesis
    by (simp add: fmi2Instantiate_def log getFmuContainer_def c_str_def)
qed

text \<open>The example with a log message posted by the other end.\<close>

definition ex_log :: SharedFmiMessage where
  "ex_log = (case request_message cmd_fmi2Log (wire_ser (Fmi2LogReply ''hi'' 1 ''c'')) of
     None \<Rightarrow> SharedFmiMessage_zero | Some m \<Rightarrow> m)"

definition ex_log_world :: "unit fmu_world" where
  "ex_log_world = (ex_world ())\<lparr>shm_objs := (\<lambda>_. \<lparr>shm_size = 10072, shm_mem = \<lparr>message = ex_log\<rparr>\<rparr>),
     sem_val := (\<lambda>_. 0)(0 := 1)\<rparr>"

lemma ex_log_message:
  "cmd ex_log = cmd_code cmd_fmi2Log" "payload ex_log = Some (wire_ser (Fmi2LogReply ''hi'' 1 ''c''))"
proof -
  have "length (wire_ser (Fmi2LogReply ''hi'' 1 ''c'')) \<le> 10000" by (simp add: wire_lengths enc_string_def)
  then obtain m where m: "request_message cmd_fmi2Log (wire_ser (Fmi2LogReply ''hi'' 1 ''c'')) = Some m"
    using request_small(2) by blast
  then show "cmd ex_log = cmd_code cmd_fmi2Log" "payload ex_log = Some (wire_ser (Fmi2LogReply ''hi'' 1 ''c''))"
    using request_message_Some [OF m] by (simp_all add: ex_log_def)
qed

section \<open>Properties\<close>

text \<open>
  A component that is not registered, a null pointer included, is refused without any effect:
  the calls return Fatal, write no output, and reach neither a proxy nor shared memory; freeing it
  does nothing. The exception is \<open>fmi2SetupExperiment\<close>, which answers OK.
\<close>

theorem unknown_component_inert:
  assumes "getFmuContainer (g_clients s) c = None"
  shows "fmi2DoStep rt c x y n s = Ret fmi2Fatal s \<and> fmi2GetReal rt c vr nvr v s = Ret (fmi2Fatal, v) s \<and>
    fmi2SetString rt c vr nvr v' s = Ret fmi2Fatal s \<and> fmi2Terminate rt c s = Ret fmi2Fatal s \<and>
    fmi2SetDebugLogging rt c n nvr v' s = Ret fmi2Fatal s \<and>
    fmi2GetStatus rt c k st s = Ret (fmi2Fatal, st) s \<and> fmi2FreeInstance u rt c s = Ret () s \<and>
    fmi2SetupExperiment rt c n x y n' z s = Ret fmi2OK s"
  using assms
  by (simp add: with_fmu_unknown fmi2DoStep_def fmi2GetReal_def fmi2SetString_def fmi2Terminate_def fmi2SetDebugLogging_def
      fmi2GetStatus_def fmi2FreeInstance_def fmi2SetupExperiment_def)

theorem unknown_component_inert_witness:
  "fmi2DoStep (peer_runtime wire_ser wire_parse (always []) ends_cl) (Some 4) 0 1 0 (ex_world ()) =
     Ret fmi2Fatal (ex_world ()) \<and>
   fmi2SetupExperiment (peer_runtime wire_ser wire_parse (always []) ends_cl) None 0 0 0 0 0 (ex_world ()) =
     Ret fmi2OK (ex_world ())"
  using unknown_component_inert [of "ex_world ()" "Some 4" "peer_runtime wire_ser wire_parse (always []) ends_cl"]
    unknown_component_inert [of "ex_world ()" None "peer_runtime wire_ser wire_parse (always []) ends_cl"]
  by (simp add: getFmuContainer_def)

text \<open>
  C8: In every state the library can reach, a component that is looked up successfully has its
  container: no forwarded call ever uses freed memory, each runs on the container's own proxy, and
  no two registry entries are the same.
\<close>

theorem registered_component_usable:
  assumes "fmu_reach u rt s" and "env_keeps_lib (rt_env rt)"
  shows "distinct (g_clients s) \<and>
    (getFmuContainer (g_clients s) c = Some k \<longrightarrow>
      (\<exists>fc. containers s k = Some fc \<and> with_fmu c unknown body s = body fc s))"
proof -
  from fmu_reach_inv [OF assms] have inv: "fmu_inv s" .
  then have "distinct (g_clients s)" by (simp add: fmu_inv_def)
  moreover have "\<exists>fc. containers s k = Some fc \<and> with_fmu c unknown body s = body fc s"
    if reg: "getFmuContainer (g_clients s) c = Some k"
  proof -
    from get_container_registered [OF inv reg] obtain fc where fc: "containers s k = Some fc" by blast
    with with_fmu_registered [OF reg fc] show ?thesis by simp
  qed
  ultimately show ?thesis by blast
qed

theorem registered_component_usable_witness:
  "\<exists>t fc. fmi2Instantiate Linux (peer_runtime wire_ser wire_parse (always []) ends_cl) ex_os ''a'' ''g'' ''/r''
       (Some ex_callbacks) 0 0 ex_refusing = Ret None t \<and> containers t 1 = Some fc \<and>
     with_fmu (Some 1) px_Fatal (\<lambda>_. ret px_OK) t = ret px_OK t"
proof -
  let ?rt = "peer_runtime wire_ser wire_parse (always []) ends_cl"
  obtain t where t: "fmi2Instantiate Linux ?rt ex_os ''a'' ''g'' ''/r'' (Some ex_callbacks) 0 0 ex_refusing = Ret None t"
    and reg: "getFmuContainer (g_clients t) (Some 1) = Some 1"
    using ex_failed_instantiate by blast
  have "fmu_reach Linux ?rt ex_refusing"
    by (rule fmu_reach.loaded) (simp_all add: ex_refusing_simps)
  from fmu_reach.instantiated [OF this t] have reach: "fmu_reach Linux ?rt t" .
  have env: "env_keeps_lib (rt_env ?rt)" by (simp add: peer_runtime_def turn_env_keeps_lib)
  have "\<exists>fc. containers t 1 = Some fc \<and> with_fmu (Some 1) px_Fatal (\<lambda>_. ret px_OK) t = ret px_OK t"
    using registered_component_usable [OF reach env, of "Some 1" 1 px_Fatal "\<lambda>_. ret px_OK"] reg by auto
  with t show ?thesis by blast
qed

text \<open>
  C14: What an instantiation that returns leaves in the registry, by its cause. The component is
  registered under a new address before its channel is created. When creating the channel fails,
  the result is NULL and the component stays registered, with its container in memory; the caller
  has no handle to it, and freeing NULL does nothing. When the channel was created, the remote side
  is asked: if it accepts, the result is the new component, registered last, with a callback thread
  exactly if there is a logger and logging is on; if it refuses, the result is NULL, the component
  is no longer registered and its container is gone. The registry stays consistent throughout, and
  callbacks were given.
\<close>

theorem instantiate_outcomes:
  fixes s :: "('p, 'z) fmu_world_scheme"
  assumes "env_keeps_lib (rt_env rt)" and "fmu_inv s"
    and "fmi2Instantiate u rt ios a b l f v o' s = Ret r t"
  shows "f \<noteq> None \<and> fmu_inv t \<and> (\<exists>created skip key s5.
    inst_opened u ios a b l f v o' s = Ret (created, next_addr s, skip, key) s5 \<and>
    (if \<not> created
     then r = None \<and> g_clients t = base_clients (g_clients s) @ [Some (next_addr s)] \<and>
       containers t (next_addr s) \<noteq> None \<and> fmi2FreeInstance u rt None t = Ret () t
     else \<exists>s7 fc ok s8. inst_started ios a f o' (next_addr s) skip key s5 = Ret () s7 \<and>
       containers s7 (next_addr s) = Some fc \<and>
       FmuProxy_fmi2Instantiate rt (m_proxy fc) a b l (c_str b @ c_str a @ ''Callback'') v o' s7 = Ret ok s8 \<and>
       (if ok
        then r = Some (next_addr s) \<and> g_clients t = base_clients (g_clients s) @ [Some (next_addr s)] \<and>
          containers t (next_addr s) = Some (if (\<exists>g. f = Some g \<and> has_logger g) \<and> to_bool o'
            then fc\<lparr>callbackThread := Some (c_str b @ c_str a @ ''Callback'')\<rparr> else fc)
        else r = None \<and> g_clients t = base_clients (g_clients s) \<and> containers t (next_addr s) = None)))"
proof -
  have fresh: "Some (next_addr s) \<notin> set (base_clients (g_clients s))"
    using assms(2) by (auto simp: fmu_inv_def base_clients_def)
  have null: "fmi2FreeInstance u rt None t = Ret () t" by (simp add: fmi2FreeInstance_def getFmuContainer_def)
  from instantiate_cases [OF assms] have f: "f \<noteq> None" "fmu_inv t" by blast+
  from instantiate_cases [OF assms] obtain created skip key s5
    where o: "inst_opened u ios a b l f v o' s = Ret (created, next_addr s, skip, key) s5"
    and rest: "if created then \<exists>s7 fc ok s8. inst_started ios a f o' (next_addr s) skip key s5 = Ret () s7 \<and>
       containers s7 (next_addr s) = Some fc \<and>
       FmuProxy_fmi2Instantiate rt (m_proxy fc) a b l (c_str b @ c_str a @ ''Callback'') v o' s7 = Ret ok s8 \<and>
       remote_left (next_addr s) a b f o' fc (base_clients (g_clients s) @ [Some (next_addr s)]) ok r t
     else r = None \<and> g_clients t = base_clients (g_clients s) @ [Some (next_addr s)] \<and>
       containers t (next_addr s) \<noteq> None" by blast
  note left = rest [unfolded remote_left_last [OF fresh]]
  show ?thesis
  proof (intro conjI f, rule exI [of _ created], rule exI [of _ skip], rule exI [of _ key], rule exI [of _ s5],
      rule conjI [OF o], cases created)
  qed (use left null in \<open>simp_all only: if_True if_False simp_thms\<close>)
qed

theorem instantiate_outcomes_witness:
  "\<exists>t. fmi2Instantiate Linux (peer_runtime wire_ser wire_parse (always []) ends_cl) ex_os ''a'' ''g'' ''/r''
       (Some ex_callbacks) 0 0 ex_refusing = Ret None t \<and> fmu_inv t \<and> g_clients t = [None, Some 1]"
proof -
  let ?rt = "peer_runtime wire_ser wire_parse (always []) ends_cl"
  obtain t where t: "fmi2Instantiate Linux ?rt ex_os ''a'' ''g'' ''/r'' (Some ex_callbacks) 0 0 ex_refusing = Ret None t"
    and reg: "getFmuContainer (g_clients t) (Some 1) = Some 1"
    using ex_failed_instantiate by blast
  have "env_keeps_lib (rt_env ?rt)" by (simp add: peer_runtime_def turn_env_keeps_lib)
  moreover have "fmu_inv ex_refusing" by (simp add: fmu_inv_def ex_refusing_simps)
  ultimately show ?thesis
    using instantiate_outcomes [OF _ _ t] t reg
    by (auto simp: ex_refusing_simps base_clients_def getFmuContainer_Some split: if_splits)
qed

text \<open>
  All the functions that look a component up, on one that is not registered: nothing happens, no
  output is written, and the status is Fatal, but OK for \<open>fmi2SetupExperiment\<close>.
\<close>

definition unknown_component ::
  "unix \<Rightarrow> (('p, 'z) fmu_world_scheme) runtime \<Rightarrow> nat option \<Rightarrow> ('p, 'z) fmu_world_scheme \<Rightarrow> bool" where
  "unknown_component u rt c s \<longleftrightarrow>
     fmi2FreeInstance u rt c s = Ret () s \<and>
     (\<forall>td tol start sd stop. fmi2SetupExperiment rt c td tol start sd stop s = Ret fmi2OK s) \<and>
     fmi2EnterInitializationMode rt c s = Ret fmi2Fatal s \<and> fmi2ExitInitializationMode rt c s = Ret fmi2Fatal s \<and>
     fmi2Terminate rt c s = Ret fmi2Fatal s \<and> fmi2Reset rt c s = Ret fmi2Fatal s \<and>
     (\<forall>l n cs. fmi2SetDebugLogging rt c l n cs s = Ret fmi2Fatal s) \<and>
     (\<forall>x y n. fmi2DoStep rt c x y n s = Ret fmi2Fatal s) \<and>
     (\<forall>vr n v. fmi2GetReal rt c vr n v s = Ret (fmi2Fatal, v) s \<and> fmi2SetReal rt c vr n v s = Ret fmi2Fatal s) \<and>
     (\<forall>vr n v. fmi2GetInteger rt c vr n v s = Ret (fmi2Fatal, v) s \<and> fmi2SetInteger rt c vr n v s = Ret fmi2Fatal s) \<and>
     (\<forall>vr n v. fmi2GetBoolean rt c vr n v s = Ret (fmi2Fatal, v) s \<and> fmi2SetBoolean rt c vr n v s = Ret fmi2Fatal s) \<and>
     (\<forall>vr n v. fmi2GetString rt c vr n v s = Ret (fmi2Fatal, v) s \<and> fmi2SetString rt c vr n v s = Ret fmi2Fatal s) \<and>
     (\<forall>kd v. fmi2GetStatus rt c kd v s = Ret (fmi2Fatal, v) s) \<and>
     (\<forall>kd v. fmi2GetRealStatus rt c kd v s = Ret (fmi2Fatal, v) s) \<and>
     (\<forall>kd v. fmi2GetIntegerStatus rt c kd v s = Ret (fmi2Fatal, v) s) \<and>
     (\<forall>kd v. fmi2GetBooleanStatus rt c kd v s = Ret (fmi2Fatal, v) s) \<and>
     (\<forall>kd v. fmi2GetStringStatus rt c kd v s = Ret (fmi2Fatal, v) s) \<and>
     (\<forall>v. fmi2GetMaxStepsize rt c v s = Ret (fmi2Fatal, v) s)"

lemma unregistered_unknown:
  assumes "getFmuContainer (g_clients s) c = None"
  shows "unknown_component u rt c s"
  using assms
  by (simp add: unknown_component_def with_fmu_def fmi2FreeInstance_def fmi2SetupExperiment_def
      fmi2EnterInitializationMode_def fmi2ExitInitializationMode_def fmi2Terminate_def fmi2Reset_def
      fmi2SetDebugLogging_def fmi2DoStep_def fmi2GetReal_def fmi2SetReal_def fmi2GetInteger_def fmi2SetInteger_def
      fmi2GetBoolean_def fmi2SetBoolean_def fmi2GetString_def fmi2SetString_def fmi2GetStatus_def
      fmi2GetRealStatus_def fmi2GetIntegerStatus_def fmi2GetBooleanStatus_def fmi2GetStringStatus_def
      fmi2GetMaxStepsize_def)

text \<open>The functions that are not implemented use the component without looking it up.\<close>

definition unimplemented :: "(nat option \<Rightarrow> (fmi2Status, ('p, 'z) fmu_world_scheme) prog) list" where
  "unimplemented =
     [fmi2GetFMUstate, fmi2SetFMUstate, fmi2FreeFMUstate, fmi2SerializedFMUstateSize, fmi2SerializeFMUstate,
      fmi2DeSerializeFMUstate, fmi2GetDirectionalDerivative, fmi2SetRealInputDerivatives,
      fmi2GetRealOutputDerivatives, fmi2CancelStep]"

lemma unimplemented_freed:
  assumes "containers s k = None"
  shows "\<forall>f \<in> set unimplemented. f (Some k) s = Fault BadHandle"
  using assms
  by (simp add: unimplemented_def notimplemented_def get_container_def fmi2GetFMUstate_def fmi2SetFMUstate_def
      fmi2FreeFMUstate_def fmi2SerializedFMUstateSize_def fmi2SerializeFMUstate_def fmi2DeSerializeFMUstate_def
      fmi2GetDirectionalDerivative_def fmi2SetRealInputDerivatives_def fmi2GetRealOutputDerivatives_def
      fmi2CancelStep_def)

text \<open>
  C34: After a registered component was freed, each of the 22 functions that look a component up
  (\<open>unknown_component\<close> lists them) returns without touching the state or its outputs: Fatal, but OK
  for \<open>fmi2SetupExperiment\<close>, and a second free does nothing. The ten functions that are not
  implemented do not look it up and use the destroyed container, a fault. The other instances are
  as they were.
\<close>

theorem freed_component:
  assumes "env_keeps_lib (rt_env rt)" and "fmu_inv s"
    and "getFmuContainer (g_clients s) (Some k) = Some k" and "fmi2FreeInstance u rt (Some k) s = Ret () t"
  shows "unknown_component u rt (Some k) t \<and> (\<forall>f \<in> set unimplemented. f (Some k) t = Fault BadHandle) \<and>
    (\<forall>j. j \<noteq> k \<longrightarrow> containers t j = containers s j \<and>
       getFmuContainer (g_clients t) (Some j) = getFmuContainer (g_clients s) (Some j))"
proof -
  have d: "distinct (g_clients s)" using assms(2) by (simp add: fmu_inv_def)
  from free_registered [OF assms(1,3,4)] have t: "g_clients t = remove1 (Some k) (g_clients s)"
    "containers t = (containers s)(k := None)" by auto
  with d have "getFmuContainer (g_clients t) (Some k) = None"
    by (simp add: getFmuContainer_def)
  then have "unknown_component u rt (Some k) t" by (rule unregistered_unknown)
  with t d show ?thesis using unimplemented_freed [of t k] by (simp add: getFmuContainer_def)
qed

theorem freed_component_witness:
  "\<exists>t. fmi2FreeInstance Linux (peer_runtime wire_ser wire_parse (always []) ends_cl) (Some 0) (ex_world ()) = Ret () t \<and>
     fmi2DoStep (peer_runtime wire_ser wire_parse (always []) ends_cl) (Some 0) 0 1 0 t = Ret fmi2Fatal t \<and>
     fmi2GetFMUstate (Some 0) t = Fault BadHandle"
proof -
  let ?rt = "peer_runtime wire_ser wire_parse (always []) ends_cl"
  obtain t where t: "fmi2FreeInstance Linux ?rt (Some 0) (ex_world ()) = Ret () t"
    using ex_free by blast
  have "env_keeps_lib (rt_env ?rt)" by (simp add: peer_runtime_def turn_env_keeps_lib)
  from freed_component [OF this ex_world_inv ex_registered t] t show ?thesis
    by (auto simp: unknown_component_def unimplemented_def)
qed

text \<open>
  Without callback functions \<open>fmi2Instantiate\<close> never returns, whatever the system does: the
  logging macro allows for a null pointer, the container's constructor dereferences it.
\<close>

theorem instantiate_needs_callbacks:
  "fmi2Instantiate u rt ios a b l None v o' s \<noteq> Ret r t"
  by (auto simp: fmi2Instantiate_def andThen_Ret_iff inst_container_def FmuContainer_new_def Let_def)

text \<open>
  C33: A log message of the remote side reaches the simulator: the callback thread passes its text,
  category and status to the logger under the instance's name and environment, once, and answers
  with an empty log message, after which the sender may go on.
\<close>

theorem log_message_delivered:
  assumes "protobuf_codec (rt_ser rt) (rt_parse rt)" and "containers s k = Some fc" and "active fc"
    and "m_hAvail client = Sig a" and "m_hSignal client = Sig g" and "a \<noteq> g" and "m_pBuf client = Some p"
    and "0 < sem_val s a" and "sem_val s g = 0" and "0 < shm_size (shm_objs s p)"
    and "cmd (message (shm_mem (shm_objs s p))) = cmd_code cmd_fmi2Log"
    and "payload (message (shm_mem (shm_objs s p))) = Some (rt_ser rt (Fmi2LogReply v st cat))"
    and "utf8 v" and "utf8 cat"
  shows "\<exists>t. callback_pass rt k client s = Ret True t \<and>
    logged t = logged s @ [\<lparr>log_environment = componentEnvironment fc, log_instance = c_name fc,
      log_status = convert_log_status st, log_category = c_str cat, log_format = c_str v, log_args = []\<rparr>] \<and>
    sem_val t = (sem_val s)(a := sem_val s a - 1, g := 1) \<and>
    cmd (message (shm_mem (shm_objs t p))) = cmd_code cmd_fmi2Log \<and>
    payload (message (shm_mem (shm_objs t p))) = Some [] \<and> lib t = lib s"
proof -
  have parse: "rt_parse rt K_LogReply (rt_ser rt (Fmi2LogReply v st cat)) = Fmi2LogReply v st cat"
    by (rule protobuf_codec.parse_ser_kind [OF assms(1)]) (simp_all add: pb_utf8_def assms(13,14))
  have ser: "rt_ser rt Fmi2Empty = []"
    using protobuf_codec.ser_default [OF assms(1), of K_Empty] by simp
  let ?m0 = "SharedFmiMessage_zero\<lparr>cmd := cmd_code cmd_fmi2Log\<rparr>"
  obtain rep where rep: "with_payload ?m0 [] = Some rep" using with_payload_fits [of ?m0 "[]"] by auto
  have r: "cmd rep = cmd_code cmd_fmi2Log" "payload rep = Some []"
    using with_payload_cmd [OF rep] payload_with_payload [OF rep] by simp_all
  show ?thesis
    supply cmd_code.simps [simp del]
    using assms(2-12) r
    by (simp add: callback_pass_def get_container_def getMessage_def signalWait_available load_msg_def sem_take_def
        parse ser rep call_logger_def sendReply_def store_msg_def signalPost_Sig SEM_VALUE_MAX_def)
qed

theorem log_message_delivered_witness:
  "\<exists>t. callback_pass (peer_runtime wire_ser wire_parse (always []) ends_cl) 0 ends_cl ex_log_world = Ret True t \<and>
     logged t = [\<lparr>log_environment = 7, log_instance = ''inst'', log_status = fmi2Warning,
       log_category = ''c'', log_format = ''hi'', log_args = []\<rparr>]"
proof -
  let ?rt = "peer_runtime wire_ser wire_parse (always []) ends_cl"
  have codec: "protobuf_codec (rt_ser ?rt) (rt_parse ?rt)" by (simp add: peer_runtime_def wire.protobuf_codec_axioms)
  have "utf8 ''hi''" "utf8 ''c''" by (simp_all add: between_def)
  then show ?thesis
    using log_message_delivered [OF codec, of ex_log_world 0 ex_container ends_cl 0 1 0 "''hi''" 1 "''c''"]
      ex_log_message
    by (auto simp: ex_log_world_def ex_container_def ends_cl_def peer_runtime_def convert_log_status_def Status_defs c_str_def)
qed

text \<open>
  From the simulator's side: on a registered instance whose server is connected to the test
  driver, \<open>fmi2SetReal\<close> and then \<open>fmi2GetReal\<close> of the same references return OK and the values set,
  through registry, proxy, protobuf, shared memory and the peer's own handler.
\<close>

theorem fmi_set_get_real:
  fixes s :: "(test_driver, 'z) fmu_world_scheme"
  assumes "protobuf_codec ser parse" and "getFmuContainer (g_clients s) c = Some k" and "containers s k = Some fc"
    and "at_rest (proxy_server (m_proxy fc)) cl s" and "td_wf (peer s)"
    and "distinct ids" and "td_ids_ok ids" and "length vs = length ids" and "length out = length ids"
    and "length (ser (Fmi2SetRealRequest ids vs)) \<le> 10000"
    and "length (ser (Fmi2GetRequest ids (of_nat (length ids)))) \<le> 10000"
    and "length (ser (Fmi2GetRealReply vs)) \<le> 10000"
  shows "\<exists>s1 s2. fmi2SetReal (td_runtime ser parse cl) c ids (length ids) vs s = Ret fmi2OK s1 \<and>
    fmi2GetReal (td_runtime ser parse cl) c ids (length ids) out s1 = Ret (fmi2OK, vs) s2"
proof -
  let ?rt = "td_runtime ser parse cl"
  from proxy_set_get_real [OF assms(1,4-12)] obtain s1 s2 where
    1: "FmuProxy_fmi2SetReal ?rt (m_proxy fc) ids (length ids) vs s = Ret px_OK s1" and
    2: "FmuProxy_fmi2GetReal ?rt (m_proxy fc) ids (length ids) out s1 = Ret (px_OK, vs) s2" by blast
  have set: "fmi2SetReal ?rt c ids (length ids) vs s = Ret fmi2OK s1"
    by (simp add: fmi2SetReal_def with_fmu_registered [OF assms(2,3)] converted_def 1)
  have "env_keeps_lib (rt_env ?rt)" by (simp add: td_runtime_def turn_env_keeps_lib)
  from keepsD [OF forwarded_keeps_lib(3) [OF this] set] have "lib s1 = lib s" .
  then have reg: "getFmuContainer (g_clients s1) c = Some k" "containers s1 k = Some fc"
    using assms(2,3) by (simp_all add: lib_def)
  have "fmi2GetReal ?rt c ids (length ids) out s1 = Ret (fmi2OK, vs) s2"
    by (simp add: fmi2GetReal_def with_fmu_registered [OF reg] converted_with_def 2)
  with set show ?thesis by blast
qed

theorem fmi_set_get_real_witness:
  "\<exists>s1 s2. fmi2SetReal (td_runtime wire_ser wire_parse ends_cl) (Some 0) [3, 5] 2 [7, 8]
       (ex_world test_driver_init) = Ret fmi2OK s1 \<and>
     fmi2GetReal (td_runtime wire_ser wire_parse ends_cl) (Some 0) [3, 5] 2 [0, 0] s1 = Ret (fmi2OK, [7, 8]) s2"
proof -
  have "length (wire_ser (Fmi2SetRealRequest [3, 5] [7, 8])) \<le> 10000"
    and "length (wire_ser (Fmi2GetRequest [3, 5] (of_nat 2))) \<le> 10000"
    and "length (wire_ser (Fmi2GetRealReply [7, 8])) \<le> 10000"
    by (simp_all add: wire_lengths)
  moreover have "containers (ex_world test_driver_init) 0 = Some ex_container" by simp
  ultimately show ?thesis
    using fmi_set_get_real [OF wire.protobuf_codec_axioms ex_registered _ ex_server_at_rest,
        of test_driver_init "[3, 5]" "[7, 8]" "[0, 0]"]
    by (simp add: td_ids_ok_def TD_SIZE_def flip: numeral_2_eq_2)
qed


section \<open>The callback thread's first attempt\<close>

lemma get_container_cases:
  "(\<exists>fc. containers s k = Some fc \<and> get_container k s = Ret fc s) \<or> get_container k s = Fault BadHandle"
  by (cases "containers s k") (simp_all add: get_container_def need_def ret_def fail_def)

lemma callback_connect_lost:
  assumes "\<And>d t. os_wf t \<Longrightarrow> shm_names t (getMappedName u SHARED_MEM_BASE_NAME key) = None \<Longrightarrow>
      os_wf (rt_env rt d t) \<and> shm_names (rt_env rt d t) (getMappedName u SHARED_MEM_BASE_NAME key) = None"
  shows "os_wf s \<Longrightarrow> shm_names s (getMappedName u SHARED_MEM_BASE_NAME key) = None \<Longrightarrow>
    callback_connect u rt k key n s \<noteq> Ret (Some cl, b) t"
proof (induction n arbitrary: s)
  case 0
  then show ?case by (simp add: ret_def)
next
  case (Suc n)
  let ?n = "getMappedName u SHARED_MEM_BASE_NAME key"
  show ?case
  proof (cases "\<exists>fc. containers s k = Some fc \<and> get_container k s = Ret fc s \<and> active fc")
    case False
    then show ?thesis using get_container_cases [of s k] by (auto simp: andThen_def ret_def)
  next
    case True
    then obtain fc where fc: "get_container k s = Ret fc s" "active fc" by blast
    obtain ok c s1 where c: "IpcClient_connect u (IpcClient_new (c_id fc) key) s = (ok, c, s1)"
      by (metis prod_cases3)
    have "\<not> ok"
      using connect_iff [OF Suc.prems(1), of u "IpcClient_new (c_id fc) key"] c Suc.prems(2)
      by (simp add: connectable_def)
    moreover define s2 where "s2 = shm_unlink ?n (close_fd (m_hMapFile c) s1)"
    moreover have d: "IpcClient_delete u c s1 = Ret () s2"
      using delete_connected_client [OF Suc.prems(1) c] by (simp add: s2_def)
    moreover have "os_wf s2" and "shm_names s2 ?n = None"
      using connect_wf [OF c Suc.prems(1)] by (simp_all add: s2_def shm_unlink_def os_wf_close_fd)
        (simp_all flip: shm_unlink_def)
    ultimately show ?thesis
      using fc c Suc.IH [of "rt_env rt None s2"] assms [of s2 None] by (simp add: andThen_def)
  qed
qed

text \<open>
  C32: The callback thread's retry loop retries in vain. As long as no one creates the region anew,
  the thread ever connects, in any number of attempts, exactly when the peer's region and semaphores
  were complete at the first: deleting the client that failed has removed the region's name.
\<close>

theorem callback_first_attempt_decides:
  fixes s :: "('p, 'z) fmu_world_scheme"
  assumes "os_wf s" and "containers s k = Some fc" and "active fc"
    and "\<And>d t. os_wf t \<Longrightarrow> shm_names t (getMappedName u SHARED_MEM_BASE_NAME key) = None \<Longrightarrow>
      os_wf (rt_env rt d t) \<and> shm_names (rt_env rt d t) (getMappedName u SHARED_MEM_BASE_NAME key) = None"
  shows "(\<exists>cl b t. callback_connect u rt k key n s = Ret (Some cl, b) t) \<longleftrightarrow> 0 < n \<and> connectable u key s"
proof (cases n)
  case 0
  then show ?thesis by (simp add: ret_def)
next
  case (Suc m)
  let ?n = "getMappedName u SHARED_MEM_BASE_NAME key"
  obtain ok c s1 where c: "IpcClient_connect u (IpcClient_new (c_id fc) key) s = (ok, c, s1)"
    by (metis prod_cases3)
  have ok: "ok \<longleftrightarrow> connectable u key s"
    using connect_iff [OF assms(1), of u "IpcClient_new (c_id fc) key"] c by simp
  have fc: "get_container k s = Ret fc s"
    using assms(2) by (simp add: get_container_def need_def ret_def)
  define s2 where "s2 = shm_unlink ?n (close_fd (m_hMapFile c) s1)"
  have d: "IpcClient_delete u c s1 = Ret () s2"
    using delete_connected_client [OF assms(1) c] by (simp add: s2_def)
  have "os_wf s2" and "shm_names s2 ?n = None"
    using connect_wf [OF c assms(1)] by (simp_all add: s2_def) (simp add: shm_unlink_def)
  then have "callback_connect u rt k key m (rt_env rt None s2) \<noteq> Ret (Some cl, b) t" for cl b t
    using callback_connect_lost [of u key rt] assms(4) by blast
  then show ?thesis
    using fc c ok d Suc assms(3) by (cases ok) (auto simp: andThen_def)
qed

text \<open>The region is there, the semaphores are not yet.\<close>

definition ex_half_created :: "unit fmu_world" where
  "ex_half_created = fmu_ext (Some ex_container)
     (os.extend (os_init\<lparr>shm_names := [''/Localcb'' \<mapsto> 0], next_obj := 1\<rparr>) \<lparr>peer = ()\<rparr>)"

theorem callback_first_attempt_decides_witness:
  "\<not> (\<exists>cl b t. callback_connect Linux \<lparr>rt_ser = wire_ser, rt_parse = wire_parse, rt_env = (\<lambda>_ s. s)\<rparr>
        0 ''cb'' 5 ex_half_created = Ret (Some cl, b) t)"
proof -
  have "os_wf ex_half_created" "containers ex_half_created 0 = Some ex_container"
      "\<not> connectable Linux ''cb'' ex_half_created"
    by (auto simp: ex_half_created_def fmu_ext_def world.defs os.defs os_wf_def connectable_def connect_names_def
        os_init_def)
  moreover have "active ex_container" by (simp add: ex_container_def)
  ultimately show ?thesis
    using callback_first_attempt_decides [of ex_half_created 0 ex_container Linux "''cb''"
      "\<lparr>rt_ser = wire_ser, rt_parse = wire_parse, rt_env = (\<lambda>_ s. s)\<rparr>" 5] by simp
qed

end
