(* ===== verification/InstanceThreads.thy ===== *)
theory InstanceThreads
  imports FmuProperties
begin

text \<open>
  One instance and the two threads that use its container: the callback thread that was started for
  it (\<open>callbackThreadFunc\<close>) and the thread that frees it (\<open>fmi2FreeInstance\<close>), both in
  libshmfmu/fmu.cpp, interleaved between their accesses to the container. \<open>Fmu\<close> has each of the two
  as one sequential program; here it is shown that the thread's pieces compose to that program, that
  the container outlives the thread, and that the join in \<open>fmi2FreeInstance\<close> ends.
\<close>

section \<open>The callback thread in pieces\<close>

text \<open>
  Where the thread stands. Between two values of \<open>cb_pc\<close> it reads the container at most once, so
  that the other thread may run between any two reads. \<open>CbFault\<close> is where an undefined access ends.
\<close>

datatype cb_pc = CbStart | CbConnect | CbAttempt | CbRetry IpcClient | CbLoop IpcClient
  | CbReceive IpcClient | CbMessage IpcClient nat | CbReply IpcClient | CbClose IpcClient
  | CbEnded | CbFault fault

definition cb_ended :: "cb_pc \<Rightarrow> bool" where
  "cb_ended pc \<longleftrightarrow> (case pc of CbEnded \<Rightarrow> True | CbFault _ \<Rightarrow> True | _ \<Rightarrow> False)"

text \<open>
  A message: a log message goes to the simulator's logger, every other message is passed over. And
  the reply to a log message.
\<close>

definition cb_deliver ::
  "nat \<Rightarrow> IpcClient \<Rightarrow> pb_msg \<Rightarrow> (cb_pc, ('p, 'z) fmu_world_scheme) prog"
where
  "cb_deliver k cl r =
     (case r of
        Fmi2LogReply v st category \<Rightarrow>
          andThen (get_container k) (\<lambda>container.
          andThen (call_logger \<lparr>log_environment = componentEnvironment container,
             log_instance = c_name container, log_status = convert_log_status st,
             log_category = c_str category, log_format = c_str v, log_args = []\<rparr>) (\<lambda>_.
          ret (CbReply cl)))
      | _ \<Rightarrow> fail BadHandle)"

definition cb_log ::
  "(('p, 'z) fmu_world_scheme) runtime \<Rightarrow> nat \<Rightarrow> IpcClient \<Rightarrow> nat \<Rightarrow> (cb_pc, ('p, 'z) fmu_world_scheme) prog"
where
  "cb_log rt k cl p =
     andThen (load_msg p) (\<lambda>msg.
       if cmd msg = cmd_code cmd_fmi2Log
       then andThen (need OutOfBounds (payload msg)) (\<lambda>bs. cb_deliver k cl (rt_parse rt K_LogReply bs))
       else ret (CbLoop cl))"

definition cb_reply ::
  "(('p, 'z) fmu_world_scheme) runtime \<Rightarrow> IpcClient \<Rightarrow> (cb_pc, ('p, 'z) fmu_world_scheme) prog"
where
  "cb_reply rt cl =
     andThen (need OutOfBounds (with_payload (SharedFmiMessage_zero\<lparr>cmd := cmd_code cmd_fmi2Log\<rparr>)
                (rt_ser rt Fmi2Empty))) (\<lambda>msgReply.
     andThen (sendReply cl msgReply) (\<lambda>_. ret (CbLoop cl)))"

text \<open>The thread's program: the code from one position to the next.\<close>

fun cb_code ::
  "unix \<Rightarrow> (('p, 'z) fmu_world_scheme) runtime \<Rightarrow> nat \<Rightarrow> string \<Rightarrow> cb_pc \<Rightarrow> (cb_pc, ('p, 'z) fmu_world_scheme) prog"
where
  "cb_code u rt k key CbStart =
     andThen (get_container k) (\<lambda>container.
       ret (if \<not> has_logger (m_functions container) then CbEnded else CbConnect))"
| "cb_code u rt k key CbConnect =
     andThen (get_container k) (\<lambda>container. ret (if active container then CbAttempt else CbEnded))"
| "cb_code u rt k key CbAttempt =
     andThen (get_container k) (\<lambda>container s.
       case IpcClient_connect u (IpcClient_new (c_id container) key) s of
         (success, client, s) \<Rightarrow> Ret (if success then CbLoop client else CbRetry client) s)"
| "cb_code u rt k key (CbRetry client) =
     andThen (IpcClient_delete u client) (\<lambda>_ s. Ret CbConnect (rt_env rt None s))"
| "cb_code u rt k key (CbLoop client) =
     andThen (get_container k) (\<lambda>container.
       ret (if active container then CbReceive client else CbClose client))"
| "cb_code u rt k key (CbReceive client) =
     andThen (getMessage (rt_env rt) client 10) (\<lambda>msg.
       ret (case msg of None \<Rightarrow> CbLoop client | Some p \<Rightarrow> CbMessage client p))"
| "cb_code u rt k key (CbMessage client p) = cb_log rt k client p"
| "cb_code u rt k key (CbReply client) = cb_reply rt client"
| "cb_code u rt k key (CbClose client) = andThen (IpcClient_delete u client) (\<lambda>_. ret CbEnded)"
| "cb_code u rt k key CbEnded = ret CbEnded"
| "cb_code u rt k key (CbFault e) = fail e"

text \<open>The thread on its own for \<open>m\<close> pieces.\<close>

fun cb_alone ::
  "unix \<Rightarrow> (('p, 'z) fmu_world_scheme) runtime \<Rightarrow> nat \<Rightarrow> string \<Rightarrow> nat \<Rightarrow> cb_pc \<Rightarrow>
   (cb_pc, ('p, 'z) fmu_world_scheme) prog"
where
  "cb_alone u rt k key 0 pc = ret pc"
| "cb_alone u rt k key (Suc m) pc = andThen (cb_code u rt k key pc) (cb_alone u rt k key m)"

section \<open>Freeing in pieces\<close>

datatype mn_pc = MnFree | MnClear | MnJoin | MnErase | MnDelete | MnDone | MnFault fault

text \<open>
  \<open>fmi2FreeInstance\<close> on a registered component. \<open>join\<close> is the one piece that waits for the other
  thread; without a thread there is nothing to wait for. A thread that faults takes the process
  with it, and a join on it does not return.
\<close>

fun mn_code ::
  "unix \<Rightarrow> (('p, 'z) fmu_world_scheme) runtime \<Rightarrow> nat \<Rightarrow> cb_pc \<Rightarrow> mn_pc \<Rightarrow> (mn_pc, ('p, 'z) fmu_world_scheme) prog"
where
  "mn_code u rt k cb MnFree =
     andThen (get_container k) (\<lambda>fmu.
     andThen (FmuProxy_fmi2FreeInstance rt (m_proxy fmu)) (\<lambda>_. ret MnClear))"
| "mn_code u rt k cb MnClear =
     andThen (get_container k) (\<lambda>fmu.
     andThen (set_container k (fmu\<lparr>active := False\<rparr>)) (\<lambda>_. ret MnJoin))"
| "mn_code u rt k cb MnJoin =
     andThen (get_container k) (\<lambda>fmu s.
       if callbackThread fmu = None \<or> cb = CbEnded then Ret MnErase s else Blocks)"
| "mn_code u rt k cb MnErase = (\<lambda>s. Ret MnDelete (s\<lparr>g_clients := remove1 (Some k) (g_clients s)\<rparr>))"
| "mn_code u rt k cb MnDelete = andThen (FmuContainer_delete u k) (\<lambda>_. ret MnDone)"
| "mn_code u rt k cb MnDone = ret MnDone"
| "mn_code u rt k cb (MnFault e) = fail e"

section \<open>Both threads\<close>

record 's threads =
  cb_at :: cb_pc
  mn_at :: mn_pc
  shared :: 's

datatype actor = Callback | Freeing | Others

text \<open>
  What the rest of the process may do meanwhile: anything but touch this component.
\<close>

definition spares :: "nat \<Rightarrow> ('p, 'z) fmu_world_scheme \<Rightarrow> ('p, 'z) fmu_world_scheme \<Rightarrow> bool" where
  "spares k s t \<longleftrightarrow> containers t k = containers s k \<and> (Some k \<in> set (g_clients t) \<longleftrightarrow> Some k \<in> set (g_clients s))"

inductive thr_step ::
  "unix \<Rightarrow> (('p, 'z) fmu_world_scheme) runtime \<Rightarrow> nat \<Rightarrow> string \<Rightarrow> (('p, 'z) fmu_world_scheme) threads \<Rightarrow>
   actor \<Rightarrow> (('p, 'z) fmu_world_scheme) threads \<Rightarrow> bool"
  for u rt k key
where
  callback: "\<not> cb_ended (cb_at c) \<Longrightarrow> cb_code u rt k key (cb_at c) (shared c) = Ret pc s \<Longrightarrow>
     thr_step u rt k key c Callback (c\<lparr>cb_at := pc, shared := s\<rparr>)"
| callback_fault: "\<not> cb_ended (cb_at c) \<Longrightarrow> cb_code u rt k key (cb_at c) (shared c) = Fault e \<Longrightarrow>
     thr_step u rt k key c Callback (c\<lparr>cb_at := CbFault e\<rparr>)"
| freeing: "mn_at c \<noteq> MnDone \<Longrightarrow> mn_code u rt k (cb_at c) (mn_at c) (shared c) = Ret pc s \<Longrightarrow>
     thr_step u rt k key c Freeing (c\<lparr>mn_at := pc, shared := s\<rparr>)"
| freeing_fault: "(\<nexists>e. mn_at c = MnFault e) \<Longrightarrow> mn_code u rt k (cb_at c) (mn_at c) (shared c) = Fault e \<Longrightarrow>
     thr_step u rt k key c Freeing (c\<lparr>mn_at := MnFault e\<rparr>)"
| others: "spares k (shared c) s \<Longrightarrow> thr_step u rt k key c Others (c\<lparr>shared := s\<rparr>)"

inductive_cases thr_stepE: "thr_step u rt k key c a d"

text \<open>A run, with the list of the threads that moved.\<close>

inductive thr_run ::
  "unix \<Rightarrow> (('p, 'z) fmu_world_scheme) runtime \<Rightarrow> nat \<Rightarrow> string \<Rightarrow> (('p, 'z) fmu_world_scheme) threads \<Rightarrow>
   actor list \<Rightarrow> (('p, 'z) fmu_world_scheme) threads \<Rightarrow> bool"
  for u rt k key
where
  thr_nil: "thr_run u rt k key c [] c"
| thr_snoc: "thr_run u rt k key c as d \<Longrightarrow> thr_step u rt k key d a e \<Longrightarrow> thr_run u rt k key c (as @ [a]) e"

text \<open>
  The start: \<open>fmi2Instantiate\<close> has created the thread of a registered, active component, and
  \<open>fmi2FreeInstance\<close> has looked the component up.
\<close>

definition thr_start :: "nat \<Rightarrow> string \<Rightarrow> (('p, 'z) fmu_world_scheme) threads \<Rightarrow> bool" where
  "thr_start k key c \<longleftrightarrow> cb_at c = CbStart \<and> mn_at c = MnFree \<and>
     (\<exists>fc. containers (shared c) k = Some fc \<and> active fc \<and> callbackThread fc = Some key)"

section \<open>What the pieces leave alone\<close>

lemma keeps_client_delete [keeps_rules]: "keeps lib (IpcClient_delete u cl)"
  by (auto simp: keeps_def IpcClient_delete_def IpcBase_delete_def Let_def signalClose_def unmap_def
      shm_unlink_def close_fd_def split: option.splits if_splits)

lemma keeps_get_container [keeps_rules]: "keeps f (get_container k)"
  by (simp add: keeps_def get_container_Ret)

lemma lib_connectD: "IpcClient_connect u cl s = (ok, cl', s') \<Longrightarrow> lib s' = lib s"
  by (auto simp: IpcClient_connect_def Let_def dest!: lib_openD lib_mapD lib_signalD
      split: prod.splits if_splits)

lemma lib_connect [simp]: "lib (snd (snd (IpcClient_connect u cl s))) = lib s"
  using lib_connectD [of u cl s] by (metis prod.collapse)

lemma keeps_cb_deliver [keeps_rules]: "keeps lib (cb_deliver k cl r)"
  by (cases r) (simp_all add: cb_deliver_def keeps_rules)

lemma keeps_cb_log [keeps_rules]: "keeps lib (cb_log rt k cl p)"
  unfolding cb_log_def by (intro keeps_rules)

lemma keeps_cb_code:
  assumes "env_keeps_lib (rt_env rt)"
  shows "keeps lib (cb_code u rt k key pc)"
proof (cases pc)
  case CbAttempt
  then show ?thesis
    by (auto simp: keeps_def andThen_Ret_iff get_container_Ret case_prod_beta)
next
  case (CbRetry cl)
  have "keeps lib (\<lambda>s. Ret CbConnect (rt_env rt None s))"
    using assms by (auto simp: keeps_def env_keeps_lib_def)
  then show ?thesis using CbRetry by (simp add: keeps_rules)
qed (auto simp: cb_reply_def intro!: keeps_rules keeps_getMessage [OF assms])

text \<open>No piece waits for ever: the thread only ever waits with a timeout.\<close>

lemma timed_wait_returns: "signalWait env h (Suc d) s \<noteq> Blocks"
  by (cases h) (simp_all add: signalWait_def Let_def)

lemma andThen_Blocks_iff:
  "andThen m k s = Blocks \<longleftrightarrow> m s = Blocks \<or> (\<exists>x s'. m s = Ret x s' \<and> k x s' = Blocks)"
  by (simp add: andThen_def split: outcome.splits)

lemma need_not_Blocks [simp]: "need e v s \<noteq> Blocks"
  by (cases v) simp_all

lemma client_not_Blocks [simp]:
  "load_msg p s \<noteq> Blocks" "call_logger e t \<noteq> Blocks" "sendReply cl m s \<noteq> Blocks" "IpcClient_delete u cl s \<noteq> Blocks"
  "get_container k t \<noteq> Blocks"
proof -
  show "load_msg p s \<noteq> Blocks" "call_logger e t \<noteq> Blocks" "get_container k t \<noteq> Blocks"
    by (simp_all add: load_msg_def call_logger_def get_container_def)
  show "IpcClient_delete u cl s \<noteq> Blocks"
    by (simp add: IpcClient_delete_def IpcBase_delete_def Let_def split: option.split)
  have "sem_post h s \<noteq> Blocks" for h and s :: "'a os_scheme" by (cases h) simp_all
  then show "sendReply cl m s \<noteq> Blocks"
    by (simp add: sendReply_def andThen_Blocks_iff signalPost_def store_msg_def)
qed

lemma cb_deliver_not_Blocks [simp]: "cb_deliver k cl r s \<noteq> Blocks"
  by (cases r) (simp_all add: cb_deliver_def andThen_Blocks_iff)

lemma cb_log_not_Blocks: "cb_log rt k cl p s \<noteq> Blocks"
  by (simp add: cb_log_def andThen_Blocks_iff)

lemma cb_code_not_Blocks: "cb_code u rt k key pc s \<noteq> Blocks"
proof (cases pc)
  case (CbReceive cl)
  have "signalWait (rt_env rt) (m_hAvail cl) 10 s \<noteq> Blocks"
    using timed_wait_returns [of _ _ 9] by (simp del: One_nat_def)
  with CbReceive show ?thesis by (auto simp: andThen_Blocks_iff getMessage_def)
qed (auto simp: andThen_Blocks_iff cb_log_not_Blocks cb_reply_def split: prod.splits)

section \<open>The invariant\<close>

text \<open>
  Until the container is destroyed it is there and names its thread; from the join on it is not
  active; and what comes after the join happens when the thread has ended.
\<close>

definition thr_inv :: "nat \<Rightarrow> string \<Rightarrow> (('p, 'z) fmu_world_scheme) threads \<Rightarrow> bool" where
  "thr_inv k key c \<longleftrightarrow>
     (mn_at c \<noteq> MnDone \<longrightarrow> (\<exists>fc. containers (shared c) k = Some fc \<and> callbackThread fc = Some key \<and>
        (mn_at c \<in> {MnJoin, MnErase, MnDelete} \<longrightarrow> \<not> active fc))) \<and>
     (mn_at c \<in> {MnErase, MnDelete, MnDone} \<longrightarrow> cb_at c = CbEnded) \<and>
     (mn_at c = MnDone \<longrightarrow> containers (shared c) k = None)"

lemma thr_start_inv: "thr_start k key c \<Longrightarrow> thr_inv k key c"
  by (auto simp: thr_start_def thr_inv_def)

lemma lib_containers: "lib t = lib s \<Longrightarrow> containers t = containers s"
  by (simp add: lib_def)

lemma mn_code_inv:
  assumes env: "env_keeps_lib (rt_env rt)" and inv: "thr_inv k key c" and pc: "mn_at c \<noteq> MnDone"
    and run: "mn_code u rt k (cb_at c) (mn_at c) (shared c) = Ret pc s"
  shows "thr_inv k key (c\<lparr>mn_at := pc, shared := s\<rparr>)"
proof -
  from inv pc obtain fc where fc: "containers (shared c) k = Some fc" "callbackThread fc = Some key"
    by (auto simp: thr_inv_def)
  show ?thesis
  proof (cases "mn_at c")
    case MnFree
    then have "FmuProxy_fmi2FreeInstance rt (m_proxy fc) (shared c) = Ret () s" and "pc = MnClear"
      using run fc by (auto simp: andThen_Ret_iff get_container_Ret)
    with keepsD [OF keeps_free [OF env] this(1)] fc show ?thesis
      by (auto simp: thr_inv_def dest: lib_containers)
  next
    case MnDelete
    then obtain s1 where "FmuProxy_delete u (m_proxy fc) (shared c) = Ret () s1" and "pc = MnDone"
      and "s = s1\<lparr>containers := (containers s1)(k := None)\<rparr>"
      using run fc by (auto simp: FmuContainer_delete_def andThen_Ret_iff get_container_Ret)
    with inv MnDelete show ?thesis by (simp add: thr_inv_def)
  next
    case MnClear
    then have "s = (shared c)\<lparr>containers := (containers (shared c))(k \<mapsto> fc\<lparr>active := False\<rparr>)\<rparr>" and "pc = MnJoin"
      using run fc by (auto simp: get_container_def set_container_def)
    with fc show ?thesis by (simp add: thr_inv_def)
  next
    case MnJoin
    then have "s = shared c" and "pc = MnErase" and "cb_at c = CbEnded"
      using run fc by (auto simp: get_container_def split: if_splits)
    with inv MnJoin show ?thesis by (simp add: thr_inv_def)
  next
    case MnErase
    with inv run show ?thesis by (auto simp: thr_inv_def)
  qed (use run pc in simp_all)
qed

lemma thr_step_inv:
  assumes "env_keeps_lib (rt_env rt)" and "thr_step u rt k key c a d" and "thr_inv k key c"
  shows "thr_inv k key d"
  using assms(2,3)
proof cases
  case (callback pc s)
  have "lib s = lib (shared c)" by (rule keepsD [OF keeps_cb_code [OF assms(1)] callback(4)])
  then have "containers s = containers (shared c)" by (rule lib_containers)
  with callback assms(3) show ?thesis by (auto simp: thr_inv_def cb_ended_def)
next
  case (freeing pc s)
  with mn_code_inv [OF assms(1,3)] show ?thesis by simp
qed (auto simp: thr_inv_def cb_ended_def spares_def)

lemma thr_run_inv:
  assumes "env_keeps_lib (rt_env rt)" and "thr_run u rt k key c as d" and "thr_inv k key c"
  shows "thr_inv k key d"
  using assms(2,3) by induction (auto intro: thr_step_inv [OF assms(1)])

section \<open>After the flag is cleared\<close>

text \<open>How many pieces the thread has left when it finds the instance inactive.\<close>

fun cb_rank :: "cb_pc \<Rightarrow> nat" where
  "cb_rank CbStart = 2"
| "cb_rank CbConnect = 1"
| "cb_rank CbAttempt = 3"
| "cb_rank (CbRetry cl) = 2"
| "cb_rank (CbLoop cl) = 2"
| "cb_rank (CbReceive cl) = 5"
| "cb_rank (CbMessage cl p) = 4"
| "cb_rank (CbReply cl) = 3"
| "cb_rank (CbClose cl) = 1"
| "cb_rank CbEnded = 0"
| "cb_rank (CbFault e) = 0"

lemma cb_rank_le: "cb_rank pc \<le> 5"
  by (cases pc) simp_all

lemma cb_deliver_Ret: "cb_deliver k cl r s = Ret pc t \<Longrightarrow> pc = CbReply cl"
  by (cases r) (auto simp: cb_deliver_def andThen_Ret_iff)

lemma cb_log_Ret: "cb_log rt k cl p s = Ret pc t \<Longrightarrow> pc = CbReply cl \<or> pc = CbLoop cl"
  by (auto simp: cb_log_def andThen_Ret_iff need_Ret_iff dest: cb_deliver_Ret split: if_splits)

lemma cb_rank_decreases:
  assumes "cb_code u rt k key pc s = Ret pc' t" and "containers s k = Some fc" and "\<not> active fc"
    and "\<not> cb_ended pc"
  shows "cb_rank pc' < cb_rank pc"
  using assms
  by (cases pc)
    (auto simp: andThen_Ret_iff get_container_Ret cb_ended_def cb_reply_def need_Ret_iff
      dest!: cb_log_Ret split: if_splits prod.splits option.splits)

text \<open>
  While the freeing thread waits in the join, every piece of the callback thread brings it nearer to
  its end, and the join is left only when it is there.
\<close>

lemma join_step:
  assumes "thr_inv k key c" and "mn_at c = MnJoin" and "thr_step u rt k key c a d"
  shows "(mn_at d = MnJoin \<or> cb_ended (cb_at d)) \<and>
    (if a = Callback then cb_rank (cb_at d) < cb_rank (cb_at c) else cb_at d = cb_at c)"
proof -
  from assms(1,2) obtain fc where fc: "containers (shared c) k = Some fc" "\<not> active fc" "callbackThread fc = Some key"
    by (auto simp: thr_inv_def)
  from assms(3) show ?thesis
  proof cases
    case (callback pc s)
    then show ?thesis using cb_rank_decreases [OF callback(4) fc(1,2)] assms(2) by simp
  next
    case (callback_fault e)
    then show ?thesis using assms(2) by (cases "cb_at c") (simp_all add: cb_ended_def)
  next
    case (freeing pc s)
    then show ?thesis using fc assms(2) by (auto simp: cb_ended_def get_container_def split: if_splits)
  next
    case (freeing_fault e)
    then show ?thesis using fc assms(2) by (auto simp: get_container_def split: if_splits)
  qed (use assms(2) in auto)
qed

lemma ended_step: "cb_ended (cb_at c) \<Longrightarrow> thr_step u rt k key c a d \<Longrightarrow> cb_at d = cb_at c \<and> a \<noteq> Callback"
  by (auto elim!: thr_stepE)

lemma join_run:
  assumes "env_keeps_lib (rt_env rt)" and "thr_run u rt k key c as d" and "thr_inv k key c" and "mn_at c = MnJoin"
  shows "(mn_at d = MnJoin \<or> cb_ended (cb_at d)) \<and>
    length (filter (\<lambda>a. a = Callback) as) + cb_rank (cb_at d) \<le> cb_rank (cb_at c)"
  using assms(2-4)
proof induction
  case (thr_snoc c as d a e)
  have inv: "thr_inv k key d" using thr_run_inv [OF assms(1) thr_snoc.hyps(1) thr_snoc.prems(1)] .
  from thr_snoc have IH: "mn_at d = MnJoin \<or> cb_ended (cb_at d)"
    "length (filter (\<lambda>a. a = Callback) as) + cb_rank (cb_at d) \<le> cb_rank (cb_at c)" by simp_all
  show ?case
  proof (cases "cb_ended (cb_at d)")
    case True
    with ended_step [OF True thr_snoc.hyps(2)] IH(2) show ?thesis by simp
  next
    case False
    with IH(1) join_step [OF inv _ thr_snoc.hyps(2)] IH(2) show ?thesis by (simp split: if_splits)
  qed
qed simp

section \<open>The pieces are the thread\<close>

lemma andThen_Ret_left: "andThen (Ret x) k = k x"
  by (rule ext) (simp add: andThen_def)

definition cb_reaches ::
  "unix \<Rightarrow> (('p, 'z) fmu_world_scheme) runtime \<Rightarrow> nat \<Rightarrow> string \<Rightarrow> cb_pc \<Rightarrow> ('p, 'z) fmu_world_scheme \<Rightarrow>
   cb_pc \<Rightarrow> ('p, 'z) fmu_world_scheme \<Rightarrow> bool"
where
  "cb_reaches u rt k key pc s pc' t \<longleftrightarrow> (\<exists>m. cb_alone u rt k key m pc s = Ret pc' t)"

lemma cb_reaches_refl [simp]: "cb_reaches u rt k key pc s pc s"
  unfolding cb_reaches_def by (metis cb_alone.simps(1) ret_run)

lemma cb_alone_trans:
  "cb_alone u rt k key m pc s = Ret pc' s' \<Longrightarrow> cb_alone u rt k key n pc' s' = Ret pc'' t \<Longrightarrow>
   cb_alone u rt k key (m + n) pc s = Ret pc'' t"
  by (induction m arbitrary: pc s) (auto simp: andThen_Ret_iff)

lemma cb_reaches_trans:
  "cb_reaches u rt k key pc s pc' s' \<Longrightarrow> cb_reaches u rt k key pc' s' pc'' t \<Longrightarrow> cb_reaches u rt k key pc s pc'' t"
  unfolding cb_reaches_def using cb_alone_trans by blast

lemma cb_reaches_code: "cb_code u rt k key pc s = Ret pc' s' \<Longrightarrow> cb_reaches u rt k key pc s pc' s'"
  unfolding cb_reaches_def by (rule exI [of _ 1]) (simp add: andThen_def)

lemmas cb_step = cb_reaches_trans [OF cb_reaches_code]

lemma cb_message_step: "cb_log rt k cl p s = Ret pc t \<Longrightarrow> cb_reaches u rt k key (CbMessage cl p) s pc t"
  by (rule cb_reaches_code) simp

lemma cb_reply_step: "cb_reply rt cl s = Ret pc t \<Longrightarrow> cb_reaches u rt k key (CbReply cl) s pc t"
  by (rule cb_reaches_code) simp

text \<open>
  One pass of the receiving loop is what the pieces do from \<open>CbLoop\<close> until they are there again, or
  at \<open>CbClose\<close>; the container is read anew for the log entry, which finds the same.
\<close>

lemma pass_pieces:
  assumes env: "env_keeps_lib (rt_env rt)"
  shows "callback_pass rt k cl s =
    andThen (get_container k) (\<lambda>c. if \<not> active c then ret False else
      andThen (cb_code u rt k key (CbReceive cl)) (\<lambda>pc. case pc of
         CbMessage cl p \<Rightarrow> andThen (cb_log rt k cl p) (\<lambda>pc. case pc of
             CbReply cl \<Rightarrow> andThen (cb_reply rt cl) (\<lambda>_. ret True)
           | _ \<Rightarrow> ret True)
       | _ \<Rightarrow> ret True)) s"
proof (cases "containers s k")
  case None
  then show ?thesis by (simp add: callback_pass_def get_container_def)
next
  case (Some c)
  have again: "get_container k s' = Ret c s'" if "getMessage (rt_env rt) cl 10 s = Ret m s'" for m s'
    using keepsD [OF keeps_getMessage [OF env] that] Some by (simp add: get_container_def lib_def)
  have load: "load_msg p s' = Ret m s'' \<Longrightarrow> s'' = s'" for p m and s' s'' :: "('a, 'b) fmu_world_scheme"
    by (simp add: load_msg_def split: if_splits)
  show ?thesis
  proof (cases "active c \<and> (\<exists>p s'. getMessage (rt_env rt) cl 10 s = Ret (Some p) s')")
    case False
    then show ?thesis
      using Some by (auto simp: callback_pass_def get_container_def andThen_def split: outcome.splits option.splits)
  next
    case True
    then obtain p s' where p: "getMessage (rt_env rt) cl 10 s = Ret (Some p) s'" by blast
    show ?thesis
    proof (cases "load_msg p s'")
      case (Ret m s'')
      with load have l: "load_msg p s' = Ret m s'" by blast
      show ?thesis
      proof (cases "payload m")
        case None
        then show ?thesis
          using Some True p l again [OF p] by (simp add: callback_pass_def get_container_def cb_log_def)
      next
        case (Some bs)
        then show ?thesis
          using \<open>containers s k = Some c\<close> True p l again [OF p]
          by (cases "rt_parse rt K_LogReply bs")
            (auto simp: callback_pass_def get_container_def cb_log_def cb_deliver_def cb_reply_def
              call_logger_def andThen_assoc andThen_Ret_left ret_def [abs_def])
      qed
    qed (use Some True p in \<open>simp_all add: callback_pass_def get_container_def cb_log_def\<close>)
  qed
qed

lemma cb_reply_Ret: "cb_reply rt cl s = Ret pc t \<Longrightarrow> pc = CbLoop cl"
  by (auto simp: cb_reply_def andThen_Ret_iff)

lemma reply_then:
  "andThen (cb_reply rt cl) (\<lambda>_. ret b) s = Ret go t \<longleftrightarrow> go = b \<and> cb_reply rt cl s = Ret (CbLoop cl) t"
  unfolding andThen_Ret_iff using cb_reply_Ret by fastforce

lemma cb_receive_Ret:
  "cb_code u rt k key (CbReceive cl) s = Ret pc t \<Longrightarrow> pc = CbLoop cl \<or> (\<exists>p. pc = CbMessage cl p)"
  by (auto simp: andThen_Ret_iff split: option.splits)

text \<open>A pass of an active instance that returns, and the pieces that it consists of.\<close>

lemma pass_active:
  assumes env: "env_keeps_lib (rt_env rt)" and c: "containers s k = Some c" "active c"
  shows "callback_pass rt k cl s = Ret go t \<longleftrightarrow> go \<and>
    (\<exists>pc s1. cb_code u rt k key (CbReceive cl) s = Ret pc s1 \<and>
      (pc = CbLoop cl \<and> t = s1 \<or>
       (\<exists>p pc' s2. pc = CbMessage cl p \<and> cb_log rt k cl p s1 = Ret pc' s2 \<and>
         (pc' = CbLoop cl \<and> t = s2 \<or> pc' = CbReply cl \<and> cb_reply rt cl s2 = Ret (CbLoop cl) t))))"
proof -
  let ?T = "\<lambda>pc. case pc of CbMessage cl p \<Rightarrow> andThen (cb_log rt k cl p) (\<lambda>pc. case pc of
             CbReply cl \<Rightarrow> andThen (cb_reply rt cl) (\<lambda>_. ret True) | _ \<Rightarrow> ret True) | _ \<Rightarrow> ret True"
  let ?R = "\<lambda>pc s1. pc = CbLoop cl \<and> t = s1 \<or>
       (\<exists>p pc' s2. pc = CbMessage cl p \<and> cb_log rt k cl p s1 = Ret pc' s2 \<and>
         (pc' = CbLoop cl \<and> t = s2 \<or> pc' = CbReply cl \<and> cb_reply rt cl s2 = Ret (CbLoop cl) t))"
  have tail: "?T pc s1 = Ret go t \<longleftrightarrow> go \<and> ?R pc s1"
    if "pc = CbLoop cl \<or> (\<exists>p. pc = CbMessage cl p)" for pc s1
    using that
  proof (elim disjE exE)
    fix p
    assume pc: "pc = CbMessage cl p"
    have "(case pc' of CbReply cl \<Rightarrow> andThen (cb_reply rt cl) (\<lambda>_. ret True) | _ \<Rightarrow> ret True) s2 = Ret go t \<longleftrightarrow>
       go \<and> (pc' = CbLoop cl \<and> t = s2 \<or> pc' = CbReply cl \<and> cb_reply rt cl s2 = Ret (CbLoop cl) t)"
      if "cb_log rt k cl p s1 = Ret pc' s2" for pc' s2
      using cb_log_Ret [OF that] by (auto simp: reply_then)
    then show ?thesis using pc by (auto simp: andThen_Ret_iff)
  qed auto
  have split: "cb_code u rt k key (CbReceive cl) s = Ret pc s1 \<and> ?T pc s1 = Ret go t \<longleftrightarrow>
      cb_code u rt k key (CbReceive cl) s = Ret pc s1 \<and> go \<and> ?R pc s1" for pc s1
    using tail [of pc s1] cb_receive_Ret [of u rt k key cl s pc s1] by blast
  have "get_container k s = Ret c s" using c by (simp add: get_container_def)
  then have "callback_pass rt k cl s = andThen (cb_code u rt k key (CbReceive cl)) ?T s"
    using c(2) by (simp add: pass_pieces [OF env, of k cl s u key] del: cb_code.simps)
  then have "callback_pass rt k cl s = Ret go t \<longleftrightarrow>
      (\<exists>pc s1. cb_code u rt k key (CbReceive cl) s = Ret pc s1 \<and> ?T pc s1 = Ret go t)"
    by (simp only: andThen_Ret_iff)
  then show ?thesis unfolding split by blast
qed

lemma pass_inactive: "containers s k = Some c \<Longrightarrow> \<not> active c \<Longrightarrow> callback_pass rt k cl s = Ret False s"
  by (simp add: callback_pass_def get_container_def)

lemma loop_code:
  "containers s k = Some c \<Longrightarrow>
   cb_code u rt k key (CbLoop cl) s = Ret (if active c then CbReceive cl else CbClose cl) s"
  by (simp add: get_container_def)

lemma pass_forward:
  assumes "env_keeps_lib (rt_env rt)" and "callback_pass rt k cl s = Ret go t"
  shows "cb_reaches u rt k key (CbLoop cl) s (if go then CbLoop cl else CbClose cl) t"
proof -
  obtain c where c: "containers s k = Some c"
    using assms(2) by (auto simp: callback_pass_def andThen_Ret_iff get_container_Ret)
  note loop = loop_code [OF c, of u rt key cl]
  show ?thesis
  proof (cases "active c")
    case True
    with pass_active [OF assms(1) c] assms(2) obtain pc s1 where go: go
      and r: "cb_code u rt k key (CbReceive cl) s = Ret pc s1"
      and rest: "pc = CbLoop cl \<and> t = s1 \<or> (\<exists>p pc' s2. pc = CbMessage cl p \<and> cb_log rt k cl p s1 = Ret pc' s2 \<and>
         (pc' = CbLoop cl \<and> t = s2 \<or> pc' = CbReply cl \<and> cb_reply rt cl s2 = Ret (CbLoop cl) t))" by blast
    have "cb_reaches u rt k key pc s1 (CbLoop cl) t"
      using rest by (auto intro: cb_message_step cb_reaches_trans [OF cb_message_step cb_reply_step])
    then show ?thesis using cb_step [OF loop] cb_step [OF r] True go by simp
  next
    case False
    with pass_inactive [OF c] assms(2) have "\<not> go \<and> t = s" by simp
    with False cb_reaches_code [OF loop] show ?thesis by simp
  qed
qed

lemma loop_forward:
  assumes env: "env_keeps_lib (rt_env rt)"
  shows "callback_loop rt k cl n s = Ret b t \<Longrightarrow> cb_reaches u rt k key (CbLoop cl) s (if b then CbClose cl else CbLoop cl) t"
proof (induction n arbitrary: s)
  case (Suc n)
  then obtain go s1 where p: "callback_pass rt k cl s = Ret go s1"
    and rest: "(if go then callback_loop rt k cl n else ret True) s1 = Ret b t"
    by (auto simp: andThen_Ret_iff)
  from cb_reaches_trans [OF pass_forward [OF env p]] Suc.IH [of s1] rest pass_forward [OF env p, of u key] show ?case
    by (cases go) simp_all
qed simp

text \<open>Where the connect loop's bound ends it, the thread stands before its next attempt.\<close>

fun connect_pc :: "IpcClient option \<times> bool \<Rightarrow> cb_pc" where
  "connect_pc (Some cl, b) = CbLoop cl"
| "connect_pc (None, b) = (if b then CbEnded else CbConnect)"

lemma connect_forward:
  "callback_connect u rt k key n s = Ret v t \<Longrightarrow> cb_reaches u rt k key CbConnect s (connect_pc v) t"
proof (induction n arbitrary: s)
  case (Suc n)
  then obtain c where c: "containers s k = Some c" by (auto simp: andThen_Ret_iff get_container_Ret)
  then have 1: "cb_code u rt k key CbConnect s = Ret (if active c then CbAttempt else CbEnded) s"
    by (simp add: get_container_def)
  obtain ok cl s1 where conn: "IpcClient_connect u (IpcClient_new (c_id c) key) s = (ok, cl, s1)"
    by (metis prod_cases3)
  then have 2: "cb_code u rt k key CbAttempt s = Ret (if ok then CbLoop cl else CbRetry cl) s1"
    using c by (simp add: get_container_def)
  show ?case
  proof (cases "active c \<and> \<not> ok")
    case True
    then obtain s2 where d: "IpcClient_delete u cl s1 = Ret () s2"
      and "callback_connect u rt k key n (rt_env rt None s2) = Ret v t"
      using Suc.prems c conn by (auto simp: get_container_def andThen_Ret_iff)
    with Suc.IH have r: "cb_reaches u rt k key CbConnect (rt_env rt None s2) (connect_pc v) t" by blast
    have "cb_code u rt k key (CbRetry cl) s1 = Ret CbConnect (rt_env rt None s2)" using d by simp
    from cb_step [OF this r] have "cb_reaches u rt k key (CbRetry cl) s1 (connect_pc v) t" .
    with cb_step [OF 2] True have "cb_reaches u rt k key CbAttempt s (connect_pc v) t" by simp
    with cb_step [OF 1] True show ?thesis by simp
  next
    case False
    then show ?thesis
      using Suc.prems c conn cb_reaches_code [OF 1] cb_step [OF 1] cb_reaches_code [OF 2]
      by (cases "active c"; cases ok) (auto simp: get_container_def simp del: cb_code.simps)
  qed
qed auto

section \<open>Properties\<close>

text \<open>
  The pieces are the thread: whatever state \<open>callbackThreadFunc\<close> comes to in some number of
  passes of its loops, ended or still running, the pieces come to when they run one after the other,
  and they are at their end just when it is.
\<close>

theorem callback_pieces_are_thread:
  assumes env: "env_keeps_lib (rt_env rt)" and run: "callbackThreadFunc u rt k key n s = Ret b t"
  shows "\<exists>m pc. cb_alone u rt k key m CbStart s = Ret pc t \<and> (b \<longleftrightarrow> pc = CbEnded)"
proof -
  from run obtain c where c: "get_container k s = Ret c s"
    by (auto simp: callbackThreadFunc_def andThen_Ret_iff get_container_Ret)
  have "\<exists>pc. cb_reaches u rt k key CbStart s pc t \<and> (b \<longleftrightarrow> pc = CbEnded)"
  proof (cases "has_logger (m_functions c)")
    case True
    with run c obtain v f s1 where conn: "callback_connect u rt k key n s = Ret (v, f) s1"
      and rest: "(case v of None \<Rightarrow> ret f | Some cl \<Rightarrow> andThen (callback_loop rt k cl n)
         (\<lambda>f. if f then andThen (IpcClient_delete u cl) (\<lambda>_. ret True) else ret False)) s1 = Ret b t"
      by (auto simp: callbackThreadFunc_def andThen_Ret_iff)
    have "\<exists>pc. cb_reaches u rt k key (connect_pc (v, f)) s1 pc t \<and> (b \<longleftrightarrow> pc = CbEnded)"
    proof (cases v)
      case None
      then show ?thesis using rest by (intro exI [of _ "connect_pc (v, f)"]) auto
    next
      case (Some cl)
      with rest obtain g s2 where loop: "callback_loop rt k cl n s1 = Ret g s2"
        and d: "if g then cb_code u rt k key (CbClose cl) s2 = Ret CbEnded t \<and> b else t = s2 \<and> \<not> b"
        by (auto simp: andThen_Ret_iff split: if_splits)
      from loop_forward [OF env loop, of u key] d cb_reaches_code [of u rt k key "CbClose cl" s2] Some
      show ?thesis by (cases g) (auto simp del: cb_code.simps intro: cb_reaches_trans)
    qed
    moreover have "cb_reaches u rt k key CbStart s CbConnect s" using c True by (intro cb_reaches_code) simp
    ultimately show ?thesis using connect_forward [OF conn] by (blast intro: cb_reaches_trans)
  next
    case False
    with run c have "b \<and> t = s" by (simp add: callbackThreadFunc_def)
    moreover have "cb_reaches u rt k key CbStart s CbEnded s" using c False by (intro cb_reaches_code) simp
    ultimately show ?thesis by blast
  qed
  then show ?thesis unfolding cb_reaches_def by blast
qed

theorem callback_pieces_are_thread_witness:
  "\<exists>m pc t. cb_alone Linux \<lparr>rt_ser = wire_ser, rt_parse = wire_parse, rt_env = (\<lambda>_ s. s)\<rparr> 0 ''cb'' m CbStart
     ex_half_created = Ret pc t \<and> pc \<noteq> CbEnded"
proof -
  let ?rt = "\<lparr>rt_ser = wire_ser, rt_parse = wire_parse, rt_env = (\<lambda>_ s. s)\<rparr> :: (unit fmu_world) runtime"
  have w: "os_wf ex_half_created" "containers ex_half_created 0 = Some ex_container"
      "\<not> connectable Linux ''cb'' ex_half_created"
    by (auto simp: ex_half_created_def fmu_ext_def world.defs os.defs os_wf_def connectable_def connect_names_def
        os_init_def)
  obtain ok c s1 where c: "IpcClient_connect Linux (IpcClient_new 1 ''cb'') ex_half_created = (ok, c, s1)"
    by (metis prod_cases3)
  with connect_iff [OF w(1), of Linux "IpcClient_new 1 ''cb''"] w(3) have "\<not> ok" by simp
  with c w(2) delete_connected_client [OF w(1) c]
  have "\<exists>t. callbackThreadFunc Linux ?rt 0 ''cb'' 1 ex_half_created = Ret False t"
    by (simp add: callbackThreadFunc_def get_container_def ex_container_def)
  moreover have "env_keeps_lib (rt_env ?rt)" by (simp add: env_keeps_lib_def)
  ultimately show ?thesis using callback_pieces_are_thread [of ?rt] by blast
qed

text \<open>
  The example: the instance with its thread, and a run in which the thread is still starting when the
  instance is freed.
\<close>

definition ex_threads :: "(unit fmu_world) threads" where
  "ex_threads = \<lparr>cb_at = CbStart, mn_at = MnFree, shared =
     fmu_ext (Some (ex_container\<lparr>callbackThread := Some ''cb''\<rparr>)) (world0 ())\<rparr>"

lemma ex_threads_start: "thr_start 0 ''cb'' ex_threads"
  by (simp add: thr_start_def ex_threads_def fmu_ext_def world.defs ex_container_def)

lemma thr_pieces:
  "\<not> cb_ended p \<Longrightarrow> cb_code u rt k key p s = Ret p' s' \<Longrightarrow>
     thr_step u rt k key \<lparr>cb_at = p, mn_at = q, shared = s\<rparr> Callback \<lparr>cb_at = p', mn_at = q, shared = s'\<rparr>"
  "q \<noteq> MnDone \<Longrightarrow> mn_code u rt k p q s = Ret q' s' \<Longrightarrow>
     thr_step u rt k key \<lparr>cb_at = p, mn_at = q, shared = s\<rparr> Freeing \<lparr>cb_at = p, mn_at = q', shared = s'\<rparr>"
  using thr_step.callback [of "\<lparr>cb_at = p, mn_at = q, shared = s\<rparr>"] thr_step.freeing [of "\<lparr>cb_at = p, mn_at = q, shared = s\<rparr>"]
  by auto

lemma ex_threads_run:
  "\<exists>c d. thr_run Linux (peer_runtime wire_ser wire_parse (always []) ends_cl) 0 ''cb'' ex_threads
       [Callback, Freeing, Freeing] c \<and> mn_at c = MnJoin \<and> cb_at c = CbConnect \<and>
     thr_run Linux (peer_runtime wire_ser wire_parse (always []) ends_cl) 0 ''cb'' ex_threads
       [Callback, Freeing, Freeing, Callback, Freeing, Freeing, Freeing] d \<and> mn_at d = MnDone"
proof -
  let ?rt = "peer_runtime wire_ser wire_parse (always []) ends_cl"
  let ?fc = "ex_container\<lparr>callbackThread := Some ''cb''\<rparr>"
  let ?s0 = "shared ex_threads"
  let ?step = "thr_step Linux ?rt 0 ''cb''" and ?run = "thr_run Linux ?rt 0 ''cb'' ex_threads"
  have rest: "at_rest (proxy_server (m_proxy ex_container)) ends_cl ?s0" and clk: "clock ?s0 = (0, 0)"
    using ex_server_at_rest [of "()"]
    by (simp_all add: at_rest_def ex_world_def ex_threads_def fmu_ext_def world.defs world0_def)
  obtain rep where free: "FmuProxy_fmi2FreeInstance ?rt (m_proxy ex_container) ?s0 = Ret () (after_exchange rep () 0 ?s0)"
    using ex_proxy_free [OF rest clk] by blast
  let ?s1 = "after_exchange rep () 0 ?s0"
  let ?s2 = "?s1\<lparr>containers := (containers ?s1)(0 \<mapsto> ?fc\<lparr>active := False\<rparr>)\<rparr>"
  let ?s3 = "?s2\<lparr>g_clients := remove1 (Some 0) (g_clients ?s2)\<rparr>"
  have s0: "containers ?s0 0 = Some ?fc" and s1: "containers ?s1 0 = Some ?fc"
    by (simp_all add: ex_threads_def fmu_ext_def world.defs after_exchange_def)
  have l: "has_logger (m_functions ?fc)" and m: "m_proxy ?fc = m_proxy ex_container"
    by (simp_all add: ex_container_def)
  let ?c = "\<lambda>p q s. \<lparr>cb_at = p, mn_at = q, shared = s\<rparr>"
  have 1: "?step (?c CbStart MnFree ?s0) Callback (?c CbConnect MnFree ?s0)"
    using s0 l by (intro thr_pieces) (simp_all add: cb_ended_def get_container_def)
  have 2: "?step (?c CbConnect MnFree ?s0) Freeing (?c CbConnect MnClear ?s1)"
    using s0 m free by (intro thr_pieces) (simp_all add: get_container_def)
  have 3: "?step (?c CbConnect MnClear ?s1) Freeing (?c CbConnect MnJoin ?s2)"
    using s1 by (intro thr_pieces) (simp_all add: get_container_def set_container_def)
  have 4: "?step (?c CbConnect MnJoin ?s2) Callback (?c CbEnded MnJoin ?s2)"
    by (intro thr_pieces) (simp_all add: cb_ended_def get_container_def)
  have 5: "?step (?c CbEnded MnJoin ?s2) Freeing (?c CbEnded MnErase ?s2)"
    by (intro thr_pieces) (simp_all add: get_container_def)
  have 6: "?step (?c CbEnded MnErase ?s2) Freeing (?c CbEnded MnDelete ?s3)"
    by (intro thr_pieces) simp_all
  have 7: "?step (?c CbEnded MnDelete ?s3) Freeing
      (?c CbEnded MnDone (?s3\<lparr>containers := (containers ?s3)(0 := None)\<rparr>))"
    by (intro thr_pieces) (simp_all add: get_container_def FmuContainer_delete_def m ex_proxy_delete)
  have "ex_threads = ?c CbStart MnFree ?s0" by (simp add: ex_threads_def)
  then have r3: "?run [Callback, Freeing, Freeing] (?c CbConnect MnJoin ?s2)"
    using thr_snoc [OF thr_snoc [OF thr_snoc [OF thr_nil 1] 2] 3] by simp
  from thr_snoc [OF thr_snoc [OF thr_snoc [OF thr_snoc [OF r3 4] 5] 6] 7] r3 show ?thesis
    by (intro exI [of _ "?c CbConnect MnJoin ?s2"]
        exI [of _ "?c CbEnded MnDone (?s3\<lparr>containers := (containers ?s3)(0 := None)\<rparr>)"]) simp
qed

text \<open>
  C11: The container outlives its thread: in every interleaving of the callback thread with the call
  that frees the instance, the container is there as long as the thread has not ended, so that none
  of its reads meets freed memory; and when the call is done the thread has ended and the container
  is gone.
\<close>

theorem container_outlives_thread:
  assumes "env_keeps_lib (rt_env rt)" and "thr_start k key c" and "thr_run u rt k key c as d"
  shows "(\<not> cb_ended (cb_at d) \<or> mn_at d \<noteq> MnDone \<longrightarrow> containers (shared d) k \<noteq> None) \<and>
    (mn_at d = MnDone \<longrightarrow> cb_at d = CbEnded \<and> containers (shared d) k = None)"
proof -
  from thr_run_inv [OF assms(1,3) thr_start_inv [OF assms(2)]] have "thr_inv k key d" .
  then show ?thesis by (auto simp: thr_inv_def cb_ended_def)
qed

theorem container_outlives_thread_witness:
  "\<exists>d. thr_run Linux (peer_runtime wire_ser wire_parse (always []) ends_cl) 0 ''cb'' ex_threads
     [Callback, Freeing, Freeing, Callback, Freeing, Freeing, Freeing] d \<and>
     cb_at d = CbEnded \<and> containers (shared d) 0 = None"
proof -
  have "env_keeps_lib (rt_env (peer_runtime wire_ser wire_parse (always []) ends_cl))"
    by (simp add: peer_runtime_def turn_env_keeps_lib)
  then show ?thesis
    using container_outlives_thread [OF _ ex_threads_start] ex_threads_run by blast
qed

text \<open>
  C19: The join returns: once the flag is cleared the callback thread has at most five pieces of its
  program left, whatever the others do; it never waits for ever in one of them; and when it has ended
  the freeing thread goes on.
\<close>

theorem join_returns:
  assumes "env_keeps_lib (rt_env rt)" and "thr_start k key c" and "thr_run u rt k key c as d" and "mn_at d = MnJoin"
  shows "(cb_at d = CbEnded \<longrightarrow> (\<exists>e. thr_step u rt k key d Freeing e \<and> mn_at e = MnErase)) \<and>
    (\<not> cb_ended (cb_at d) \<longrightarrow> (\<exists>e. thr_step u rt k key d Callback e)) \<and>
    (\<forall>bs e. thr_run u rt k key d bs e \<longrightarrow> length (filter (\<lambda>a. a = Callback) bs) \<le> 5)"
proof (intro conjI impI allI)
  have inv: "thr_inv k key d" by (rule thr_run_inv [OF assms(1,3) thr_start_inv [OF assms(2)]])
  then obtain fc where "containers (shared d) k = Some fc" using assms(4) by (auto simp: thr_inv_def)
  then have "mn_code u rt k (cb_at d) (mn_at d) (shared d) = Ret MnErase (shared d)" if "cb_at d = CbEnded"
    using assms(4) that by (simp add: get_container_def)
  from thr_step.freeing [OF _ this] show "\<exists>e. thr_step u rt k key d Freeing e \<and> mn_at e = MnErase" if "cb_at d = CbEnded"
    using that assms(4) by force
  show "\<exists>e. thr_step u rt k key d Callback e" if "\<not> cb_ended (cb_at d)"
    using cb_code_not_Blocks [of u rt k key "cb_at d" "shared d"] that
    by (cases "cb_code u rt k key (cb_at d) (shared d)") (auto intro: thr_step.intros)
  show "length (filter (\<lambda>a. a = Callback) bs) \<le> 5" if "thr_run u rt k key d bs e" for bs e
    using join_run [OF assms(1) that inv assms(4)] cb_rank_le [of "cb_at d"] by linarith
qed

theorem join_returns_witness:
  "\<exists>d :: (unit fmu_world) threads. mn_at d = MnJoin \<and> cb_at d = CbConnect \<and>
     (\<exists>e. thr_step Linux (peer_runtime wire_ser wire_parse (always []) ends_cl) 0 ''cb'' d Callback e) \<and>
     (\<forall>bs e. thr_run Linux (peer_runtime wire_ser wire_parse (always []) ends_cl) 0 ''cb'' d bs e \<longrightarrow>
        length (filter (\<lambda>a. a = Callback) bs) \<le> 5)"
proof -
  have env: "env_keeps_lib (rt_env (peer_runtime wire_ser wire_parse (always []) ends_cl))"
    by (simp add: peer_runtime_def turn_env_keeps_lib)
  obtain d where d: "thr_run Linux (peer_runtime wire_ser wire_parse (always []) ends_cl) 0 ''cb'' ex_threads
       [Callback, Freeing, Freeing] d" "mn_at d = MnJoin" "cb_at d = CbConnect" using ex_threads_run by blast
  from join_returns [OF env ex_threads_start d(1,2)] d(2,3) show ?thesis
    by - (rule exI [of _ d], simp add: cb_ended_def)
qed

end
