(* ===== verification/LaunchedTool.thy ===== *)
theory LaunchedTool
  imports Channel
begin

text \<open>
  The program at the other end as a process of its own: it is started without a connection, connects
  under the key the first time it gets to run after the server's names are there, keeps its client and
  from then on serves one message whenever one is posted. This is what a tool does in the loop of the
  integration tests' runner (testfmu-integration/runner/testrunner.cpp); what it answers is a
  parameter. The server's calls to such a process are calls of its handler, the first one included.
\<close>

section \<open>What creating a channel leaves alone\<close>

lemma more_open: "openShm u ok n c s = (ok', h, s') \<Longrightarrow> os.more s' = os.more s"
  by (auto simp: openShm_def shm_open_def shm_unlink_def new_fd_def new_obj_def Let_def
      split: prod.splits option.splits if_splits)

lemma more_map: "mapShm u ok b h t s = (ok', b', s') \<Longrightarrow> os.more s' = os.more s"
  by (auto simp: mapShm_def ftruncate_def split: option.splits if_splits)

lemma more_signal: "createSignal u ok b n c s = (ok', h, s') \<Longrightarrow> os.more s' = os.more s"
  by (auto simp: createSignal_def sem_open_def sem_unlink_def Let_def split: option.splits if_splits prod.splits)

lemma more_create: "IpcServer_create u srv s = (ok, srv', s') \<Longrightarrow> os.more s' = os.more s"
  by (auto simp: IpcServer_create_def create_shm_def create_signals_def Let_def
      dest!: more_open more_map more_signal split: prod.splits if_splits)

lemma clock_create: "IpcServer_create u srv s = (ok, srv', s') \<Longrightarrow> clock s' = clock s"
  by (auto simp: IpcServer_create_def create_shm_def create_signals_def Let_def openShm_def shm_open_def shm_unlink_def
      new_fd_def new_obj_def mapShm_def ftruncate_def createSignal_def sem_open_def sem_unlink_def
      split: prod.splits option.splits if_splits)

section \<open>The process\<close>

record 'q tool =
  tool_client :: "IpcClient option"
  tool_state :: 'q

definition lift_tool ::
  "(SharedFmiMessage \<Rightarrow> (SharedFmiMessage, 'q) prog) \<Rightarrow> SharedFmiMessage \<Rightarrow> (SharedFmiMessage, 'q tool) prog"
where
  "lift_tool h m t =
     (case h m (tool_state t) of
        Fault e \<Rightarrow> Fault e | Blocks \<Rightarrow> Blocks | Ret r q \<Rightarrow> Ret r (t\<lparr>tool_state := q\<rparr>))"

text \<open>An attempt to connect, unless there is a client already.\<close>

definition tool_connect ::
  "unix \<Rightarrow> string \<Rightarrow> ('q tool, 'z) world_scheme \<Rightarrow> ('q tool, 'z) world_scheme" where
  "tool_connect u key s =
     (case tool_client (peer s) of
        Some cl \<Rightarrow> s
      | None \<Rightarrow>
          (case IpcClient_connect u (IpcClient_new 88 key) s of
             (ok, cl, s) \<Rightarrow> if ok then s\<lparr>peer := (peer s)\<lparr>tool_client := Some cl\<rparr>\<rparr> else s))"

text \<open>
  \<open>key\<close> is the key the process was started with, \<open>None\<close> in a state in which none was started; it is a
  function of what the library keeps besides the operating system's objects.
\<close>

definition tool_env ::
  "unix \<Rightarrow> (('q tool, 'z) world_scheme \<Rightarrow> string option) \<Rightarrow>
   (SharedFmiMessage \<Rightarrow> (SharedFmiMessage, 'q) prog) \<Rightarrow> (('q tool, 'z) world_scheme) env" where
  "tool_env u key h d s =
     (case key s of
        None \<Rightarrow> s
      | Some name \<Rightarrow>
          (let s = tool_connect u name s
           in case tool_client (peer s) of None \<Rightarrow> s | Some cl \<Rightarrow> turn_env (lift_tool h) cl d s))"

definition library_key :: "(('q, 'z) world_scheme \<Rightarrow> string option) \<Rightarrow> bool" where
  "library_key key \<longleftrightarrow> (\<forall>s t. world.more t = world.more s \<longrightarrow> key t = key s)"

lemma library_keyD: "library_key key \<Longrightarrow> world.more t = world.more s \<Longrightarrow> key t = key s"
  unfolding library_key_def by blast

section \<open>A server that waits for it\<close>

text \<open>
  Before the connection: the server was just created under the key, on a system that refuses nothing.
  After it: the channel is at rest.
\<close>

definition server_fresh :: "unix \<Rightarrow> string \<Rightarrow> IpcServer \<Rightarrow> 'a os_scheme \<Rightarrow> bool" where
  "server_fresh u key srv s \<longleftrightarrow>
     os_wf s \<and> (\<forall>op. \<not> refuse s op) \<and> m_name srv = key \<and> server_ready u srv s \<and>
     (\<exists>a g. m_hAvail srv = Sig a \<and> m_hSignal srv = Sig g \<and> a \<noteq> g \<and> sem_val s a = 0 \<and> sem_val s g = 0)"

definition tool_ready ::
  "unix \<Rightarrow> (('q tool, 'z) world_scheme \<Rightarrow> string option) \<Rightarrow> IpcServer \<Rightarrow> ('q tool, 'z) world_scheme \<Rightarrow> bool" where
  "tool_ready u key srv s \<longleftrightarrow>
     library_key key \<and>
     (\<exists>name. key s = Some name \<and>
        (case tool_client (peer s) of None \<Rightarrow> server_fresh u name srv s | Some cl \<Rightarrow> at_rest srv cl s))"

text \<open>A system that creates what it is asked to, and names of the semaphores that do not collide.\<close>

definition system_willing :: "unix \<Rightarrow> string \<Rightarrow> 'a os_scheme \<Rightarrow> bool" where
  "system_willing u key s \<longleftrightarrow> os_wf s \<and> (\<forall>op. \<not> refuse s op) \<and> signal_names_distinct u key"

lemma created_fresh:
  assumes "os_wf s" and "\<And>op. \<not> refuse s op" and "signal_names_distinct u key" and "m_name srv = key"
    and "IpcServer_create u srv s = (ok, srv', s')"
  shows "ok" and "server_fresh u key srv' s'"
proof -
  show ok using create_success_iff_aux [OF assms(1), of u srv] assms(2,5) by simp
  then have c: "IpcServer_create u srv s = (True, srv', s')" using assms(5) by simp
  have d: "signal_names_distinct u (m_name srv)" using assms(3,4) by simp
  from IpcServer_create_ready [OF assms(1) d c] IpcServer_create_done(1) [OF assms(1) d c] assms(2,4)
  show "server_fresh u key srv' s'" by (auto simp: server_fresh_def)
qed

text \<open>The state in which the server waits, and what the process makes of it.\<close>

definition sent_state :: "nat \<Rightarrow> nat \<Rightarrow> SharedFmiMessage \<Rightarrow> 'a os_scheme \<Rightarrow> 'a os_scheme" where
  "sent_state p a m s =
     s\<lparr>shm_objs := (shm_objs s)(p := (shm_objs s p)\<lparr>shm_mem := \<lparr>message = m\<rparr>\<rparr>), sem_val := (sem_val s)(a := 1)\<rparr>"

lemma sent_state_simps [simp]:
  "shm_names (sent_state p a m s) = shm_names s" "sem_names (sent_state p a m s) = sem_names s"
  "refuse (sent_state p a m s) = refuse s" "os_wf (sent_state p a m s) = os_wf s"
  "sem_val (sent_state p a m s) = (sem_val s)(a := 1)" "peer (sent_state p a m w) = peer w"
  "shm_size (shm_objs (sent_state p a m s) x) = shm_size (shm_objs s x)"
  "message (shm_mem (shm_objs (sent_state p a m s) p)) = m" "world.more (sent_state p a m w) = world.more w"
  by (simp_all add: sent_state_def os_wf_def)

lemma server_ready_sent [simp]: "server_ready u srv (sent_state p a m s) = server_ready u srv s"
  by (simp add: server_ready_def)

text \<open>A call with any valid timeout returns what the other end left in the region.\<close>

lemma send_answered_at:
  assumes "m_pBuf srv = Some p" and "m_hAvail srv = Sig a" and "m_hSignal srv = Sig g" and "a \<noteq> g"
    and "0 < shm_size (shm_objs s p)" and "sem_val s a = 0" and "sem_val s g = 0" and "\<not> refuse s (OpSemWait g)"
    and "deadline_valid (clock s) timeout"
    and "env (if timeout = 0 then None else Some (deadline (clock s) timeout)) (sent_state p a m s) = t" and "0 < sem_val t g"
  shows "IpcServer_send env srv m timeout s = Ret (Some p) (sem_take g t)"
proof -
  have "signalWait env (Sig g) timeout (sent_state p a m s) = Ret True (sem_take g t)"
    using assms by (cases "timeout = 0") (auto simp: signalWait_def deadline_valid_def sent_state_def Let_def)
  with assms(1-7) show ?thesis
    by (simp add: IpcServer_send_def store_msg_def signalPost_Sig SEM_VALUE_MAX_def sent_state_def andThen_def)
qed

lemma send_answered:
  assumes "m_pBuf srv = Some p" and "m_hAvail srv = Sig a" and "m_hSignal srv = Sig g" and "a \<noteq> g"
    and "0 < shm_size (shm_objs s p)" and "sem_val s a = 0" and "sem_val s g = 0" and "\<not> refuse s (OpSemWait g)"
    and "deadline_valid (clock s) timeout"
    and "\<And>d. env d (sent_state p a m s) = t" and "0 < sem_val t g"
  shows "IpcServer_send env srv m timeout s = Ret (Some p) (sem_take g t)"
  by (rule send_answered_at [OF assms(1-9) _ assms(11)]) (rule assms(10))

text \<open>
  A client that connects in that state ends up at the other end of the channel, and nothing else has
  changed but the descriptors.
\<close>

lemma fresh_connect:
  assumes "server_fresh u key srv s"
  obtains cl f n where
    "IpcClient_connect u (IpcClient_new i key) (sent_state p a m s) = (True, cl, (sent_state p a m s)\<lparr>fds := f, next_fd := n\<rparr>)"
    and "same_channel srv cl" and "m_hMapFileName cl \<noteq> None" and "os_wf (s\<lparr>fds := f, next_fd := n\<rparr>)"
proof -
  let ?s = "sent_state p a m s" and ?cl = "IpcClient_new i key"
  obtain ok cl s' where c: "IpcClient_connect u ?cl ?s = (ok, cl, s')" by (metis prod_cases3)
  from assms have ready: "server_ready u srv ?s" "os_wf ?s" "m_name ?cl = m_name srv" "\<And>op. \<not> refuse ?s op"
    by (simp_all add: server_fresh_def)
  from server_ready_connect [OF this c] have ok: "ok" and same: "same_channel srv cl" by auto
  obtain f n where s': "s' = ?s\<lparr>fds := f, next_fd := n\<rparr>" using connect_state [OF c] by blast
  show thesis
  proof (rule that)
    show "IpcClient_connect u ?cl ?s = (True, cl, ?s\<lparr>fds := f, next_fd := n\<rparr>)" using c ok s' by simp
    show "m_hMapFileName cl \<noteq> None" using connect_frame(8) [OF c] by simp
    show "os_wf (s\<lparr>fds := f, next_fd := n\<rparr>)"
      using connect_wf [OF c ready(2)] by (simp add: s' sent_state_def os_wf_def)
  qed (rule same)
qed

text \<open>
  It finds the message, and whatever it replies, also after writing to the message in place, is there
  with a token when it is deleted.
\<close>

lemma fresh_answer:
  assumes "same_channel srv cl" and "m_pBuf srv = Some p" and "m_hAvail srv = Sig a" and "m_hSignal srv = Sig g"
    and "a \<noteq> g" and "0 < shm_size (shm_objs s p)" and "sem_val s g = 0"
    and "s' = (sent_state p a m s)\<lparr>fds := f, next_fd := n\<rparr>"
  shows "getMessage (\<lambda>_ s. s) cl timeout s' = Ret (Some p) (sem_take a s')"
    and "load_msg p (sem_take a s') = Ret m (sem_take a s')"
    and "sendReply cl r (sem_take a s') = Ret ()
      (s\<lparr>shm_objs := (shm_objs s)(p := (shm_objs s p)\<lparr>shm_mem := \<lparr>message = r\<rparr>\<rparr>), fds := f, next_fd := n,
         sem_val := (sem_val s)(a := 0, g := 1)\<rparr>)"
    and "andThen (store_msg p w) (\<lambda>_. sendReply cl r) (sem_take a s') = sendReply cl r (sem_take a s')"
proof -
  from assms(1-4) have cl: "m_pBuf cl = Some p" "m_hAvail cl = Sig a" "m_hSignal cl = Sig g"
    by (simp_all add: same_channel_def)
  then show "getMessage (\<lambda>_ s. s) cl timeout s' = Ret (Some p) (sem_take a s')"
    using assms(8) by (simp add: getMessage_def signalWait_available)
  show "load_msg p (sem_take a s') = Ret m (sem_take a s')"
    using assms(6,8) by (simp add: sent_state_def load_msg_def sem_take_def)
  show "sendReply cl r (sem_take a s') = Ret ()
      (s\<lparr>shm_objs := (shm_objs s)(p := (shm_objs s p)\<lparr>shm_mem := \<lparr>message = r\<rparr>\<rparr>), fds := f, next_fd := n,
         sem_val := (sem_val s)(a := 0, g := 1)\<rparr>)"
    using assms(5-8) cl by (simp add: sent_state_def sem_take_def sendReply_def store_msg_def signalPost_Sig SEM_VALUE_MAX_def)
  show "andThen (store_msg p w) (\<lambda>_. sendReply cl r) (sem_take a s') = sendReply cl r (sem_take a s')"
    using assms(6,8) cl
    by (simp add: andThen_def sent_state_def sem_take_def sendReply_def store_msg_def)
qed

lemma client_deleted: "m_hMapFileName (cl :: IpcClient) \<noteq> None \<Longrightarrow>
  \<exists>t. IpcClient_delete u cl s = Ret () t \<and> shm_objs t = shm_objs s \<and> sem_val t = sem_val s"
  by (auto simp: IpcClient_delete_def IpcBase_delete_def Let_def signalClose_def unmap_def shm_unlink_def close_fd_def
      split: option.split)

text \<open>The process that was launched connects the same way.\<close>

lemma connect_sent:
  fixes s :: "('q tool, 'z) world_scheme"
  assumes "tool_client (peer s) = None" and "server_fresh u key srv s"
  shows "\<exists>cl f n. tool_connect u key (sent_state p a m s) =
      (sent_state p a m s)\<lparr>fds := f, next_fd := n, peer := (peer s)\<lparr>tool_client := Some cl\<rparr>\<rparr> \<and> same_channel srv cl"
proof -
  from fresh_connect [OF assms(2), of 88 p a m] obtain cl f n where
    c: "IpcClient_connect u (IpcClient_new 88 key) (sent_state p a m s) = (True, cl, (sent_state p a m s)\<lparr>fds := f, next_fd := n\<rparr>)"
    and same: "same_channel srv cl" by metis
  then show ?thesis using assms(1) by (auto simp: tool_connect_def)
qed

text \<open>In either case it is connected when it gets to run.\<close>

lemma tool_connected:
  fixes s :: "('q tool, 'z) world_scheme"
  assumes "tool_ready u key srv s" and "key s = Some name"
  obtains p a g cl f n where "m_pBuf srv = Some p" "m_hAvail srv = Sig a" "m_hSignal srv = Sig g" "a \<noteq> g"
    "0 < shm_size (shm_objs s p)" "sem_val s a = 0" "sem_val s g = 0" "\<not> refuse s (OpSemWait g)" "same_channel srv cl"
    "tool_connect u name (sent_state p a m s) =
       (sent_state p a m s)\<lparr>fds := f, next_fd := n, peer := (peer s)\<lparr>tool_client := Some cl\<rparr>\<rparr>"
proof (cases "tool_client (peer s)")
  case None
  with assms have fresh: "server_fresh u name srv s" by (simp add: tool_ready_def)
  then obtain p a g where h: "m_pBuf srv = Some p" "m_hAvail srv = Sig a" "m_hSignal srv = Sig g" "a \<noteq> g"
    "0 < shm_size (shm_objs s p)" "sem_val s a = 0" "sem_val s g = 0" "\<not> refuse s (OpSemWait g)"
    by (auto simp: server_fresh_def server_ready_def)
  from connect_sent [OF None fresh, of p a m] that [OF h] show thesis by blast
next
  case (Some cl)
  with assms have "at_rest srv cl s" by (simp add: tool_ready_def)
  then obtain p a g where h: "m_pBuf srv = Some p" "m_hAvail srv = Sig a" "m_hSignal srv = Sig g" "a \<noteq> g"
    "0 < shm_size (shm_objs s p)" "sem_val s a = 0" "sem_val s g = 0" "\<not> refuse s (OpSemWait g)" "same_channel srv cl"
    by (auto simp: at_rest_def)
  have "(peer s)\<lparr>tool_client := Some cl\<rparr> = peer s" using Some by simp
  then have "tool_connect u name (sent_state p a m s) =
      (sent_state p a m s)\<lparr>fds := fds s, next_fd := next_fd s, peer := (peer s)\<lparr>tool_client := Some cl\<rparr>\<rparr>"
    using Some by (simp add: tool_connect_def sent_state_def)
  from that [OF h this] show thesis .
qed

text \<open>
  So the environment runs the handler on the message that was sent, and leaves the answer in its place
  with the token that wakes the server.
\<close>

lemma tool_env_sent:
  fixes s :: "('q tool, 'z) world_scheme"
  assumes "tool_ready u key srv s" and "h m (tool_state (peer s)) = Ret r q"
  shows "\<exists>p a g cl f n. m_pBuf srv = Some p \<and> m_hAvail srv = Sig a \<and> m_hSignal srv = Sig g \<and> a \<noteq> g \<and>
    0 < shm_size (shm_objs s p) \<and> sem_val s a = 0 \<and> sem_val s g = 0 \<and> \<not> refuse s (OpSemWait g) \<and>
    same_channel srv cl \<and>
    (\<forall>d. tool_env u key h d (sent_state p a m s) =
       (after_exchange r (\<lparr>tool_client = Some cl, tool_state = q\<rparr>) p s)
         \<lparr>fds := f, next_fd := n, sem_val := (sem_val s)(a := 0, g := 1)\<rparr>)"
proof -
  from assms(1) obtain name where lk: "library_key key" and name: "key s = Some name"
    by (auto simp: tool_ready_def)
  from tool_connected [OF assms(1) name, of m] obtain p a g cl f n where
    h: "m_pBuf srv = Some p" "m_hAvail srv = Sig a" "m_hSignal srv = Sig g" "a \<noteq> g"
      "0 < shm_size (shm_objs s p)" "sem_val s a = 0" "sem_val s g = 0" "\<not> refuse s (OpSemWait g)" "same_channel srv cl"
    and c: "tool_connect u name (sent_state p a m s) =
       (sent_state p a m s)\<lparr>fds := f, next_fd := n, peer := (peer s)\<lparr>tool_client := Some cl\<rparr>\<rparr>" by metis
  let ?c = "(sent_state p a m s)\<lparr>fds := f, next_fd := n, peer := (peer s)\<lparr>tool_client := Some cl\<rparr>\<rparr>"
  have "turn_env (lift_tool h) cl d ?c = (after_exchange r \<lparr>tool_client = Some cl, tool_state = q\<rparr> p ?c)
      \<lparr>sem_val := (sem_val ?c)(a := 0, g := 1)\<rparr>" for d
    using h assms(2) by (intro turn_env_posted) (auto simp: same_channel_def lift_tool_def)
  then have "tool_env u key h d (sent_state p a m s) = (after_exchange r \<lparr>tool_client = Some cl, tool_state = q\<rparr> p s)
      \<lparr>fds := f, next_fd := n, sem_val := (sem_val s)(a := 0, g := 1)\<rparr>" for d
    using library_keyD [OF lk, of "sent_state p a m s" s] name
    by (simp add: tool_env_def c) (simp add: sent_state_def after_exchange_def)
  with h show ?thesis by blast
qed

text \<open>So a call is the handler's answer, and after it the channel is at rest.\<close>

lemma tool_exchange:
  fixes s :: "('q tool, 'z) world_scheme"
  assumes "tool_ready u key srv s" and "h m (tool_state (peer s)) = Ret r q"
  shows "\<exists>s'. exchange (tool_env u key h) srv INFINITE m s = Ret (Some r) s' \<and> tool_ready u key srv s' \<and>
    tool_state (peer s') = q"
proof -
  from tool_env_sent [of u key srv s h m r q, OF assms] obtain p a g cl f n where
    h: "m_pBuf srv = Some p" "m_hAvail srv = Sig a" "m_hSignal srv = Sig g" "a \<noteq> g"
      "0 < shm_size (shm_objs s p)" "sem_val s a = 0" "sem_val s g = 0" "\<not> refuse s (OpSemWait g)"
      "same_channel srv cl"
    and env: "\<And>d. tool_env u key h d (sent_state p a m s) =
       (after_exchange r (\<lparr>tool_client = Some cl, tool_state = q\<rparr>) p s)
         \<lparr>fds := f, next_fd := n, sem_val := (sem_val s)(a := 0, g := 1)\<rparr>" by metis
  let ?t = "(after_exchange r (\<lparr>tool_client = Some cl, tool_state = q\<rparr>) p s)\<lparr>fds := f, next_fd := n\<rparr>"
  have "IpcServer_send (tool_env u key h) srv m 0 s = Ret (Some p) (sem_take g
      ((after_exchange r (\<lparr>tool_client = Some cl, tool_state = q\<rparr>) p s)
         \<lparr>fds := f, next_fd := n, sem_val := (sem_val s)(a := 0, g := 1)\<rparr>))"
    using h env by (intro send_ready) (simp_all add: sent_state_def)
  moreover have "sem_take g ((after_exchange r (\<lparr>tool_client = Some cl, tool_state = q\<rparr>) p s)
         \<lparr>fds := f, next_fd := n, sem_val := (sem_val s)(a := 0, g := 1)\<rparr>) = ?t"
    using h by (simp add: sem_take_def after_exchange_def fun_upd_idem)
  ultimately have "exchange (tool_env u key h) srv INFINITE m s = Ret (Some r) ?t"
    using h by (simp add: exchange_def INFINITE_def load_msg_def after_exchange_def)
  moreover have "tool_ready u key srv ?t"
  proof -
    have "library_key key" using assms(1) by (simp add: tool_ready_def)
    then have "key ?t = key s" by (rule library_keyD) (simp add: after_exchange_def)
    moreover have "at_rest srv cl ?t" using h by (auto simp: at_rest_def after_exchange_def)
    moreover have "tool_client (peer ?t) = Some cl" by (simp add: after_exchange_def)
    ultimately show ?thesis using assms(1) by (auto simp: tool_ready_def)
  qed
  ultimately show ?thesis by (intro exI [of _ ?t]) simp
qed

interpretation tool_ipc: request_reply "exchange (tool_env u key h) srv INFINITE" "tool_ready u key srv"
    "\<lambda>s. tool_state (peer s)" h
  for u key and h :: "SharedFmiMessage \<Rightarrow> (SharedFmiMessage, 'q) prog" and srv
  by unfold_locales (rule tool_exchange)

end
