(* ===== verification/ManyChannels.thy ===== *)
theory ManyChannels
  imports LaunchedTool
begin

text \<open>
  Several channels in one system, as a simulator has them that loads the library for more than one
  unit (libshmipc, the setting of testfmu-integration/FMU_DualLoad_Tests.cpp): each has a server, a client in a
  process of its own and that process's handler. They are created one after another under keys whose
  names do not meet, and requests on them are answered as if each channel were alone.
\<close>

section \<open>Calls on several channels\<close>

text \<open>Process \<open>i\<close> among the others.\<close>

definition at_peer ::
  "nat \<Rightarrow> (SharedFmiMessage \<Rightarrow> (SharedFmiMessage, 'q) prog) \<Rightarrow> SharedFmiMessage \<Rightarrow> (SharedFmiMessage, nat \<Rightarrow> 'q) prog"
where
  "at_peer i h m q =
     (case h m (q i) of Fault e \<Rightarrow> Fault e | Blocks \<Rightarrow> Blocks | Ret r q' \<Rightarrow> Ret r (q(i := q')))"

text \<open>The processes get to run in the order of a list, in which one may occur more than once or not at all.\<close>

definition peers_env ::
  "(nat \<Rightarrow> SharedFmiMessage \<Rightarrow> (SharedFmiMessage, 'q) prog) \<Rightarrow> (nat \<Rightarrow> IpcClient) \<Rightarrow> nat list \<Rightarrow>
   ((nat \<Rightarrow> 'q, 'z) world_scheme) env" where
  "peers_env h cl order d = fold (\<lambda>i. turn_env (at_peer i (h i)) (cl i) d) order"

text \<open>A request on channel \<open>i\<close>, and what happens while its server waits.\<close>

definition call_peer ::
  "(nat \<Rightarrow> SharedFmiMessage \<Rightarrow> (SharedFmiMessage, 'q) prog) \<Rightarrow> (nat \<Rightarrow> IpcServer) \<Rightarrow> (nat \<Rightarrow> IpcClient) \<Rightarrow>
   nat \<times> nat list \<times> SharedFmiMessage \<Rightarrow> (SharedFmiMessage option, (nat \<Rightarrow> 'q, 'z) world_scheme) prog" where
  "call_peer h srv cl c =
     (case c of (i, order, m) \<Rightarrow> exchange (peers_env h cl order) (srv i) INFINITE m)"

text \<open>Channels that share neither memory nor a semaphore, each at rest.\<close>

definition apart :: "IpcServer \<Rightarrow> IpcServer \<Rightarrow> bool" where
  "apart a b \<longleftrightarrow> m_pBuf a \<noteq> m_pBuf b \<and> {m_hAvail a, m_hSignal a} \<inter> {m_hAvail b, m_hSignal b} = {}"

definition channels_rest ::
  "nat set \<Rightarrow> (nat \<Rightarrow> IpcServer) \<Rightarrow> (nat \<Rightarrow> IpcClient) \<Rightarrow> 'a os_scheme \<Rightarrow> bool" where
  "channels_rest I srv cl s \<longleftrightarrow>
     (\<forall>i\<in>I. at_rest (srv i) (cl i) s) \<and> (\<forall>i\<in>I. \<forall>j\<in>I. i \<noteq> j \<longrightarrow> apart (srv i) (srv j))"

lemma channels_rest_after [simp]:
  "channels_rest I srv cl s \<Longrightarrow> channels_rest I srv cl (after_exchange r q p s)"
  by (simp add: channels_rest_def)

section \<open>One call\<close>

lemma turn_env_idle: "m_hAvail cl = Sig a \<Longrightarrow> sem_val s a = 0 \<Longrightarrow> turn_env h cl d s = s"
  by (simp add: turn_env_def)

text \<open>While a message is posted on channel \<open>i\<close> nobody else moves.\<close>

lemma others_idle:
  assumes rest: "channels_rest I srv cl s" and i: "i \<in> I" and j: "j \<in> I" "j \<noteq> i"
    and h: "m_hAvail (srv i) = Sig a" "m_hSignal (srv i) = Sig g"
    and t: "sem_val t = (sem_val s)(a := x, g := y)"
  shows "turn_env e (cl j) d t = t"
proof -
  from rest j have "at_rest (srv j) (cl j) s" and "apart (srv i) (srv j)" using i by (auto simp: channels_rest_def)
  then obtain b where b: "m_hAvail (srv j) = Sig b" "sem_val s b = 0" "m_hAvail (cl j) = m_hAvail (srv j)"
    by (auto simp: at_rest_def same_channel_def)
  with h \<open>apart (srv i) (srv j)\<close> have "b \<noteq> a" "b \<noteq> g" by (auto simp: apart_def)
  with b t show ?thesis by (simp add: turn_env_idle)
qed

lemma peers_env_posted:
  fixes s :: "(nat \<Rightarrow> 'q, 'z) world_scheme"
  assumes rest: "channels_rest I srv cl s" and i: "i \<in> I" and order: "i \<in> set order" "set order \<subseteq> I"
    and p: "m_pBuf (srv i) = Some p" and h: "m_hAvail (srv i) = Sig a" "m_hSignal (srv i) = Sig g"
    and f: "h i m (peer s i) = Ret r q"
  shows "peers_env h cl order d (sent_state p a m s) =
    (after_exchange r ((peer s)(i := q)) p s)\<lparr>sem_val := (sem_val s)(a := 0, g := 1)\<rparr>"
proof -
  from rest i p h have c: "m_hAvail (cl i) = Sig a" "m_hSignal (cl i) = Sig g" "m_pBuf (cl i) = Some p" "a \<noteq> g"
      "0 < shm_size (shm_objs s p)" "sem_val s a = 0" "sem_val s g = 0"
    by (auto simp: channels_rest_def at_rest_def same_channel_def)
  define posted where "posted = sent_state p a m s"
  define answered where "answered = (after_exchange r ((peer s)(i := q)) p s)\<lparr>sem_val := (sem_val s)(a := 0, g := 1)\<rparr>"
  have vals: "sem_val posted = (sem_val s)(a := 1, g := 0)" "sem_val answered = (sem_val s)(a := 0, g := 1)"
    using c by (simp_all add: posted_def answered_def fun_upd_twist fun_upd_idem)
  have "turn_env (at_peer i (h i)) (cl i) d posted =
      (after_exchange r ((peer s)(i := q)) p posted)\<lparr>sem_val := (sem_val posted)(a := 0, g := 1)\<rparr>"
    by (rule turn_env_posted) (use c f in \<open>simp_all add: at_peer_def posted_def\<close>)
  also have "\<dots> = answered" by (simp add: posted_def answered_def sent_state_def after_exchange_def)
  finally have mine: "turn_env (at_peer i (h i)) (cl i) d posted = answered" .
  have "turn_env (at_peer i (h i)) (cl i) d answered = answered"
    using c vals(2) by (intro turn_env_idle [where a = a]) simp_all
  moreover have "turn_env e (cl j) d answered = answered" if "j \<in> I" "j \<noteq> i" for e j
    by (rule others_idle [OF rest i that h vals(2)])
  ultimately have after: "turn_env (at_peer j (h j)) (cl j) d answered = answered" if "j \<in> I" for j
    using that by (cases "j = i") simp_all
  have before: "turn_env e (cl j) d posted = posted" if "j \<in> I" "j \<noteq> i" for e j
    by (rule others_idle [OF rest i that h vals(1)])
  have still: "fold (\<lambda>j. turn_env (at_peer j (h j)) (cl j) d) js answered = answered" if "set js \<subseteq> I" for js
    using that by (induction js) (simp_all add: after)
  have "fold (\<lambda>j. turn_env (at_peer j (h j)) (cl j) d) js posted = (if i \<in> set js then answered else posted)"
    if "set js \<subseteq> I" for js
    using that
  proof (induction js)
    case (Cons j js)
    then show ?case by (cases "j = i") (simp_all add: mine before still)
  qed simp
  from this [OF order(2)] order(1) show ?thesis by (simp add: peers_env_def posted_def answered_def)
qed

text \<open>A call is answered by the process of its channel, and all channels are at rest again.\<close>

lemma call_peer_run:
  fixes s :: "(nat \<Rightarrow> 'q, 'z) world_scheme"
  assumes rest: "channels_rest I srv cl s" and i: "i \<in> I" and order: "i \<in> set order" "set order \<subseteq> I"
    and f: "h i m (peer s i) = Ret r q"
  shows "\<exists>s'. call_peer h srv cl (i, order, m) s = Ret (Some r) s' \<and> channels_rest I srv cl s' \<and>
    peer s' = (peer s)(i := q)"
proof -
  from rest i obtain p a g where c: "m_pBuf (srv i) = Some p" "m_hAvail (srv i) = Sig a" "m_hSignal (srv i) = Sig g" "a \<noteq> g"
      "0 < shm_size (shm_objs s p)" "sem_val s a = 0" "sem_val s g = 0" "\<not> refuse s (OpSemWait g)"
    by (auto simp: channels_rest_def at_rest_def)
  let ?t = "(after_exchange r ((peer s)(i := q)) p s)\<lparr>sem_val := (sem_val s)(a := 0, g := 1)\<rparr>"
  have env: "peers_env h cl order d (sent_state p a m s) = ?t" for d
    using rest i order c(1-3) f by (rule peers_env_posted)
  have "IpcServer_send (peers_env h cl order) (srv i) m INFINITE s = Ret (Some p) (sem_take g ?t)"
    by (rule send_answered [where t = ?t, OF c deadline_valid_INFINITE]) (simp_all add: env)
  moreover have "sem_take g ?t = after_exchange r ((peer s)(i := q)) p s"
    using c by (simp add: sem_take_def after_exchange_def fun_upd_idem)
  ultimately have "call_peer h srv cl (i, order, m) s = Ret (Some r) (after_exchange r ((peer s)(i := q)) p s)"
    using load_after_exchange [OF c(5)] by (simp add: call_peer_def exchange_def)
  then show ?thesis using rest by auto
qed

section \<open>Any number of calls\<close>

text \<open>
  The specification of several of a kind: the one that is called answers and the others are as before.
  A list of calls is then, for each of them, its own calls.
\<close>

definition each_spec :: "(nat \<Rightarrow> 'c \<Rightarrow> 'a \<Rightarrow> 'r \<times> 'a) \<Rightarrow> nat \<times> 'c \<Rightarrow> (nat \<Rightarrow> 'a) \<Rightarrow> 'r \<times> (nat \<Rightarrow> 'a)" where
  "each_spec spec call q = (case call of (i, c) \<Rightarrow> let (r, a) = spec i c (q i) in (r, q(i := a)))"

definition calls_of :: "nat \<Rightarrow> (nat \<times> 'c) list \<Rightarrow> 'c list" where
  "calls_of i cs = map snd (filter (\<lambda>c. fst c = i) cs)"

definition results_of :: "nat \<Rightarrow> (nat \<times> 'c) list \<Rightarrow> 'r list \<Rightarrow> 'r list" where
  "results_of i cs rs = map snd (filter (\<lambda>(c, _). fst c = i) (zip cs rs))"

lemma of_index_simps [simp]:
  "calls_of i [] = []" "results_of i [] rs = []"
  "calls_of i ((j, c) # cs) = (if j = i then c # calls_of i cs else calls_of i cs)"
  "results_of i ((j, c) # cs) (r # rs) = (if j = i then r # results_of i cs rs else results_of i cs rs)"
  by (simp_all add: calls_of_def results_of_def)

lemma each_projects:
  "results_of i cs (fst (spec_all (each_spec spec) cs q)) = fst (spec_all (spec i) (calls_of i cs) (q i)) \<and>
   snd (spec_all (each_spec spec) cs q) i = snd (spec_all (spec i) (calls_of i cs) (q i))"
proof (induction cs arbitrary: q)
  case (Cons c cs)
  obtain j x where "c = (j, x)" by (cases c)
  with Cons.IH [of "q(j := snd (spec j x (q j)))"] show ?case
    by (cases "j = i") (simp_all add: each_spec_def case_prod_beta Let_def fun_upd_same fun_upd_other del: fun_upd_apply)
qed simp

lemma each_ok:
  assumes "list_all (\<lambda>(i, _). i \<in> I) cs" and "\<And>i. i \<in> I \<Longrightarrow> all_ok (ok i) (spec i) (calls_of i cs) (q i)"
  shows "all_ok (\<lambda>(i, c) q. i \<in> I \<and> ok i c (q i)) (each_spec spec) cs q"
  using assms
proof (induction cs arbitrary: q)
  case (Cons c cs)
  obtain j x where c: "c = (j, x)" by (cases c)
  with Cons.prems have j: "j \<in> I" and ok: "ok j x (q j)" using Cons.prems(2) [of j] by simp_all
  have "all_ok (ok i) (spec i) (calls_of i cs) ((q(j := snd (spec j x (q j)))) i)" if "i \<in> I" for i
    using Cons.prems(2) [OF that] c by (cases "i = j") simp_all
  with Cons.IH [of "q(j := snd (spec j x (q j)))"] Cons.prems(1) c j ok show ?case
    by (simp add: each_spec_def case_prod_beta Let_def del: fun_upd_apply)
qed simp

text \<open>The processes, of which number \<open>i\<close> computes \<open>f i\<close>.\<close>

definition peer_spec ::
  "(nat \<Rightarrow> 'q \<Rightarrow> SharedFmiMessage \<Rightarrow> SharedFmiMessage \<times> 'q) \<Rightarrow> nat \<Rightarrow> nat list \<times> SharedFmiMessage \<Rightarrow> 'q \<Rightarrow>
   SharedFmiMessage option \<times> 'q" where
  "peer_spec f i c q = (let (r, q') = f i q (snd c) in (Some r, q'))"

definition peers_ok :: "nat set \<Rightarrow> nat \<times> nat list \<times> SharedFmiMessage \<Rightarrow> (nat \<Rightarrow> 'q) \<Rightarrow> bool" where
  "peers_ok I call q \<longleftrightarrow> (case call of (i, order, m) \<Rightarrow> i \<in> set order \<and> set order \<subseteq> I)"

definition answers_as ::
  "(nat \<Rightarrow> 'q \<Rightarrow> SharedFmiMessage \<Rightarrow> SharedFmiMessage \<times> 'q) \<Rightarrow> nat \<Rightarrow> SharedFmiMessage \<Rightarrow> (SharedFmiMessage, 'q) prog" where
  "answers_as f i m q = Ret (fst (f i q m)) (snd (f i q m))"

interpretation peers: call_refinement "call_peer (answers_as f) srv cl" "each_spec (peer_spec f)" "peers_ok I"
    "\<lambda>s q. channels_rest I srv cl s \<and> peer s = q"
  for f :: "nat \<Rightarrow> 'q \<Rightarrow> SharedFmiMessage \<Rightarrow> SharedFmiMessage \<times> 'q" and srv cl I
proof unfold_locales
  fix s :: "(nat \<Rightarrow> 'q, 'z) world_scheme" and q and c :: "nat \<times> nat list \<times> SharedFmiMessage"
  assume "channels_rest I srv cl s \<and> peer s = q" and "peers_ok I c q"
  moreover obtain i order m where c: "c = (i, order, m)" by (cases c)
  ultimately show "\<exists>s'. call_peer (answers_as f) srv cl c s = Ret (fst (each_spec (peer_spec f) c q)) s' \<and>
      channels_rest I srv cl s' \<and> peer s' = snd (each_spec (peer_spec f) c q)"
    using call_peer_run [of I srv cl s i order "answers_as f" m "fst (f i (q i) m)" "snd (f i (q i) m)"]
    by (auto simp: answers_as_def peers_ok_def each_spec_def peer_spec_def case_prod_beta Let_def)
qed

lemma peer_spec_serve:
  "spec_all (peer_spec f i) cs q = (map Some (fst (serve (f i) q (map snd cs))), snd (serve (f i) q (map snd cs)))"
  by (induction cs arbitrary: q) (simp_all add: peer_spec_def case_prod_beta Let_def)

section \<open>Opening them\<close>

text \<open>One channel after the other, each server followed by its client.\<close>

fun open_channels :: "unix \<Rightarrow> string list \<Rightarrow> 'a os_scheme \<Rightarrow> (IpcServer \<times> IpcClient) list \<times> 'a os_scheme" where
  "open_channels u [] s = ([], s)"
| "open_channels u (key # keys) s =
     (case IpcServer_create u (IpcServer_new 0 key) s of (_, srv, s) \<Rightarrow>
      case IpcClient_connect u (IpcClient_new 0 key) s of (_, cl, s) \<Rightarrow>
      case open_channels u keys s of (cs, s) \<Rightarrow> ((srv, cl) # cs, s))"

text \<open>Keys under which no two channels use the same name, and none its own twice.\<close>

definition names_apart :: "unix \<Rightarrow> string \<Rightarrow> string \<Rightarrow> bool" where
  "names_apart u a b \<longleftrightarrow>
     getMappedName u SHARED_MEM_BASE_NAME a \<noteq> getMappedName u SHARED_MEM_BASE_NAME b \<and>
     signal_names u a \<inter> signal_names u b = {}"

definition keys_apart :: "unix \<Rightarrow> string list \<Rightarrow> bool" where
  "keys_apart u keys \<longleftrightarrow> list_all (signal_names_distinct u) keys \<and> sorted_wrt (names_apart u) keys"

definition name_free :: "unix \<Rightarrow> 'a os_scheme \<Rightarrow> string \<Rightarrow> bool" where
  "name_free u s key \<longleftrightarrow> shm_names s (getMappedName u SHARED_MEM_BASE_NAME key) = None"

text \<open>A channel that is open.\<close>

definition channel_open :: "unix \<Rightarrow> string \<Rightarrow> IpcServer \<Rightarrow> IpcClient \<Rightarrow> 'a os_scheme \<Rightarrow> bool" where
  "channel_open u key srv cl s \<longleftrightarrow> m_name srv = key \<and> server_ready u srv s \<and> at_rest srv cl s"

lemma channel_open_fds [simp]:
  "channel_open u key srv cl (s\<lparr>fds := f, next_fd := n\<rparr>) = channel_open u key srv cl s"
  by (simp add: channel_open_def server_ready_def at_rest_def)

lemma create_keeps_server:
  assumes wf: "os_wf s" and ready: "server_ready u srv s" and free: "name_free u s (m_name srv0)"
    and names: "names_apart u (m_name srv) (m_name srv0)" and c: "IpcServer_create u srv0 s = (True, srv', s')"
  shows "server_ready u srv s'" and "m_pBuf srv = Some p \<Longrightarrow> shm_objs s' p = shm_objs s p"
    and "h \<in> {m_hAvail srv, m_hSignal srv} \<Longrightarrow> h = Sig a \<Longrightarrow> sem_val s' a = sem_val s a" and "apart srv srv'"
proof -
  have free': "shm_names s (getMappedName u SHARED_MEM_BASE_NAME (m_name srv0)) = None" using free by (simp add: name_free_def)
  have nm: "shm_names s (getMappedName u SHARED_MEM_BASE_NAME (m_name srv0)) \<noteq> m_pBuf srv"
    using ready free' by (auto simp: server_ready_def)
  show "server_ready u srv s'" and "m_pBuf srv = Some p \<Longrightarrow> shm_objs s' p = shm_objs s p"
    using create_keeps_other [OF wf ready c _ nm] names by (auto simp: names_apart_def)
  from ready obtain b q g where h: "m_pBuf srv = Some q" "m_hAvail srv = Sig b" "m_hSignal srv = Sig g"
      "shm_names s (getMappedName u SHARED_MEM_BASE_NAME (m_name srv)) = Some q"
      "sem_names s (getMappedName u SIGNAL_NAME (m_name srv)) = Some g"
      "sem_names s (getMappedName u SIGNAL_AVALIABLE_NAME (m_name srv)) = Some b"
    by (auto simp: server_ready_def)
  with wf have old: "q < next_obj s" "g < next_sem s" "b < next_sem s" by (auto simp: os_wf_def)
  note new = create_new_objects [OF free' c]
  from old h new(4) show "h \<in> {m_hAvail srv, m_hSignal srv} \<Longrightarrow> h = Sig a \<Longrightarrow> sem_val s' a = sem_val s a" by auto
  from new(1-3) old h show "apart srv srv'" by (fastforce simp: apart_def)
qed

lemma create_keeps_open:
  assumes "os_wf s" and "channel_open u key srv cl s" and "name_free u s (m_name srv0)"
    and "names_apart u key (m_name srv0)" and "IpcServer_create u srv0 s = (True, srv', s')" and "refuse s' = refuse s"
  shows "channel_open u key srv cl s'" and "apart srv srv'"
proof -
  from assms(2) have ready: "server_ready u srv s" and rest: "at_rest srv cl s" and nm: "m_name srv = key"
    by (simp_all add: channel_open_def)
  note new = create_keeps_server [OF assms(1) ready assms(3) assms(4) [folded nm] assms(5)]
  from rest obtain p a g where "m_pBuf srv = Some p" "m_hAvail srv = Sig a" "m_hSignal srv = Sig g" by (auto simp: at_rest_def)
  with rest new(1) new(2) [of p] new(3) [of _ a] new(3) [of _ g] nm assms(6) show "channel_open u key srv cl s'"
    by (auto simp: channel_open_def at_rest_def)
  show "apart srv srv'" by (rule new(4))
qed

lemma open_one:
  assumes wf: "os_wf s" and willing: "\<And>op. \<not> refuse s op" and "signal_names_distinct u key"
    and c: "IpcServer_create u (IpcServer_new 0 key) s = (ok, srv, s1)"
    and d: "IpcClient_connect u (IpcClient_new 0 key) s1 = (ok', cl, s2)"
  shows "ok" and "channel_open u key srv cl s2" and "os_wf s2" and "refuse s2 = refuse s" and "refuse s1 = refuse s"
    and "s2 = s1\<lparr>fds := fds s2, next_fd := next_fd s2\<rparr>" and "os.more s2 = os.more s"
proof -
  have n: "m_name (IpcServer_new 0 key) = key" by simp
  from created_fresh [OF wf willing assms(3) n c] have fresh: "server_fresh u key srv s1" and ok: ok by simp_all
  then show ok by simp
  from fresh have ready: "server_ready u srv s1" "os_wf s1" "m_name (IpcClient_new 0 key) = m_name srv" "\<And>op. \<not> refuse s1 op"
    by (simp_all add: server_fresh_def)
  from server_ready_connect [OF ready d] have "same_channel srv cl" "server_ready u srv s2" by simp_all
  moreover from fresh connect_frame [OF d] have "\<exists>p a g. m_pBuf srv = Some p \<and> m_hAvail srv = Sig a \<and> m_hSignal srv = Sig g \<and>
      a \<noteq> g \<and> 0 < shm_size (shm_objs s2 p) \<and> sem_val s2 a = 0 \<and> sem_val s2 g = 0 \<and> \<not> refuse s2 (OpSemWait g)"
    by (auto simp: server_fresh_def server_ready_def)
  ultimately show "channel_open u key srv cl s2"
    using fresh by (simp add: channel_open_def at_rest_def server_fresh_def)
  show "os_wf s2" by (rule connect_wf [OF d ready(2)])
  show s2: "s2 = s1\<lparr>fds := fds s2, next_fd := next_fd s2\<rparr>" by (rule connect_state [OF d])
  have r: "\<not> refuse s1 op" for op using fresh by (simp add: server_fresh_def)
  with willing show "refuse s1 = refuse s" by (simp add: fun_eq_iff)
  then show "refuse s2 = refuse s" using connect_frame(5) [OF d] by simp
  have "os.more s2 = os.more s1" by (subst s2) simp
  then show "os.more s2 = os.more s" using more_create [OF c] by simp
qed

lemma create_keeps_free:
  assumes "IpcServer_create u srv0 s = (ok, srv, s')" and "names_apart u (m_name srv0) key'"
  shows "name_free u s' key' = name_free u s key'"
  using assms(1)
proof (rule IpcServer_create_split)
  fix srv1 s1 assume 1: "create_shm u srv0 s = (True, srv1, s1)" and 2: "create_signals u srv1 s1 = (ok, srv, s')"
  from create_shm_names [OF 1, of "getMappedName u SHARED_MEM_BASE_NAME key'"] create_signals_ok(6) [OF 2] assms(2)
  show ?thesis by (auto simp: name_free_def names_apart_def)
next
  assume "create_shm u srv0 s = (False, srv, s')"
  from create_shm_names [OF this, of "getMappedName u SHARED_MEM_BASE_NAME key'"] assms(2)
  show ?thesis by (auto simp: name_free_def names_apart_def)
qed

text \<open>All of them end up open and apart, also from those that were open before.\<close>

lemma open_channels_run:
  assumes "os_wf s" and "\<And>op. \<not> refuse s op" and "keys_apart u keys" and "list_all (name_free u s) keys"
    and "open_channels u keys s = (cs, t)"
  shows "list_all2 (\<lambda>key (srv, cl). channel_open u key srv cl t) keys cs \<and> sorted_wrt apart (map fst cs) \<and>
    os.more t = os.more s \<and>
    (\<forall>key srv cl. channel_open u key srv cl s \<longrightarrow> list_all (names_apart u key) keys \<longrightarrow>
       channel_open u key srv cl t \<and> list_all (\<lambda>c. apart srv (fst c)) cs)"
  using assms
proof (induction keys arbitrary: s cs)
  case (Cons key keys)
  obtain ok srv s1 where c: "IpcServer_create u (IpcServer_new 0 key) s = (ok, srv, s1)" by (metis prod_cases3)
  obtain ok' cl s2 where d: "IpcClient_connect u (IpcClient_new 0 key) s1 = (ok', cl, s2)" by (metis prod_cases3)
  obtain cs' t' where e: "open_channels u keys s2 = (cs', t')" by (cases "open_channels u keys s2")
  with Cons.prems c d have cs: "cs = (srv, cl) # cs'" "t' = t" by auto
  from Cons.prems have keys: "signal_names_distinct u key" "list_all (names_apart u key) keys" "keys_apart u keys"
    by (auto simp: keys_apart_def list_all_iff)
  note one = open_one [OF Cons.prems(1,2) keys(1) c d]
  have c: "IpcServer_create u (IpcServer_new 0 key) s = (True, srv, s1)" using c one(1) by simp
  have "name_free u s2 k" if "k \<in> set keys" for k
    using create_keeps_free [OF c, of k] connect_frame(1) [OF d] that keys(2) Cons.prems(4)
    by (auto simp: list_all_iff name_free_def)
  then have "list_all (name_free u s2) keys" by (simp add: list_all_iff)
  note rest = Cons.IH [OF one(3) _ keys(3) this e [unfolded cs(2)], simplified one(4), OF Cons.prems(2)]
  have "channel_open u key' srv' cl' t \<and> list_all (\<lambda>c. apart srv' (fst c)) cs"
    if "channel_open u key' srv' cl' s" "list_all (names_apart u key') (key # keys)" for key' srv' cl'
  proof -
    have "name_free u s key" "names_apart u key' key" using Cons.prems(4) that(2) by simp_all
    from create_keeps_open [OF Cons.prems(1) that(1) _ _ c one(5)] this
    have "channel_open u key' srv' cl' s1" "apart srv' srv" by simp_all
    then have "channel_open u key' srv' cl' s2" by (subst one(6)) simp
    with rest that(2) \<open>apart srv' srv\<close> show ?thesis by (simp add: cs)
  qed
  with rest one(2,7) keys(2) show ?case by (auto simp: cs list_all_iff)
qed simp

lemma apart_sym: "apart a b = apart b a"
  by (auto simp: apart_def)

lemma open_channels_rest:
  assumes "os_wf s" and "\<And>op. \<not> refuse s op" and "keys_apart u keys" and "list_all (name_free u s) keys"
    and "open_channels u keys s = (cs, t)"
  shows "channels_rest {..<length keys} (\<lambda>i. fst (cs ! i)) (\<lambda>i. snd (cs ! i)) t" and "os.more t = os.more s"
proof -
  from open_channels_run [OF assms] have o: "list_all2 (\<lambda>key (srv, cl). channel_open u key srv cl t) keys cs"
    "sorted_wrt apart (map fst cs)" "os.more t = os.more s" by simp_all
  then have n: "length cs = length keys" by (auto dest: list_all2_lengthD)
  have "apart (fst (cs ! i)) (fst (cs ! j))" if "i < length keys" "j < length keys" "i \<noteq> j" for i j
    using sorted_wrt_nth_less [OF o(2), of i j] sorted_wrt_nth_less [OF o(2), of j i] that n apart_sym
    by (cases "i < j") auto
  moreover have "at_rest (fst (cs ! i)) (snd (cs ! i)) t" if "i < length keys" for i
    using list_all2_nthD [OF o(1) that] by (simp add: channel_open_def case_prod_beta)
  ultimately show "channels_rest {..<length keys} (\<lambda>i. fst (cs ! i)) (\<lambda>i. snd (cs ! i)) t" and "os.more t = os.more s"
    using o(3) by (simp_all add: channels_rest_def)
qed

lemma all_peers_ok: "list_all (\<lambda>c. peers_ok I c q) cs \<Longrightarrow> all_ok (peers_ok I) (each_spec spec) cs q'"
  by (induction cs arbitrary: q') (simp_all add: peers_ok_def)

section \<open>Properties\<close>

text \<open>
  C12: Several channels do not disturb each other: servers and clients that meet under keys whose names
  are free and do not collide end up on separate channels, and any interleaving of requests on them, with
  the processes at the other ends running in any order while a server waits, returns for each channel what
  its own process would have answered to its own requests alone.
\<close>

theorem channels_independent:
  fixes s :: "(nat \<Rightarrow> 'q, 'z) world_scheme"
  assumes "os_wf s" and "\<And>op. \<not> refuse s op" and "keys_apart u keys" and "list_all (name_free u s) keys"
    and "open_channels u keys s = (cs, s')"
    and "list_all (\<lambda>(i, order, m). i \<in> set order \<and> set order \<subseteq> {..<length keys}) calls"
  shows "\<exists>rs t. run_all (call_peer (answers_as f) (\<lambda>i. fst (cs ! i)) (\<lambda>i. snd (cs ! i))) calls s' = Ret rs t \<and>
    length cs = length keys \<and>
    (\<forall>i. results_of i calls rs = map Some (fst (serve (f i) (peer s i) (map snd (calls_of i calls)))))"
proof -
  note rest = open_channels_rest [OF assms(1-5)]
  have "length cs = length keys"
    using open_channels_run [OF assms(1-5)] by (auto dest: list_all2_lengthD)
  moreover have "peer s' = peer s" using rest(2) by (cases s; cases s'; simp)
  moreover have ok: "list_all (\<lambda>c. peers_ok {..<length keys} c (peer s')) calls"
    using assms(6) by (simp add: peers_ok_def)
  moreover obtain t where "run_all (call_peer (answers_as f) (\<lambda>i. fst (cs ! i)) (\<lambda>i. snd (cs ! i))) calls s' =
      Ret (fst (spec_all (each_spec (peer_spec f)) calls (peer s'))) t"
    using peers.run_refines [OF conjI [OF rest(1) refl] all_peers_ok [OF ok]] by blast
  ultimately show ?thesis
    using each_projects [of _ calls "peer_spec f" "peer s"] by (simp add: peer_spec_serve)
qed

text \<open>Two channels, whose processes count their requests; the second is asked between two requests to the first.\<close>

definition counting :: "nat \<Rightarrow> nat \<Rightarrow> SharedFmiMessage \<Rightarrow> SharedFmiMessage \<times> nat" where
  "counting i q m = (m\<lparr>cmd := of_nat q\<rparr>, Suc q)"

definition ex_calls_two :: "(nat \<times> nat list \<times> SharedFmiMessage) list" where
  "ex_calls_two = map (\<lambda>(i, order). (i, order, SharedFmiMessage_zero)) [(0, [1, 0]), (1, [0, 1]), (0, [0])]"

definition ex_two :: "(nat \<Rightarrow> nat) world" where
  "ex_two = os.extend os_init (world.fields (\<lambda>i. 10 * i + 5))"

lemma ex_two_facts: "os_wf ex_two" "\<not> refuse ex_two op" "keys_apart Linux [''a'', ''b'']"
    "list_all (name_free Linux ex_two) [''a'', ''b'']"
  by (simp_all add: ex_two_def os_wf_def os_init_def os.defs world.defs keys_apart_def signal_names_distinct_Linux
      names_apart_def signal_names_def connect_names_def base_names name_free_def)

theorem channels_independent_witness:
  "\<exists>rs t. run_all (call_peer (answers_as counting) (\<lambda>i. fst (fst (open_channels Linux [''a'', ''b''] ex_two) ! i))
      (\<lambda>i. snd (fst (open_channels Linux [''a'', ''b''] ex_two) ! i))) ex_calls_two
      (snd (open_channels Linux [''a'', ''b''] ex_two)) = Ret rs t \<and>
    map (map (\<lambda>r. cmd (the r))) [results_of 0 ex_calls_two rs, results_of 1 ex_calls_two rs] = [[5, 6], [15]]"
proof -
  have calls: "list_all (\<lambda>(i, order, m). i \<in> set order \<and> set order \<subseteq> {..<length [''a'', ''b'']}) ex_calls_two"
    by (simp add: ex_calls_two_def)
  have p: "peer ex_two 0 = 5" "peer ex_two 1 = 15" by (simp_all add: ex_two_def os.defs world.defs)
  from channels_independent [OF ex_two_facts surjective_pairing calls, of counting] obtain rs t where
    run: "run_all (call_peer (answers_as counting) (\<lambda>i. fst (fst (open_channels Linux [''a'', ''b''] ex_two) ! i))
      (\<lambda>i. snd (fst (open_channels Linux [''a'', ''b''] ex_two) ! i))) ex_calls_two
      (snd (open_channels Linux [''a'', ''b''] ex_two)) = Ret rs t"
    and rs: "\<And>i. results_of i ex_calls_two rs = map Some (fst (serve (counting i) (peer ex_two i) (map snd (calls_of i ex_calls_two))))"
    by auto
  have "map (map (\<lambda>r. cmd (the r))) [results_of 0 ex_calls_two rs, results_of 1 ex_calls_two rs] = [[5, 6], [15]]"
    using p by (simp add: rs) (simp add: ex_calls_two_def counting_def)
  with run show ?thesis by (intro exI [of _ rs] exI [of _ t] conjI)
qed

end
