(* ===== verification/FmuLoader.thy ===== *)
theory FmuLoader
  imports ShmPrelude
begin

text \<open>
  The loader of the integration tests (testfmu-integration/fmu-loader.c): how the functions of an FMU
  library are looked up by name and stored in the \<open>FMU\<close> struct (include/fmi2.h), with the function
  types and declarations of the FMI headers they are cast to (fmi2FunctionTypes.h, fmi2Functions.h).
  \<open>dlopen\<close> and \<open>dlsym\<close>, on Windows \<open>LoadLibrary\<close> and \<open>GetProcAddress\<close>, are parameters; an address is a
  number, with 0 for \<open>NULL\<close>.
\<close>

section \<open>The FMU struct and the function types\<close>

text \<open>The struct has the library's handle and one function pointer per member.\<close>

datatype FMU_function =
  getTypesPlatform | getVersion | setDebugLogging | instantiate | freeInstance | setupExperiment
  | enterInitializationMode | exitInitializationMode | terminate | reset | getReal | getInteger
  | getBoolean | getString | setReal | setInteger | setBoolean | setString | getFMUstate
  | setFMUstate | freeFMUstate | serializedFMUstateSize | serializeFMUstate | deSerializeFMUstate
  | getDirectionalDerivative | setRealInputDerivatives | getRealOutputDerivatives | doStep
  | cancelStep | getStatus | getRealStatus | getIntegerStatus | getBooleanStatus | getStringStatus
  | getMaxStepsize | enterEventMode | newDiscreteStates | enterContinuousTimeMode
  | completedIntegratorStep | setTime | setContinuousStates | getDerivatives | getEventIndicators
  | getContinuousStates | getNominalsOfContinuousStates

record FMU =
  dllHandle :: nat
  pointer :: "FMU_function \<Rightarrow> nat"

text \<open>The type each member is declared with.\<close>

definition FMU_members :: "(string \<times> FMU_function) list" where
  "FMU_members =
   [(''fmi2GetTypesPlatformTYPE'', getTypesPlatform), (''fmi2GetVersionTYPE'', getVersion),
    (''fmi2SetDebugLoggingTYPE'', setDebugLogging), (''fmi2InstantiateTYPE'', instantiate),
    (''fmi2FreeInstanceTYPE'', freeInstance), (''fmi2SetupExperimentTYPE'', setupExperiment),
    (''fmi2EnterInitializationModeTYPE'', enterInitializationMode),
    (''fmi2ExitInitializationModeTYPE'', exitInitializationMode), (''fmi2TerminateTYPE'', terminate),
    (''fmi2ResetTYPE'', reset), (''fmi2GetRealTYPE'', getReal), (''fmi2GetIntegerTYPE'', getInteger),
    (''fmi2GetBooleanTYPE'', getBoolean), (''fmi2GetStringTYPE'', getString),
    (''fmi2SetRealTYPE'', setReal), (''fmi2SetIntegerTYPE'', setInteger),
    (''fmi2SetBooleanTYPE'', setBoolean), (''fmi2SetStringTYPE'', setString),
    (''fmi2GetFMUstateTYPE'', getFMUstate), (''fmi2SetFMUstateTYPE'', setFMUstate),
    (''fmi2FreeFMUstateTYPE'', freeFMUstate), (''fmi2SerializedFMUstateSizeTYPE'', serializedFMUstateSize),
    (''fmi2SerializeFMUstateTYPE'', serializeFMUstate),
    (''fmi2DeSerializeFMUstateTYPE'', deSerializeFMUstate),
    (''fmi2GetDirectionalDerivativeTYPE'', getDirectionalDerivative),
    (''fmi2SetRealInputDerivativesTYPE'', setRealInputDerivatives),
    (''fmi2GetRealOutputDerivativesTYPE'', getRealOutputDerivatives), (''fmi2DoStepTYPE'', doStep),
    (''fmi2CancelStepTYPE'', cancelStep), (''fmi2GetStatusTYPE'', getStatus),
    (''fmi2GetRealStatusTYPE'', getRealStatus), (''fmi2GetIntegerStatusTYPE'', getIntegerStatus),
    (''fmi2GetBooleanStatusTYPE'', getBooleanStatus), (''fmi2GetStringStatusTYPE'', getStringStatus),
    (''fmi2GetMaxStepsizeTYPE'', getMaxStepsize), (''fmi2EnterEventModeTYPE'', enterEventMode),
    (''fmi2NewDiscreteStatesTYPE'', newDiscreteStates),
    (''fmi2EnterContinuousTimeModeTYPE'', enterContinuousTimeMode),
    (''fmi2CompletedIntegratorStepTYPE'', completedIntegratorStep), (''fmi2SetTimeTYPE'', setTime),
    (''fmi2SetContinuousStatesTYPE'', setContinuousStates), (''fmi2GetDerivativesTYPE'', getDerivatives),
    (''fmi2GetEventIndicatorsTYPE'', getEventIndicators),
    (''fmi2GetContinuousStatesTYPE'', getContinuousStates),
    (''fmi2GetNominalsOfContinuousStatesTYPE'', getNominalsOfContinuousStates)]"

text \<open>The C types of the parameters and results; \<open>PtrConst\<close> is a pointer to, or an array of, constants.\<close>

datatype c_type =
  CVoid | CChar | CComponent | CBoolean | CSize | CString | CType | CCallbackFunctions | CReal | CInteger
  | CValueReference | CFMUstate | CByte | CEventInfo | CStatusKind | CStatus
  | Ptr c_type | PtrConst c_type

text \<open>The typedefs: result and parameters.\<close>

definition fmi2FunctionTypes :: "(string \<times> c_type \<times> c_type list) list" where
  "fmi2FunctionTypes =
   [(''fmi2GetTypesPlatformTYPE'', PtrConst CChar, []), (''fmi2GetVersionTYPE'', PtrConst CChar, []),
    (''fmi2SetDebugLoggingTYPE'', CStatus, [CComponent, CBoolean, CSize, PtrConst CString]),
    (''fmi2InstantiateTYPE'', CComponent,
       [CString, CType, CString, CString, PtrConst CCallbackFunctions, CBoolean, CBoolean]),
    (''fmi2FreeInstanceTYPE'', CVoid, [CComponent]),
    (''fmi2SetupExperimentTYPE'', CStatus, [CComponent, CBoolean, CReal, CReal, CBoolean, CReal]),
    (''fmi2EnterInitializationModeTYPE'', CStatus, [CComponent]),
    (''fmi2ExitInitializationModeTYPE'', CStatus, [CComponent]),
    (''fmi2TerminateTYPE'', CStatus, [CComponent]), (''fmi2ResetTYPE'', CStatus, [CComponent]),
    (''fmi2GetRealTYPE'', CStatus, [CComponent, PtrConst CValueReference, CSize, Ptr CReal]),
    (''fmi2GetIntegerTYPE'', CStatus, [CComponent, PtrConst CValueReference, CSize, Ptr CInteger]),
    (''fmi2GetBooleanTYPE'', CStatus, [CComponent, PtrConst CValueReference, CSize, Ptr CBoolean]),
    (''fmi2GetStringTYPE'', CStatus, [CComponent, PtrConst CValueReference, CSize, Ptr CString]),
    (''fmi2SetRealTYPE'', CStatus, [CComponent, PtrConst CValueReference, CSize, PtrConst CReal]),
    (''fmi2SetIntegerTYPE'', CStatus, [CComponent, PtrConst CValueReference, CSize, PtrConst CInteger]),
    (''fmi2SetBooleanTYPE'', CStatus, [CComponent, PtrConst CValueReference, CSize, PtrConst CBoolean]),
    (''fmi2SetStringTYPE'', CStatus, [CComponent, PtrConst CValueReference, CSize, PtrConst CString]),
    (''fmi2GetFMUstateTYPE'', CStatus, [CComponent, Ptr CFMUstate]),
    (''fmi2SetFMUstateTYPE'', CStatus, [CComponent, CFMUstate]),
    (''fmi2FreeFMUstateTYPE'', CStatus, [CComponent, Ptr CFMUstate]),
    (''fmi2SerializedFMUstateSizeTYPE'', CStatus, [CComponent, CFMUstate, Ptr CSize]),
    (''fmi2SerializeFMUstateTYPE'', CStatus, [CComponent, CFMUstate, Ptr CByte, CSize]),
    (''fmi2DeSerializeFMUstateTYPE'', CStatus, [CComponent, PtrConst CByte, CSize, Ptr CFMUstate]),
    (''fmi2GetDirectionalDerivativeTYPE'', CStatus,
       [CComponent, PtrConst CValueReference, CSize, PtrConst CValueReference, CSize, PtrConst CReal, Ptr CReal]),
    (''fmi2GetMaxStepsizeTYPE'', CStatus, [CComponent, Ptr CReal]),
    (''fmi2EnterEventModeTYPE'', CStatus, [CComponent]),
    (''fmi2NewDiscreteStatesTYPE'', CStatus, [CComponent, Ptr CEventInfo]),
    (''fmi2EnterContinuousTimeModeTYPE'', CStatus, [CComponent]),
    (''fmi2CompletedIntegratorStepTYPE'', CStatus, [CComponent, CBoolean, Ptr CBoolean, Ptr CBoolean]),
    (''fmi2SetTimeTYPE'', CStatus, [CComponent, CReal]),
    (''fmi2SetContinuousStatesTYPE'', CStatus, [CComponent, PtrConst CReal, CSize]),
    (''fmi2GetDerivativesTYPE'', CStatus, [CComponent, Ptr CReal, CSize]),
    (''fmi2GetEventIndicatorsTYPE'', CStatus, [CComponent, Ptr CReal, CSize]),
    (''fmi2GetContinuousStatesTYPE'', CStatus, [CComponent, Ptr CReal, CSize]),
    (''fmi2GetNominalsOfContinuousStatesTYPE'', CStatus, [CComponent, Ptr CReal, CSize]),
    (''fmi2SetRealInputDerivativesTYPE'', CStatus,
       [CComponent, PtrConst CValueReference, CSize, PtrConst CInteger, PtrConst CReal]),
    (''fmi2GetRealOutputDerivativesTYPE'', CStatus,
       [CComponent, PtrConst CValueReference, CSize, PtrConst CInteger, Ptr CReal]),
    (''fmi2DoStepTYPE'', CStatus, [CComponent, CReal, CReal, CBoolean]),
    (''fmi2CancelStepTYPE'', CStatus, [CComponent]),
    (''fmi2GetStatusTYPE'', CStatus, [CComponent, CStatusKind, Ptr CStatus]),
    (''fmi2GetRealStatusTYPE'', CStatus, [CComponent, CStatusKind, Ptr CReal]),
    (''fmi2GetIntegerStatusTYPE'', CStatus, [CComponent, CStatusKind, Ptr CInteger]),
    (''fmi2GetBooleanStatusTYPE'', CStatus, [CComponent, CStatusKind, Ptr CBoolean]),
    (''fmi2GetStringStatusTYPE'', CStatus, [CComponent, CStatusKind, Ptr CString])]"

text \<open>The functions the header declares as exported, with their types.\<close>

definition fmi2_common :: "(string \<times> string) list" where
  "fmi2_common =
   [(''fmi2GetTypesPlatformTYPE'', ''fmi2GetTypesPlatform''), (''fmi2GetVersionTYPE'', ''fmi2GetVersion''),
    (''fmi2SetDebugLoggingTYPE'', ''fmi2SetDebugLogging''), (''fmi2InstantiateTYPE'', ''fmi2Instantiate''),
    (''fmi2FreeInstanceTYPE'', ''fmi2FreeInstance''),
    (''fmi2SetupExperimentTYPE'', ''fmi2SetupExperiment''),
    (''fmi2EnterInitializationModeTYPE'', ''fmi2EnterInitializationMode''),
    (''fmi2ExitInitializationModeTYPE'', ''fmi2ExitInitializationMode''),
    (''fmi2TerminateTYPE'', ''fmi2Terminate''), (''fmi2ResetTYPE'', ''fmi2Reset''),
    (''fmi2GetRealTYPE'', ''fmi2GetReal''), (''fmi2GetIntegerTYPE'', ''fmi2GetInteger''),
    (''fmi2GetBooleanTYPE'', ''fmi2GetBoolean''), (''fmi2GetStringTYPE'', ''fmi2GetString''),
    (''fmi2SetRealTYPE'', ''fmi2SetReal''), (''fmi2SetIntegerTYPE'', ''fmi2SetInteger''),
    (''fmi2SetBooleanTYPE'', ''fmi2SetBoolean''), (''fmi2SetStringTYPE'', ''fmi2SetString''),
    (''fmi2GetFMUstateTYPE'', ''fmi2GetFMUstate''), (''fmi2SetFMUstateTYPE'', ''fmi2SetFMUstate''),
    (''fmi2FreeFMUstateTYPE'', ''fmi2FreeFMUstate''),
    (''fmi2SerializedFMUstateSizeTYPE'', ''fmi2SerializedFMUstateSize''),
    (''fmi2SerializeFMUstateTYPE'', ''fmi2SerializeFMUstate''),
    (''fmi2DeSerializeFMUstateTYPE'', ''fmi2DeSerializeFMUstate''),
    (''fmi2GetDirectionalDerivativeTYPE'', ''fmi2GetDirectionalDerivative''),
    (''fmi2GetMaxStepsizeTYPE'', ''fmi2GetMaxStepsize'')]"

definition fmi2_modelExchange :: "(string \<times> string) list" where
  "fmi2_modelExchange =
   [(''fmi2EnterEventModeTYPE'', ''fmi2EnterEventMode''),
    (''fmi2NewDiscreteStatesTYPE'', ''fmi2NewDiscreteStates''),
    (''fmi2EnterContinuousTimeModeTYPE'', ''fmi2EnterContinuousTimeMode''),
    (''fmi2CompletedIntegratorStepTYPE'', ''fmi2CompletedIntegratorStep''),
    (''fmi2SetTimeTYPE'', ''fmi2SetTime''), (''fmi2SetContinuousStatesTYPE'', ''fmi2SetContinuousStates''),
    (''fmi2GetDerivativesTYPE'', ''fmi2GetDerivatives''),
    (''fmi2GetEventIndicatorsTYPE'', ''fmi2GetEventIndicators''),
    (''fmi2GetContinuousStatesTYPE'', ''fmi2GetContinuousStates''),
    (''fmi2GetNominalsOfContinuousStatesTYPE'', ''fmi2GetNominalsOfContinuousStates'')]"

definition fmi2_coSimulation :: "(string \<times> string) list" where
  "fmi2_coSimulation =
   [(''fmi2SetRealInputDerivativesTYPE'', ''fmi2SetRealInputDerivatives''),
    (''fmi2GetRealOutputDerivativesTYPE'', ''fmi2GetRealOutputDerivatives''),
    (''fmi2DoStepTYPE'', ''fmi2DoStep''), (''fmi2CancelStepTYPE'', ''fmi2CancelStep''),
    (''fmi2GetStatusTYPE'', ''fmi2GetStatus''), (''fmi2GetRealStatusTYPE'', ''fmi2GetRealStatus''),
    (''fmi2GetIntegerStatusTYPE'', ''fmi2GetIntegerStatus''),
    (''fmi2GetBooleanStatusTYPE'', ''fmi2GetBooleanStatus''),
    (''fmi2GetStringStatusTYPE'', ''fmi2GetStringStatus'')]"

section \<open>What is looked up\<close>

text \<open>
  A row is one assignment of \<open>loadDll\<close>: the member, the type the address is cast to and the name that
  is looked up. First the names of FMI 2.0, then those of its first release candidate.
\<close>

type_synonym loader_row = "FMU_function \<times> string \<times> string"

definition common_rows :: "loader_row list" where
  "common_rows =
   [(getTypesPlatform, ''fmi2GetTypesPlatformTYPE'', ''fmi2GetTypesPlatform''),
    (getVersion, ''fmi2GetVersionTYPE'', ''fmi2GetVersion''),
    (setDebugLogging, ''fmi2SetDebugLoggingTYPE'', ''fmi2SetDebugLogging''),
    (instantiate, ''fmi2InstantiateTYPE'', ''fmi2Instantiate''),
    (freeInstance, ''fmi2FreeInstanceTYPE'', ''fmi2FreeInstance''),
    (setupExperiment, ''fmi2SetupExperimentTYPE'', ''fmi2SetupExperiment''),
    (enterInitializationMode, ''fmi2EnterInitializationModeTYPE'', ''fmi2EnterInitializationMode''),
    (exitInitializationMode, ''fmi2ExitInitializationModeTYPE'', ''fmi2ExitInitializationMode''),
    (terminate, ''fmi2TerminateTYPE'', ''fmi2Terminate''), (reset, ''fmi2ResetTYPE'', ''fmi2Reset''),
    (getReal, ''fmi2GetRealTYPE'', ''fmi2GetReal''),
    (getInteger, ''fmi2GetIntegerTYPE'', ''fmi2GetInteger''),
    (getBoolean, ''fmi2GetBooleanTYPE'', ''fmi2GetBoolean''),
    (getString, ''fmi2GetStringTYPE'', ''fmi2GetString''), (setReal, ''fmi2SetRealTYPE'', ''fmi2SetReal''),
    (setInteger, ''fmi2SetIntegerTYPE'', ''fmi2SetInteger''),
    (setBoolean, ''fmi2SetBooleanTYPE'', ''fmi2SetBoolean''),
    (setString, ''fmi2SetStringTYPE'', ''fmi2SetString''),
    (getFMUstate, ''fmi2GetFMUstateTYPE'', ''fmi2GetFMUstate''),
    (setFMUstate, ''fmi2SetFMUstateTYPE'', ''fmi2SetFMUstate''),
    (freeFMUstate, ''fmi2FreeFMUstateTYPE'', ''fmi2FreeFMUstate''),
    (serializedFMUstateSize, ''fmi2SerializedFMUstateSizeTYPE'', ''fmi2SerializedFMUstateSize''),
    (serializeFMUstate, ''fmi2SerializeFMUstateTYPE'', ''fmi2SerializeFMUstate''),
    (deSerializeFMUstate, ''fmi2DeSerializeFMUstateTYPE'', ''fmi2DeSerializeFMUstate''),
    (getDirectionalDerivative, ''fmi2GetDirectionalDerivativeTYPE'', ''fmi2GetDirectionalDerivative'')]"

definition coSimulation_rows :: "loader_row list" where
  "coSimulation_rows =
   [(setRealInputDerivatives, ''fmi2SetRealInputDerivativesTYPE'', ''fmi2SetRealInputDerivatives''),
    (getRealOutputDerivatives, ''fmi2GetRealOutputDerivativesTYPE'', ''fmi2GetRealOutputDerivatives''),
    (doStep, ''fmi2DoStepTYPE'', ''fmi2DoStep''), (cancelStep, ''fmi2CancelStepTYPE'', ''fmi2CancelStep''),
    (getStatus, ''fmi2GetStatusTYPE'', ''fmi2GetStatus''),
    (getRealStatus, ''fmi2GetRealStatusTYPE'', ''fmi2GetRealStatus''),
    (getIntegerStatus, ''fmi2GetIntegerStatusTYPE'', ''fmi2GetIntegerStatus''),
    (getBooleanStatus, ''fmi2GetBooleanStatusTYPE'', ''fmi2GetBooleanStatus''),
    (getStringStatus, ''fmi2GetStringStatusTYPE'', ''fmi2GetStringStatus'')]"

definition maxStepsize_rows :: "loader_row list" where
  "maxStepsize_rows =
   [(getMaxStepsize, ''fmi2GetMaxStepsizeTYPE'', ''fmi2GetMaxStepsize'')]"

definition modelExchange_rows :: "loader_row list" where
  "modelExchange_rows =
   [(enterEventMode, ''fmi2EnterEventModeTYPE'', ''fmi2EnterEventMode''),
    (newDiscreteStates, ''fmi2NewDiscreteStatesTYPE'', ''fmi2NewDiscreteStates''),
    (enterContinuousTimeMode, ''fmi2EnterContinuousTimeModeTYPE'', ''fmi2EnterContinuousTimeMode''),
    (completedIntegratorStep, ''fmi2CompletedIntegratorStepTYPE'', ''fmi2CompletedIntegratorStep''),
    (setTime, ''fmi2SetTimeTYPE'', ''fmi2SetTime''),
    (setContinuousStates, ''fmi2SetContinuousStatesTYPE'', ''fmi2SetContinuousStates''),
    (getDerivatives, ''fmi2GetDerivativesTYPE'', ''fmi2GetDerivatives''),
    (getEventIndicators, ''fmi2GetEventIndicatorsTYPE'', ''fmi2GetEventIndicators''),
    (getContinuousStates, ''fmi2GetContinuousStatesTYPE'', ''fmi2GetContinuousStates''),
    (getNominalsOfContinuousStates, ''fmi2GetNominalsOfContinuousStatesTYPE'', ''fmi2GetNominalsOfContinuousStates'')]"

definition rc1_common_rows :: "loader_row list" where
  "rc1_common_rows =
   [(getTypesPlatform, ''fmi2GetTypesPlatformTYPE'', ''fmiGetTypesPlatform''),
    (getVersion, ''fmi2GetVersionTYPE'', ''fmiGetVersion''),
    (setDebugLogging, ''fmi2SetDebugLoggingTYPE'', ''fmiSetDebugLogging''),
    (instantiate, ''fmi2InstantiateTYPE'', ''fmiInstantiate''),
    (freeInstance, ''fmi2FreeInstanceTYPE'', ''fmiFreeInstance''),
    (setupExperiment, ''fmi2SetupExperimentTYPE'', ''fmiSetupExperiment''),
    (enterInitializationMode, ''fmi2EnterInitializationModeTYPE'', ''fmiEnterInitializationMode''),
    (exitInitializationMode, ''fmi2ExitInitializationModeTYPE'', ''fmiExitInitializationMode''),
    (terminate, ''fmi2TerminateTYPE'', ''fmiTerminate''), (reset, ''fmi2ResetTYPE'', ''fmiReset''),
    (getReal, ''fmi2GetRealTYPE'', ''fmiGetReal''),
    (getInteger, ''fmi2GetIntegerTYPE'', ''fmiGetInteger''),
    (getBoolean, ''fmi2GetBooleanTYPE'', ''fmiGetBoolean''),
    (getString, ''fmi2GetStringTYPE'', ''fmiGetString''), (setReal, ''fmi2SetRealTYPE'', ''fmiSetReal''),
    (setInteger, ''fmi2SetIntegerTYPE'', ''fmiSetInteger''),
    (setBoolean, ''fmi2SetBooleanTYPE'', ''fmiSetBoolean''),
    (setString, ''fmi2SetStringTYPE'', ''fmiSetString''),
    (getFMUstate, ''fmi2GetFMUstateTYPE'', ''fmiGetFMUstate''),
    (setFMUstate, ''fmi2SetFMUstateTYPE'', ''fmiSetFMUstate''),
    (freeFMUstate, ''fmi2FreeFMUstateTYPE'', ''fmiFreeFMUstate''),
    (serializedFMUstateSize, ''fmi2SerializedFMUstateSizeTYPE'', ''fmiSerializedFMUstateSize''),
    (serializeFMUstate, ''fmi2SerializeFMUstateTYPE'', ''fmiSerializeFMUstate''),
    (deSerializeFMUstate, ''fmi2DeSerializeFMUstateTYPE'', ''fmiDeSerializeFMUstate''),
    (getDirectionalDerivative, ''fmi2GetDirectionalDerivativeTYPE'', ''fmiGetDirectionalDerivative'')]"

definition rc1_coSimulation_rows :: "loader_row list" where
  "rc1_coSimulation_rows =
   [(setRealInputDerivatives, ''fmi2SetRealInputDerivativesTYPE'', ''fmiSetRealInputDerivatives''),
    (getRealOutputDerivatives, ''fmi2GetRealOutputDerivativesTYPE'', ''fmiGetRealOutputDerivatives''),
    (doStep, ''fmi2DoStepTYPE'', ''fmiDoStep''), (cancelStep, ''fmi2CancelStepTYPE'', ''fmiCancelStep''),
    (getStatus, ''fmi2GetStatusTYPE'', ''fmiGetStatus''),
    (getRealStatus, ''fmi2GetRealStatusTYPE'', ''fmiGetRealStatus''),
    (getIntegerStatus, ''fmi2GetIntegerStatusTYPE'', ''fmiGetIntegerStatus''),
    (getBooleanStatus, ''fmi2GetBooleanStatusTYPE'', ''fmiGetBooleanStatus''),
    (getStringStatus, ''fmi2GetStringStatusTYPE'', ''fmiGetStringStatus'')]"

definition rc1_modelExchange_rows :: "loader_row list" where
  "rc1_modelExchange_rows =
   [(enterEventMode, ''fmi2EnterEventModeTYPE'', ''fmiEnterEventMode''),
    (newDiscreteStates, ''fmi2NewDiscreteStatesTYPE'', ''fmiNewDiscreteStates''),
    (enterContinuousTimeMode, ''fmi2EnterContinuousTimeModeTYPE'', ''fmiEnterContinuousTimeMode''),
    (completedIntegratorStep, ''fmi2CompletedIntegratorStepTYPE'', ''fmiCompletedIntegratorStep''),
    (setTime, ''fmi2SetTimeTYPE'', ''fmiSetTime''),
    (setContinuousStates, ''fmi2SetContinuousStatesTYPE'', ''fmiSetContinuousStates''),
    (getDerivatives, ''fmi2GetDerivativesTYPE'', ''fmiGetDerivatives''),
    (getEventIndicators, ''fmi2GetEventIndicatorsTYPE'', ''fmiGetEventIndicators''),
    (getContinuousStates, ''fmi2GetContinuousStatesTYPE'', ''fmiGetContinuousStates''),
    (getNominalsOfContinuousStates, ''fmi2GetNominalsOfContinuousStatesTYPE'', ''fmiGetNominalsOfContinuousStates'')]"

section \<open>Loading\<close>

datatype output_line = Stdout string | Stderr string

text \<open>The local flag, the struct being filled and what has been printed.\<close>

record loading =
  success :: int
  fmu :: FMU
  printed :: "output_line list"

definition not_found :: "string \<Rightarrow> output_line" where
  "not_found functionName = Stdout (''warning: Function '' @ functionName @ '' not found in dll'')"

text \<open>The flag is cleared where the name is unknown, and never set again.\<close>

definition getAdr :: "(nat \<Rightarrow> string \<Rightarrow> nat) \<Rightarrow> nat \<Rightarrow> string \<Rightarrow> loading \<Rightarrow> nat \<times> loading" where
  "getAdr dlsym h functionName l =
     (let fp = dlsym h functionName in
      (fp, if fp = 0 then l\<lparr>success := 0, printed := printed l @ [not_found functionName]\<rparr> else l))"

definition load_row :: "(nat \<Rightarrow> string \<Rightarrow> nat) \<Rightarrow> nat \<Rightarrow> loader_row \<Rightarrow> loading \<Rightarrow> loading" where
  "load_row dlsym h row l =
     (case row of (m, _, name) \<Rightarrow>
        (case getAdr dlsym h name l of
           (fp, l) \<Rightarrow> l\<lparr>fmu := (fmu l)\<lparr>pointer := (pointer (fmu l))(m := fp)\<rparr>\<rparr>))"

definition load_rows :: "(nat \<Rightarrow> string \<Rightarrow> nat) \<Rightarrow> nat \<Rightarrow> loader_row list \<Rightarrow> loading \<Rightarrow> loading" where
  "load_rows dlsym h = fold (load_row dlsym h)"

text \<open>\<open>getMaxStepsize\<close> is looked up with a flag of its own, which nothing reads.\<close>

definition load_optional :: "(nat \<Rightarrow> string \<Rightarrow> nat) \<Rightarrow> nat \<Rightarrow> loader_row list \<Rightarrow> loading \<Rightarrow> loading" where
  "load_optional dlsym h rows l = (load_rows dlsym h rows (l\<lparr>success := 1\<rparr>))\<lparr>success := success l\<rparr>"

definition load_fmi2 :: "bool \<Rightarrow> (nat \<Rightarrow> string \<Rightarrow> nat) \<Rightarrow> nat \<Rightarrow> loading \<Rightarrow> loading" where
  "load_fmi2 cosim dlsym h l =
     (let l = load_rows dlsym h common_rows l in
      if cosim then load_optional dlsym h maxStepsize_rows (load_rows dlsym h coSimulation_rows l)
      else load_rows dlsym h modelExchange_rows l)"

definition rc1_notice :: "string \<Rightarrow> output_line list" where
  "rc1_notice dllPath =
     [Stdout (''warning: Functions from FMI 2.0 could not be found in '' @ dllPath),
      Stdout ''warning: Simulator will look for FMI 2.0 RC1 functions names...'']"

definition load_rc1 :: "bool \<Rightarrow> (nat \<Rightarrow> string \<Rightarrow> nat) \<Rightarrow> nat \<Rightarrow> string \<Rightarrow> loading \<Rightarrow> loading" where
  "load_rc1 cosim dlsym h dllPath l =
     (let l = load_rows dlsym h rc1_common_rows (l\<lparr>printed := printed l @ rc1_notice dllPath\<rparr>) in
      load_rows dlsym h (if cosim then rc1_coSimulation_rows else rc1_modelExchange_rows) l)"

text \<open>
  \<open>cosim\<close> says whether \<open>FMI_COSIMULATION\<close> is defined, as the build does. The result is the flag, the
  handle stored through \<open>hh\<close>, the struct and the output. \<open>dlerror\<close> is the system's own message,
  \<open>None\<close> on Windows, where nothing more is printed.
\<close>

definition loadDll ::
  "bool \<Rightarrow> (string \<Rightarrow> nat) \<Rightarrow> (nat \<Rightarrow> string \<Rightarrow> nat) \<Rightarrow> string option \<Rightarrow> string \<Rightarrow> FMU
   \<Rightarrow> int \<times> nat \<times> FMU \<times> output_line list"
where
  "loadDll cosim dlopen dlsym dlerror dllPath fmu0 =
     (let h = dlopen dllPath in
      if h = 0 then (0, h, fmu0, Stdout (''error: Could not load '' @ dllPath) # (case dlerror of None \<Rightarrow> [] | Some e \<Rightarrow> [Stderr e]))
      else
        let l = load_fmi2 cosim dlsym h \<lparr>success = 1, fmu = fmu0\<lparr>dllHandle := h\<rparr>, printed = []\<rparr>;
            l = (if pointer (fmu l) getVersion = 0 \<and> pointer (fmu l) instantiate = 0
                 then load_rc1 cosim dlsym h dllPath l else l)
        in (success l, h, fmu l, printed l))"

section \<open>What loading does\<close>

text \<open>The rows that are assigned in a build, and whether a library has all their names.\<close>

definition row_names :: "loader_row list \<Rightarrow> string list" where
  "row_names rows = map (\<lambda>(_, _, name). name) rows"

definition missing :: "(nat \<Rightarrow> string \<Rightarrow> nat) \<Rightarrow> nat \<Rightarrow> loader_row list \<Rightarrow> string list" where
  "missing dlsym h rows = filter (\<lambda>name. dlsym h name = 0) (row_names rows)"

definition required_rows :: "bool \<Rightarrow> loader_row list" where
  "required_rows cosim = common_rows @ (if cosim then coSimulation_rows else modelExchange_rows)"

definition optional_rows :: "bool \<Rightarrow> loader_row list" where
  "optional_rows cosim = (if cosim then maxStepsize_rows else [])"

definition rc1_rows :: "bool \<Rightarrow> loader_row list" where
  "rc1_rows cosim = rc1_common_rows @ (if cosim then rc1_coSimulation_rows else rc1_modelExchange_rows)"

text \<open>What a run of assignments leaves in a member: the address of the last row for it.\<close>

definition assigned :: "(nat \<Rightarrow> string \<Rightarrow> nat) \<Rightarrow> nat \<Rightarrow> loader_row list \<Rightarrow> (FMU_function \<Rightarrow> nat) \<Rightarrow> FMU_function \<Rightarrow> nat" where
  "assigned dlsym h rows p m =
     (case map_of (rev rows) m of None \<Rightarrow> p m | Some (_, name) \<Rightarrow> dlsym h name)"

lemma missing_Nil [simp]: "missing dlsym h [] = []"
  by (simp add: missing_def row_names_def)

lemma missing_Cons [simp]:
  "missing dlsym h ((m, ty, name) # rows) = (if dlsym h name = 0 then [name] else []) @ missing dlsym h rows"
  by (simp add: missing_def row_names_def)

lemma missing_append [simp]: "missing dlsym h (xs @ ys) = missing dlsym h xs @ missing dlsym h ys"
  by (simp add: missing_def row_names_def)

lemma assigned_Nil [simp]: "assigned dlsym h [] p = p"
  by (rule ext) (simp add: assigned_def)

lemma assigned_Cons [simp]:
  "assigned dlsym h ((m, ty, name) # rows) p = assigned dlsym h rows (p(m := dlsym h name))"
  by (rule ext) (simp add: assigned_def map_add_def split: option.split)

lemma assigned_append [simp]:
  "assigned dlsym h (xs @ ys) p = assigned dlsym h ys (assigned dlsym h xs p)"
  by (rule ext) (simp add: assigned_def map_add_def split: option.split)

lemma load_row_eq:
  "load_row dlsym h (m, ty, name) l =
     \<lparr>success = (if dlsym h name = 0 then 0 else success l),
      fmu = (fmu l)\<lparr>pointer := (pointer (fmu l))(m := dlsym h name)\<rparr>,
      printed = printed l @ map not_found (missing dlsym h [(m, ty, name)])\<rparr>"
  by (cases l) (simp add: load_row_def getAdr_def Let_def)

lemma load_rows_eq:
  "load_rows dlsym h rows l =
     \<lparr>success = (if missing dlsym h rows = [] then success l else 0),
      fmu = (fmu l)\<lparr>pointer := assigned dlsym h rows (pointer (fmu l))\<rparr>,
      printed = printed l @ map not_found (missing dlsym h rows)\<rparr>"
proof (induction rows arbitrary: l)
  case Nil
  show ?case by (cases l) (simp add: load_rows_def)
next
  case (Cons row rows)
  obtain m ty name where row: "row = (m, ty, name)" by (cases row)
  have "load_rows dlsym h (row # rows) l = load_rows dlsym h rows (load_row dlsym h row l)"
    by (simp add: load_rows_def)
  then show ?case by (simp add: Cons.IH row load_row_eq fun_upd_def)
qed

lemma load_fmi2_eq:
  "load_fmi2 cosim dlsym h l =
     \<lparr>success = (if missing dlsym h (required_rows cosim) = [] then success l else 0),
      fmu = (fmu l)\<lparr>pointer := assigned dlsym h (required_rows cosim @ optional_rows cosim) (pointer (fmu l))\<rparr>,
      printed = printed l @ map not_found (missing dlsym h (required_rows cosim @ optional_rows cosim))\<rparr>"
  by (cases cosim) (auto simp: load_fmi2_def load_optional_def required_rows_def optional_rows_def load_rows_eq Let_def)

lemma load_rc1_eq:
  "load_rc1 cosim dlsym h path l =
     \<lparr>success = (if missing dlsym h (rc1_rows cosim) = [] then success l else 0),
      fmu = (fmu l)\<lparr>pointer := assigned dlsym h (rc1_rows cosim) (pointer (fmu l))\<rparr>,
      printed = printed l @ rc1_notice path @ map not_found (missing dlsym h (rc1_rows cosim))\<rparr>"
  by (auto simp: load_rc1_def rc1_rows_def load_rows_eq Let_def)

text \<open>Facts about the tables, each by evaluation.\<close>

lemma rows_entry:
  "map_of (rev (required_rows cosim @ optional_rows cosim)) getVersion = Some (''fmi2GetVersionTYPE'', ''fmi2GetVersion'')"
  "map_of (rev (required_rows cosim @ optional_rows cosim)) instantiate = Some (''fmi2InstantiateTYPE'', ''fmi2Instantiate'')"
  by (cases cosim; simp add: required_rows_def optional_rows_def common_rows_def coSimulation_rows_def
      modelExchange_rows_def maxStepsize_rows_def)+

text \<open>Neither of the two entry points has its name in FMI 2.0.\<close>

definition pre_release :: "(nat \<Rightarrow> string \<Rightarrow> nat) \<Rightarrow> nat \<Rightarrow> bool" where
  "pre_release dlsym h \<longleftrightarrow> dlsym h ''fmi2GetVersion'' = 0 \<and> dlsym h ''fmi2Instantiate'' = 0"

lemma pre_release_iff:
  "assigned dlsym h (required_rows cosim @ optional_rows cosim) p getVersion = 0 \<and>
   assigned dlsym h (required_rows cosim @ optional_rows cosim) p instantiate = 0 \<longleftrightarrow> pre_release dlsym h"
  unfolding assigned_def rows_entry by (simp add: pre_release_def)

lemma pre_release_missing: "pre_release dlsym h \<Longrightarrow> missing dlsym h (required_rows cosim) \<noteq> []"
  by (simp add: required_rows_def common_rows_def pre_release_def)

lemma loadDll_eq:
  assumes "h = dlopen path" and "h \<noteq> 0"
  shows "loadDll cosim dlopen dlsym err path fmu0 =
    (if missing dlsym h (required_rows cosim) = [] then 1 else 0, h,
     \<lparr>dllHandle = h, pointer = assigned dlsym h (required_rows cosim @ optional_rows cosim @
        (if pre_release dlsym h then rc1_rows cosim else [])) (pointer fmu0)\<rparr>,
     map not_found (missing dlsym h (required_rows cosim @ optional_rows cosim)) @
       (if pre_release dlsym h then rc1_notice path @ map not_found (missing dlsym h (rc1_rows cosim)) else []))"
  using assms pre_release_iff [of dlsym h cosim "pointer fmu0"] pre_release_missing [of dlsym h cosim]
  by (simp add: loadDll_def Let_def load_fmi2_eq load_rc1_eq)

section \<open>The tables against the headers\<close>

definition FMU_type :: "FMU_function \<Rightarrow> string" where
  "FMU_type m = (case find (\<lambda>x. snd x = m) FMU_members of None \<Rightarrow> [] | Some (ty, _) \<Rightarrow> ty)"

text \<open>A function type is named after its function: \<open>fmi2ResetTYPE\<close> is the type of \<open>fmi2Reset\<close>.\<close>

definition symbol :: "FMU_function \<Rightarrow> string" where
  "symbol m = take (length (FMU_type m) - length ''TYPE'') (FMU_type m)"

text \<open>The first release candidate had the prefix \<open>fmi\<close> for \<open>fmi2\<close>.\<close>

definition rc1_symbol :: "FMU_function \<Rightarrow> string" where
  "rc1_symbol m = ''fmi'' @ drop (length ''fmi2'') (symbol m)"

definition row_of :: "FMU_function \<Rightarrow> loader_row" where
  "row_of m = (m, FMU_type m, symbol m)"

definition rc1_row_of :: "FMU_function \<Rightarrow> loader_row" where
  "rc1_row_of m = (m, FMU_type m, rc1_symbol m)"

definition members_of :: "loader_row list \<Rightarrow> FMU_function list" where
  "members_of rows = map fst rows"

lemma required_rows_of: "required_rows c = map row_of (members_of (required_rows c))"
  by (cases c; simp; code_simp)

lemma optional_rows_of: "optional_rows c = map row_of (members_of (optional_rows c))"
  by (cases c; simp; code_simp)

lemma rc1_rows_of: "rc1_rows c = map rc1_row_of (members_of (required_rows c))"
  by (cases c; simp; code_simp)

lemma map_of_rows:
  "map_of (rev (map (\<lambda>m. (m, f m)) ms)) m = (if m \<in> set ms then Some (f m) else None)"
  by (induction ms) (auto simp: map_add_def split: option.split)

lemma assigned_rows:
  "assigned dlsym h (map row_of ms) p m = (if m \<in> set ms then dlsym h (symbol m) else p m)"
  "assigned dlsym h (map rc1_row_of ms) p m = (if m \<in> set ms then dlsym h (rc1_symbol m) else p m)"
  by (simp_all add: assigned_def row_of_def [abs_def] rc1_row_of_def [abs_def] map_of_rows)

text \<open>Which members a build fills, and which names it needs.\<close>

definition of_other_build :: "bool \<Rightarrow> FMU_function \<Rightarrow> bool" where
  "of_other_build cosim m \<longleftrightarrow>
     m \<in> set (members_of (if cosim then modelExchange_rows else coSimulation_rows @ maxStepsize_rows))"

lemma members_filled:
  "m \<in> set (members_of (required_rows c)) \<longleftrightarrow> m \<noteq> getMaxStepsize \<and> \<not> of_other_build c m"
  "m \<in> set (members_of (optional_rows c)) \<longleftrightarrow> m = getMaxStepsize \<and> \<not> of_other_build c m"
  by (cases c; cases m; simp add: of_other_build_def members_of_def required_rows_def optional_rows_def
      common_rows_def coSimulation_rows_def modelExchange_rows_def maxStepsize_rows_def)+

text \<open>The functions a build's header declares, all but the one that INTO-CPS added.\<close>

definition declared_names :: "bool \<Rightarrow> string list" where
  "declared_names cosim =
     filter (\<lambda>name. name \<noteq> ''fmi2GetMaxStepsize'')
       (map snd (fmi2_common @ (if cosim then fmi2_coSimulation else fmi2_modelExchange)))"

lemma required_names: "row_names (required_rows c) = declared_names c"
  by (cases c; simp; code_simp)

lemma missing_required: "missing dlsym h (required_rows c) = filter (\<lambda>name. dlsym h name = 0) (declared_names c)"
  by (simp add: missing_def required_names)

section \<open>Properties\<close>

text \<open>
  C20: A library loads (the result is one) exactly when it opens and every function that the FMI 2.0
  header declares for the build, \<open>fmi2GetMaxStepsize\<close> excepted, is found in it; in every other case the
  result is zero, so a library with only the names of the release candidate, for which the loader has a
  second pass, never loads.
\<close>

theorem loadDll_result:
  "fst (loadDll cosim dlopen dlsym err path fmu0) =
     (if dlopen path \<noteq> 0 \<and> filter (\<lambda>name. dlsym (dlopen path) name = 0) (declared_names cosim) = [] then 1 else 0)"
proof (cases "dlopen path = 0")
  case True
  then show ?thesis by (simp add: loadDll_def)
next
  case False
  then show ?thesis by (simp add: loadDll_eq [OF refl] missing_required)
qed

text \<open>
  What a library that opens leaves in the struct: its handle, and in every member of the build the
  address of the function of its declared type, under its FMI 2.0 name, or under the name of the release
  candidate where neither \<open>fmi2GetVersion\<close> nor \<open>fmi2Instantiate\<close> was found (\<open>getMaxStepsize\<close> has no such
  name); the members of the other build keep what was in the memory of the struct.
\<close>

theorem loadDll_pointers:
  assumes "dlopen path = h" and "h \<noteq> 0"
  shows "fst (snd (snd (loadDll cosim dlopen dlsym err path fmu0))) =
    \<lparr>dllHandle = h, pointer = (\<lambda>m.
       if of_other_build cosim m then pointer fmu0 m
       else if pre_release dlsym h \<and> m \<noteq> getMaxStepsize then dlsym h (rc1_symbol m)
       else dlsym h (symbol m))\<rparr>"
  using assms members_filled [of _ cosim]
  by (simp add: loadDll_eq fun_eq_iff assigned_rows [where ms = "members_of (required_rows cosim)", folded required_rows_of rc1_rows_of]
      assigned_rows(1) [where ms = "members_of (optional_rows cosim)", folded optional_rows_of])

text \<open>The hypotheses hold for a library with every name.\<close>

theorem loadDll_pointers_witness:
  "fst (snd (snd (loadDll True (\<lambda>_. 7) (\<lambda>_ name. length name) (Some '''') ''fmu.so'' \<lparr>dllHandle = 0, pointer = (\<lambda>_. 0)\<rparr>))) =
    \<lparr>dllHandle = 7, pointer = (\<lambda>m.
       if of_other_build True m then pointer \<lparr>dllHandle = 0, pointer = (\<lambda>_. 0)\<rparr> m
       else if pre_release (\<lambda>_ name. length name) 7 \<and> m \<noteq> getMaxStepsize then length (rc1_symbol m)
       else length (symbol m))\<rparr>"
  by (rule loadDll_pointers) simp_all

text \<open>
  Every call through the struct is made with the function's own type: each row casts the address to
  the type its member is declared with, that type has a typedef, the header declares the function that is
  looked up with it, and all members of the struct have exactly one row in some build. The second pass
  casts its functions to the same types, under names that differ in the prefix only.
\<close>

theorem loader_types:
  "list_all (\<lambda>(m, ty, name).
       List.member FMU_members (ty, m) \<and> List.member (map fst fmi2FunctionTypes) ty \<and>
       List.member (fmi2_common @ fmi2_coSimulation @ fmi2_modelExchange) (ty, name))
     (common_rows @ coSimulation_rows @ maxStepsize_rows @ modelExchange_rows) \<and>
   members_of (common_rows @ coSimulation_rows @ maxStepsize_rows @ modelExchange_rows) = map snd FMU_members \<and>
   rc1_rows cosim = map (\<lambda>(m, ty, name). (m, ty, ''fmi'' @ drop 4 name)) (required_rows cosim)"
proof -
  have "rc1_rows cosim = map (\<lambda>(m, ty, name). (m, ty, ''fmi'' @ drop 4 name)) (map row_of (members_of (required_rows cosim)))"
    by (simp add: rc1_rows_of row_of_def rc1_row_of_def rc1_symbol_def eval_nat_numeral)
  moreover have "list_all (\<lambda>(m, ty, name).
       List.member FMU_members (ty, m) \<and> List.member (map fst fmi2FunctionTypes) ty \<and>
       List.member (fmi2_common @ fmi2_coSimulation @ fmi2_modelExchange) (ty, name))
     (common_rows @ coSimulation_rows @ maxStepsize_rows @ modelExchange_rows)"
    by code_simp
  moreover have "members_of (common_rows @ coSimulation_rows @ maxStepsize_rows @ modelExchange_rows) = map snd FMU_members"
    by (simp add: members_of_def common_rows_def coSimulation_rows_def maxStepsize_rows_def modelExchange_rows_def FMU_members_def)
  ultimately show ?thesis by (simp flip: required_rows_of)
qed

text \<open>
  The library built from this program, which defines every function its header declares for
  co-simulation (fmu.cpp), loads without a warning and leaves no member of the build null.
\<close>

theorem own_library_loads:
  assumes "dlopen path = h" and "h \<noteq> 0"
    and "list_all (\<lambda>(_, name). dlsym h name \<noteq> 0) (fmi2_common @ fmi2_coSimulation)"
  shows "\<exists>f. loadDll True dlopen dlsym err path fmu0 = (1, h, \<lparr>dllHandle = h, pointer = f\<rparr>, []) \<and>
    filter (\<lambda>m. f m = 0) (members_of (common_rows @ coSimulation_rows @ maxStepsize_rows)) = []"
proof -
  have no: "missing dlsym h (common_rows @ coSimulation_rows @ maxStepsize_rows) = []"
    using assms(3) by (simp add: common_rows_def coSimulation_rows_def maxStepsize_rows_def fmi2_common_def fmi2_coSimulation_def)
  then have "\<not> pre_release dlsym h" using pre_release_missing [of dlsym h True] by (auto simp: required_rows_def)
  moreover have "filter (\<lambda>m. assigned dlsym h (common_rows @ coSimulation_rows @ maxStepsize_rows) p m = 0)
      (members_of (common_rows @ coSimulation_rows @ maxStepsize_rows)) = []" for p
    using assms(3) by (simp add: members_of_def common_rows_def coSimulation_rows_def maxStepsize_rows_def fmi2_common_def fmi2_coSimulation_def)
  ultimately show ?thesis
    using assms(1,2) no by (simp add: loadDll_eq required_rows_def optional_rows_def)
qed

theorem own_library_loads_witness:
  "\<exists>f. loadDll True (\<lambda>_. 7) (\<lambda>_ name. length name) (Some '''') ''fmu.so'' \<lparr>dllHandle = 0, pointer = (\<lambda>_. 0)\<rparr> =
      (1, 7, \<lparr>dllHandle = 7, pointer = f\<rparr>, []) \<and>
    filter (\<lambda>m. f m = 0) (members_of (common_rows @ coSimulation_rows @ maxStepsize_rows)) = []"
  by (rule own_library_loads) (simp_all add: fmi2_common_def fmi2_coSimulation_def)

end
