(* ===== verification/IntegrationDriver.thy ===== *)
theory IntegrationDriver
  imports RemoteTestDriver
begin

text \<open>
  The peer of the integration tests (testfmu-integration/RemoteTestDriver.cpp, run in a loop by
  runner/testrunner.cpp): the driver of \<open>RemoteTestDriver\<close>, except that it keeps one client for all
  messages, presets a value of each type before every message, and ends when it is told to free
  the instance.
\<close>

section \<open>The driver\<close>

definition realIdGet :: nat where "realIdGet = 10"
definition intIdGet :: nat where "intIdGet = 11"
definition boolIdGet :: nat where "boolIdGet = 12"
definition stringIdGet :: nat where "stringIdGet = 13"

lemmas preset_ids = realIdGet_def intIdGet_def boolIdGet_def stringIdGet_def

text \<open>The assignments at the beginning; 9.9 is its bit pattern.\<close>

definition it_preset :: "test_driver \<Rightarrow> test_driver" where
  "it_preset q = q\<lparr>reals := (reals q)[realIdGet := 0x4023CCCCCCCCCCCD], ints := (ints q)[intIdGet := 1],
     bools := (bools q)[boolIdGet := True], strings := (strings q)[stringIdGet := ''undefined'']\<rparr>"

text \<open>The new client of an attempt: its id is 88, and it prints when there is a file \<open>DEBUG\<close>.\<close>

definition it_client :: "bool \<Rightarrow> string \<Rightarrow> IpcClient" where
  "it_client DEBUG shmKey =
     (let c = IpcClient_new 88 shmKey in if DEBUG then enableConsoleDebug c else c)"

text \<open>
  How a call of the function ends: still trying to connect, with the client it keeps, or not at all
  because the process exits.
\<close>

datatype driver_run = Connecting | Served IpcClient | Exited

text \<open>
  Waiting for a message and answering it. The cases of the \<open>switch\<close> are those of the other driver,
  but for \<open>fmi2FreeInstance\<close>, which deletes the client and exits without an answer.
\<close>

definition it_turn ::
  "unix \<Rightarrow> (pb_msg \<Rightarrow> byte list) \<Rightarrow> (pb_kind \<Rightarrow> byte list \<Rightarrow> pb_msg) \<Rightarrow> ((test_driver, 'z) world_scheme) env \<Rightarrow>
   IpcClient \<Rightarrow> (driver_run, (test_driver, 'z) world_scheme) prog"
where
  "it_turn u ser parse env client =
     andThen (getMessage env client 0) (\<lambda>r.
     andThen (need NullDeref r) (\<lambda>p.
     andThen (load_msg p) (\<lambda>msg s.
       if cmd msg = cmd_code cmd_fmi2FreeInstance
       then andThen (IpcClient_delete u client) (\<lambda>_. ret Exited) s
       else case td_handle ser parse msg (peer s) of
         Fault e \<Rightarrow> Fault e
       | Blocks \<Rightarrow> Blocks
       | Ret reply q \<Rightarrow> andThen (sendReply client reply) (\<lambda>_. ret (Served client)) (s\<lparr>peer := q\<rparr>))))"

text \<open>The function: \<open>n\<close> bounds the attempts to connect that are looked at.\<close>

definition it_remoteTestDriver ::
  "unix \<Rightarrow> (pb_msg \<Rightarrow> byte list) \<Rightarrow> (pb_kind \<Rightarrow> byte list \<Rightarrow> pb_msg) \<Rightarrow> ((test_driver, 'z) world_scheme) env \<Rightarrow>
   bool \<Rightarrow> string \<Rightarrow> nat \<Rightarrow> IpcClient option \<Rightarrow> (driver_run, (test_driver, 'z) world_scheme) prog"
where
  "it_remoteTestDriver u ser parse env DEBUG shmKey n globalClient s =
     andThen (case globalClient of
                Some c \<Rightarrow> ret (Some c)
              | None \<Rightarrow> connect_loop u env (it_client DEBUG shmKey) n) (\<lambda>c. case c of
       None \<Rightarrow> ret Connecting
     | Some client \<Rightarrow> it_turn u ser parse env client) (s\<lparr>peer := it_preset (peer s)\<rparr>)"

text \<open>With the client of earlier calls forgotten.\<close>

definition it_remoteTestDriverSingle ::
  "unix \<Rightarrow> (pb_msg \<Rightarrow> byte list) \<Rightarrow> (pb_kind \<Rightarrow> byte list \<Rightarrow> pb_msg) \<Rightarrow> ((test_driver, 'z) world_scheme) env \<Rightarrow>
   bool \<Rightarrow> string \<Rightarrow> nat \<Rightarrow> (driver_run, (test_driver, 'z) world_scheme) prog"
where
  "it_remoteTestDriverSingle u ser parse env DEBUG shmKey n =
     it_remoteTestDriver u ser parse env DEBUG shmKey n None"

text \<open>
  The test runner: the key is its first argument, and it calls the driver for ever; \<open>k\<close> bounds the
  calls looked at.
\<close>

definition runner_key :: "string list \<Rightarrow> string" where
  "runner_key argv = (if 1 < length argv then argv ! 1 else ''shmFmiTest'')"

fun runner_loop ::
  "unix \<Rightarrow> (pb_msg \<Rightarrow> byte list) \<Rightarrow> (pb_kind \<Rightarrow> byte list \<Rightarrow> pb_msg) \<Rightarrow> ((test_driver, 'z) world_scheme) env \<Rightarrow>
   bool \<Rightarrow> string \<Rightarrow> nat \<Rightarrow> nat \<Rightarrow> IpcClient option \<Rightarrow> (driver_run, (test_driver, 'z) world_scheme) prog"
where
  "runner_loop u ser parse env DEBUG name n 0 gc =
     ret (case gc of None \<Rightarrow> Connecting | Some c \<Rightarrow> Served c)"
| "runner_loop u ser parse env DEBUG name n (Suc k) gc =
     andThen (it_remoteTestDriver u ser parse env DEBUG name n gc) (\<lambda>r. case r of
       Served c \<Rightarrow> runner_loop u ser parse env DEBUG name n k (Some c)
     | r \<Rightarrow> ret r)"

definition testrunner_main ::
  "unix \<Rightarrow> (pb_msg \<Rightarrow> byte list) \<Rightarrow> (pb_kind \<Rightarrow> byte list \<Rightarrow> pb_msg) \<Rightarrow> ((test_driver, 'z) world_scheme) env \<Rightarrow>
   bool \<Rightarrow> string list \<Rightarrow> nat \<Rightarrow> nat \<Rightarrow> (driver_run, (test_driver, 'z) world_scheme) prog"
where
  "testrunner_main u ser parse env DEBUG argv n k = runner_loop u ser parse env DEBUG (runner_key argv) n k None"

section \<open>The driver as a peer of the proxy\<close>

text \<open>As a handler it presets before it answers, and never answers a request to free.\<close>

definition it_handle ::
  "(pb_msg \<Rightarrow> byte list) \<Rightarrow> (pb_kind \<Rightarrow> byte list \<Rightarrow> pb_msg) \<Rightarrow> SharedFmiMessage \<Rightarrow>
   (SharedFmiMessage, test_driver) prog"
where
  "it_handle ser parse msg q =
     (if cmd msg = cmd_code cmd_fmi2FreeInstance then Blocks else td_handle ser parse msg (it_preset q))"

text \<open>A call with a message waiting is the handler's turn, unless it is the last one.\<close>

lemma it_remoteTestDriver_turn:
  assumes "m_hAvail cl = Sig a" and "0 < sem_val s a" and "m_pBuf cl = Some p"
    and "cmd (message (shm_mem (shm_objs s p))) \<noteq> cmd_code cmd_fmi2FreeInstance"
    and "client_turn (it_handle ser parse) cl s = Ret () t"
  shows "it_remoteTestDriver u ser parse (\<lambda>_ s. s) DEBUG shmKey n (Some cl) s = Ret (Served cl) t"
  using assms
  by (auto simp: it_remoteTestDriver_def it_turn_def client_turn_def INFINITE_def getMessage_def signalWait_def
      load_msg_def sem_take_def it_handle_def andThen_def split: outcome.splits if_splits)

lemma it_preset_wf [simp]: "td_wf (it_preset q) = td_wf q"
  by (simp add: it_preset_def td_wf_def)

definition it_serves ::
  "(pb_msg \<Rightarrow> byte list) \<Rightarrow> test_driver \<Rightarrow> fmi2Command \<Rightarrow> pb_msg \<Rightarrow> pb_msg \<Rightarrow> test_driver \<Rightarrow> bool"
where
  "it_serves ser q c m r q' \<longleftrightarrow> c \<noteq> cmd_fmi2FreeInstance \<and> td_serves ser (it_preset q) c m r q'"

sublocale protobuf_codec \<subseteq>
  it: proxy_peer "turn_env (it_handle ser parse) cl" px "at_rest (proxy_server px) cl" peer
    "it_handle ser parse" ser parse "it_serves ser" for cl px
proof unfold_locales
  fix q c m r q' sm
  assume s: "it_serves ser q c m r q'" and c: "cmd sm = cmd_code c" and "msg_wf sm" "payload sm = Some (ser m)"
  then have "\<exists>rep. td_handle ser parse sm (it_preset q) = Ret rep q' \<and> payload rep = Some (ser r)"
    by (intro td_handle_run [OF protobuf_codec_axioms]) (simp_all add: it_serves_def)
  moreover have "cmd sm \<noteq> cmd_code cmd_fmi2FreeInstance"
    using s c cmd_code_inject [of c cmd_fmi2FreeInstance] by (auto simp: it_serves_def simp del: cmd_code.simps)
  ultimately show "\<exists>rep. it_handle ser parse sm q = Ret rep q' \<and> payload rep = Some (ser r)"
    by (simp add: it_handle_def)
next
  fix q c m r q'
  assume "it_serves ser q c m r q'"
  then show "kind_of r = reply_kind c \<and> pb_utf8 r"
    by (auto simp: it_serves_def td_serves_def dest: td_answer_class)
qed

text \<open>The proxy's runtime when this driver is at the other end.\<close>

definition it_runtime ::
  "(pb_msg \<Rightarrow> byte list) \<Rightarrow> (pb_kind \<Rightarrow> byte list \<Rightarrow> pb_msg) \<Rightarrow> IpcClient \<Rightarrow>
   ((test_driver, 'z) world_scheme) runtime" where
  "it_runtime ser parse cl = \<lparr>rt_ser = ser, rt_parse = parse, rt_env = turn_env (it_handle ser parse) cl\<rparr>"

context protobuf_codec
begin

lemmas it_send_status = it.send_status [folded it_runtime_def]

lemmas it_set_get = it.set_get [folded it_runtime_def, unfolded status_code.simps, folded Status_Ok_def]

end

text \<open>Fetching from an array of which one element was assigned afterwards.\<close>

lemma td_fetch_update:
  "td_fetch ids arr = Some vs \<Longrightarrow>
   td_fetch ids (arr[j := x]) = Some (map (\<lambda>(i, v). if sint i = int j then x else v) (zip ids vs))"
proof (induction ids arbitrary: vs)
  case Nil
  then show ?case by simp
next
  case (Cons i ids)
  then obtain v us where v: "get_at arr (sint i) = Some v" "td_fetch ids arr = Some us" "vs = v # us"
    by (auto simp: bind_eq_Some_conv)
  then have "get_at (arr[j := x]) (sint i) = Some (if sint i = int j then x else v)"
    by (auto simp: get_at_def nth_list_update split: if_splits)
  with Cons.IH [OF v(2)] v(3) show ?case by simp
qed

section \<open>Properties\<close>

text \<open>
  Through the integration tests' driver a set is read back by a get of the same references with
  one exception: reference 10, which the driver presets before every message, always reads 9.9.
\<close>

theorem integration_set_get_real:
  fixes s :: "(test_driver, 'z) world_scheme"
  assumes "protobuf_codec ser parse" and "at_rest (proxy_server px) cl s" and "td_wf (peer s)"
    and "distinct ids" and "td_ids_ok ids" and "length vs = length ids" and "length out = length ids"
    and "length (ser (Fmi2SetRealRequest ids vs)) \<le> 10000"
    and "length (ser (Fmi2GetRequest ids (of_nat (length ids)))) \<le> 10000"
    and "length (ser (Fmi2GetRealReply (map (\<lambda>(i, v). if sint i = 10 then 0x4023CCCCCCCCCCCD else v) (zip ids vs)))) \<le> 10000"
  shows "\<exists>s1 s2. FmuProxy_fmi2SetReal (it_runtime ser parse cl) px ids (length ids) vs s = Ret px_OK s1 \<and>
    FmuProxy_fmi2GetReal (it_runtime ser parse cl) px ids (length ids) out s1 =
      Ret (px_OK, map (\<lambda>(i, v). if sint i = 10 then 0x4023CCCCCCCCCCCD else v) (zip ids vs)) s2 \<and>
    at_rest (proxy_server px) cl s2"
proof -
  let ?q = "it_preset (peer s)"
  let ?vs' = "map (\<lambda>(i, v). if sint i = 10 then 0x4023CCCCCCCCCCCD else v) (zip ids vs)"
  obtain arr where arr: "td_store ids vs (reals ?q) = Some arr"
    using td_store_defined [OF assms(5), of "reals ?q" vs] assms(3,6) by (auto simp: td_wf_def it_preset_def)
  let ?q1 = "?q\<lparr>reals := arr\<rparr>"
  have set: "it_serves ser (peer s) cmd_fmi2SetReal (Fmi2SetRealRequest ids vs) (Fmi2StatusReply Status_Ok) ?q1"
    unfolding it_serves_def
    by (intro conjI td_serves_intro) (simp_all add: arr pb_utf8_no_strings ser_ok_reply [OF assms(1)])
  have fetch: "td_fetch ids (reals (it_preset ?q1)) = Some ?vs'"
    using td_fetch_update [OF td_store_fetch [OF arr assms(4,6)], of 10 "0x4023CCCCCCCCCCCD"]
    by (simp add: it_preset_def realIdGet_def)
  have get: "it_serves ser ?q1 cmd_fmi2GetReal (Fmi2GetRequest ids (of_nat (length ids)))
      (Fmi2GetRealReply ?vs') (it_preset ?q1)"
    unfolding it_serves_def
    by (intro conjI td_serves_intro) (simp_all add: fetch pb_utf8_no_strings assms(10))
  show ?thesis
    using protobuf_codec.it_set_get [OF assms(1,2), of cmd_fmi2SetReal Fmi2SetRealRequest ids vs _ out ?vs'
        cmd_fmi2GetReal "Fmi2GetRealReply ?vs'" _ real_values] set get assms(6-9)
    unfolding FmuProxy_fmi2SetReal_def FmuProxy_fmi2GetReal_def by fastforce
qed

theorem integration_set_get_real_witness:
  "\<exists>s1 s2. FmuProxy_fmi2SetReal (it_runtime wire_ser wire_parse ends_cl) td_proxy [3, 10] 2 [7, 8]
      (world0 test_driver_init) = Ret px_OK s1 \<and>
    FmuProxy_fmi2GetReal (it_runtime wire_ser wire_parse ends_cl) td_proxy [3, 10] 2 [0, 0] s1 =
      Ret (px_OK, [7, 0x4023CCCCCCCCCCCD]) s2"
proof -
  let ?vs' = "map (\<lambda>(i, v). if sint i = 10 then 0x4023CCCCCCCCCCCD else v) (zip [3, 10 :: c_int] [7, 8 :: c_double])"
  have vs': "?vs' = [7, 0x4023CCCCCCCCCCCD]" by simp
  have "length (wire_ser (Fmi2SetRealRequest [3, 10] [7, 8])) \<le> 10000"
    and "length (wire_ser (Fmi2GetRequest [3, 10] (of_nat 2))) \<le> 10000"
    and "length (wire_ser (Fmi2GetRealReply ?vs')) \<le> 10000"
    by (simp_all add: wire_lengths)
  then show ?thesis
    using integration_set_get_real [OF wire.protobuf_codec_axioms td_proxy_at_rest, of test_driver_init "[3, 10]" "[7, 8]" "[0, 0]"]
    unfolding vs' by (simp add: td_ids_ok_def TD_SIZE_def flip: numeral_2_eq_2) blast
qed

end
