(* ===== verification/TestHarness.thy ===== *)
theory TestHarness
  imports FmuLoader FmuProperties IntegrationDriver
begin

text \<open>
  What the integration tests run the library with (testfmu-integration): the logger they pass to it
  (fmuLogger.c), the resource location (resource_location.cpp), and the two helpers that load,
  instantiate and initialise an FMU (FMULoadHelper.h, FMU_TestsFixture.h). The calls go through the
  pointers that \<open>loadDll\<close> stored, here to the functions of this library.
\<close>

section \<open>The logger\<close>

fun fmi2StatusToString :: "fmi2Status \<Rightarrow> string" where
  "fmi2StatusToString fmi2OK = ''ok''"
| "fmi2StatusToString fmi2Warning = ''warning''"
| "fmi2StatusToString fmi2Discard = ''discard''"
| "fmi2StatusToString fmi2Error = ''error''"
| "fmi2StatusToString fmi2Fatal = ''fatal''"
| "fmi2StatusToString fmi2Pending = ''fmi2Pending''"

text \<open>
  \<open>vsprintf\<close> for the conversions the library logs with: \<open>%s\<close> and \<open>%%\<close>. \<open>None\<close> where C leaves the
  result undefined because an argument is missing, and for the other conversions.
\<close>

fun vsprintf :: "string \<Rightarrow> string list \<Rightarrow> string option" where
  "vsprintf [] args = Some []"
| "vsprintf [c] args = (if c = CHR ''%'' then None else Some [c])"
| "vsprintf (c # d # cs) args =
     (if c \<noteq> CHR ''%'' then map_option (Cons c) (vsprintf (d # cs) args)
      else if d = CHR ''%'' then map_option (Cons d) (vsprintf cs args)
      else if d = CHR ''s'' then
        (case args of [] \<Rightarrow> None | a # as \<Rightarrow> map_option (append (c_str a)) (vsprintf cs as))
      else None)"

definition MAX_MSG_SIZE :: nat where
  "MAX_MSG_SIZE = 1000"

text \<open>
  The line printed. The text is formatted into an array of \<open>MAX_MSG_SIZE\<close> characters without a look
  at its length; the copy that is made of it and freed changes nothing.
\<close>

definition fmuLogger ::
  "nat \<Rightarrow> string option \<Rightarrow> fmi2Status \<Rightarrow> string option \<Rightarrow> string \<Rightarrow> string list \<Rightarrow> (string, 's) prog"
where
  "fmuLogger env instanceName status category fmt args =
     andThen (need BadHandle (vsprintf (c_str fmt) args)) (\<lambda>msg.
     if MAX_MSG_SIZE < length msg + 1 then fail OutOfBounds
     else
       let instanceName = (case instanceName of None \<Rightarrow> ''?'' | Some n \<Rightarrow> c_str n);
           category = (case category of None \<Rightarrow> ''?'' | Some c \<Rightarrow> c_str c)
       in ret (fmi2StatusToString status @ '' '' @ instanceName @ '' ('' @ category @ ''): '' @ msg @ [LF]))"

text \<open>The logger as the callback of a call that the library made.\<close>

definition log_line :: "log_entry \<Rightarrow> (string, 's) prog" where
  "log_line e =
     fmuLogger (log_environment e) (Some (log_instance e)) (log_status e) (Some (log_category e)) (log_format e) (log_args e)"

section \<open>The resource location\<close>

text \<open>\<open>cwd\<close> is what \<open>getcwd\<close> returns, \<open>None\<close> for an error.\<close>

fun getResourceLocation :: "platform \<Rightarrow> string option \<Rightarrow> string option" where
  "getResourceLocation p None = None"
| "getResourceLocation Unix (Some cwd) = Some (''file:'' @ cwd)"
| "getResourceLocation Windows (Some cwd) =
     Some (''file:/'' @ map (\<lambda>c. if c = CHR 0x5C then CHR ''/'' else c) cwd)"

section \<open>The load helper\<close>

text \<open>
  \<open>comp\<close> is the component, \<open>expected\<close> the outcome of every \<open>EXPECT_EQ\<close> so far, which a test goes on after.
\<close>

record helper =
  loaded :: FMU
  m_callback :: "callbacks option"
  comp :: "nat option"
  expected :: "bool list"

definition expect :: "bool \<Rightarrow> 'h helper_scheme \<Rightarrow> 'h helper_scheme" where
  "expect b hp = hp\<lparr>expected := expected hp @ [b]\<rparr>"

text \<open>The configuration file it writes; \<open>driver\<close> is \<open>TEST_RUNNER_DRIVER_PATH\<close> where it is defined.\<close>

definition helper_config :: "string option \<Rightarrow> string" where
  "helper_config driver = ''false'' @ [LF] @ (case driver of None \<Rightarrow> [] | Some d \<Rightarrow> d) @ [LF]"

text \<open>
  Loading: the second component is what is written to \<open>config.txt\<close>, if it can be opened for writing.
\<close>

definition helper_load ::
  "bool \<Rightarrow> string option \<Rightarrow> (string \<Rightarrow> nat) \<Rightarrow> (nat \<Rightarrow> string \<Rightarrow> nat) \<Rightarrow> string option \<Rightarrow> string \<Rightarrow> 'h helper_scheme \<Rightarrow>
   'h helper_scheme \<times> string option"
where
  "helper_load is_open driver dlopen dlsym dlerror FMULIB hp =
     (let myfile = (if is_open then Some (helper_config driver) else None)
      in case loadDll True dlopen dlsym dlerror FMULIB (loaded hp) of
        (r, _, f, _) \<Rightarrow> (expect (r = 1) (hp\<lparr>loaded := f\<rparr>), myfile))"

text \<open>A call through a function pointer of the struct.\<close>

definition through :: "FMU \<Rightarrow> FMU_function \<Rightarrow> ('r, 's) prog \<Rightarrow> ('r, 's) prog" where
  "through f m call = (if pointer f m = 0 then fail NullDeref else call)"

definition GUID :: string where
  "GUID = ''{GUID}''"

text \<open>
  The logger's environment is the string of the location, at address \<open>env_addr\<close>; \<open>0.1\<close> and \<open>1.0\<close> are
  their bit patterns.
\<close>

definition helper_instantiate ::
  "unix \<Rightarrow> (('p, 'z) fmu_world_scheme) runtime \<Rightarrow> inst_os \<Rightarrow> string option \<Rightarrow> nat \<Rightarrow> string \<Rightarrow> helper \<Rightarrow>
   (helper, ('p, 'z) fmu_world_scheme) prog"
where
  "helper_instantiate u rt ios cwd env_addr name hp =
     (let callback = \<lparr>has_logger = True, cb_environment = env_addr\<rparr>;
          hp = hp\<lparr>m_callback := Some callback\<rparr>
      in andThen (need NullDeref (getResourceLocation Unix cwd)) (\<lambda>location.
         andThen (through (loaded hp) instantiate
           (fmi2Instantiate u rt ios name GUID location (Some callback) 1 1)) (\<lambda>c.
         ret (hp\<lparr>comp := c\<rparr>))))"

definition helper_setup ::
  "(('p, 'z) fmu_world_scheme) runtime \<Rightarrow> 'h helper_scheme \<Rightarrow> ('h helper_scheme, ('p, 'z) fmu_world_scheme) prog"
where
  "helper_setup rt hp =
     andThen (through (loaded hp) setupExperiment
       (fmi2SetupExperiment rt (comp hp) 1 0x3FB999999999999A 0 1 0x3FF0000000000000)) (\<lambda>status.
     ret (expect (status = fmi2OK) hp))"

definition helper_enter ::
  "(('p, 'z) fmu_world_scheme) runtime \<Rightarrow> 'h helper_scheme \<Rightarrow> ('h helper_scheme, ('p, 'z) fmu_world_scheme) prog"
where
  "helper_enter rt hp =
     andThen (through (loaded hp) enterInitializationMode (fmi2EnterInitializationMode rt (comp hp))) (\<lambda>status.
     ret (expect (status = fmi2OK) hp))"

definition helper_exit ::
  "(('p, 'z) fmu_world_scheme) runtime \<Rightarrow> 'h helper_scheme \<Rightarrow> ('h helper_scheme, ('p, 'z) fmu_world_scheme) prog"
where
  "helper_exit rt hp =
     andThen (through (loaded hp) exitInitializationMode (fmi2ExitInitializationMode rt (comp hp))) (\<lambda>status.
     ret (expect (status = fmi2OK) hp))"

definition helper_setuped ::
  "unix \<Rightarrow> (('p, 'z) fmu_world_scheme) runtime \<Rightarrow> inst_os \<Rightarrow> string option \<Rightarrow> nat \<Rightarrow> string \<Rightarrow> helper \<Rightarrow>
   (helper, ('p, 'z) fmu_world_scheme) prog"
where
  "helper_setuped u rt ios cwd env_addr name hp =
     andThen (helper_instantiate u rt ios cwd env_addr name hp) (helper_setup rt)"

definition helper_initializing ::
  "unix \<Rightarrow> (('p, 'z) fmu_world_scheme) runtime \<Rightarrow> inst_os \<Rightarrow> string option \<Rightarrow> nat \<Rightarrow> string \<Rightarrow> helper \<Rightarrow>
   (helper, ('p, 'z) fmu_world_scheme) prog"
where
  "helper_initializing u rt ios cwd env_addr name hp =
     andThen (helper_setuped u rt ios cwd env_addr name hp) (helper_enter rt)"

definition helper_initialized ::
  "unix \<Rightarrow> (('p, 'z) fmu_world_scheme) runtime \<Rightarrow> inst_os \<Rightarrow> string option \<Rightarrow> nat \<Rightarrow> string \<Rightarrow> helper \<Rightarrow>
   (helper, ('p, 'z) fmu_world_scheme) prog"
where
  "helper_initialized u rt ios cwd env_addr name hp =
     andThen (helper_setuped u rt ios cwd env_addr name hp) (\<lambda>hp.
     andThen (helper_enter rt hp) (helper_exit rt))"

section \<open>The fixture\<close>

text \<open>It differs in the name, which is a macro, in remembering that it instantiated, and in its end.\<close>

record fixture = helper +
  isInstantiated :: bool

definition fixture_SetUp ::
  "bool \<Rightarrow> string option \<Rightarrow> (string \<Rightarrow> nat) \<Rightarrow> (nat \<Rightarrow> string \<Rightarrow> nat) \<Rightarrow> string option \<Rightarrow> string \<Rightarrow> fixture \<Rightarrow>
   fixture \<times> string option"
where
  "fixture_SetUp is_open driver dlopen dlsym dlerror FMULIB fx =
     (let myfile = (if is_open then Some (helper_config driver) else None)
      in case loadDll True dlopen dlsym dlerror FMULIB (loaded fx) of
        (r, _, f, _) \<Rightarrow> (expect (r = 1) (fx\<lparr>loaded := f\<rparr>), myfile))"

definition fixture_instantiated ::
  "unix \<Rightarrow> (('p, 'z) fmu_world_scheme) runtime \<Rightarrow> inst_os \<Rightarrow> string option \<Rightarrow> nat \<Rightarrow> string \<Rightarrow> string \<Rightarrow> fixture \<Rightarrow>
   (fixture, ('p, 'z) fmu_world_scheme) prog"
where
  "fixture_instantiated u rt ios cwd env_addr INSTANCE_NAME guid fx =
     (let callback = \<lparr>has_logger = True, cb_environment = env_addr\<rparr>;
          fx = fx\<lparr>m_callback := Some callback\<rparr>
      in andThen (need NullDeref (getResourceLocation Unix cwd)) (\<lambda>location.
         andThen (through (loaded fx) instantiate
           (fmi2Instantiate u rt ios INSTANCE_NAME guid location (Some callback) 1 1)) (\<lambda>c.
         ret (fx\<lparr>comp := c, isInstantiated := True\<rparr>))))"

text \<open>The calls that follow the instantiation are those of the helper.\<close>

definition fixture_setuped ::
  "unix \<Rightarrow> (('p, 'z) fmu_world_scheme) runtime \<Rightarrow> inst_os \<Rightarrow> string option \<Rightarrow> nat \<Rightarrow> string \<Rightarrow> string \<Rightarrow> fixture \<Rightarrow>
   (fixture, ('p, 'z) fmu_world_scheme) prog"
where
  "fixture_setuped u rt ios cwd env_addr INSTANCE_NAME guid fx =
     andThen (fixture_instantiated u rt ios cwd env_addr INSTANCE_NAME guid fx) (helper_setup rt)"

definition fixture_initializing ::
  "unix \<Rightarrow> (('p, 'z) fmu_world_scheme) runtime \<Rightarrow> inst_os \<Rightarrow> string option \<Rightarrow> nat \<Rightarrow> string \<Rightarrow> string \<Rightarrow> fixture \<Rightarrow>
   (fixture, ('p, 'z) fmu_world_scheme) prog"
where
  "fixture_initializing u rt ios cwd env_addr INSTANCE_NAME guid fx =
     andThen (fixture_setuped u rt ios cwd env_addr INSTANCE_NAME guid fx) (helper_enter rt)"

definition fixture_initialized ::
  "unix \<Rightarrow> (('p, 'z) fmu_world_scheme) runtime \<Rightarrow> inst_os \<Rightarrow> string option \<Rightarrow> nat \<Rightarrow> string \<Rightarrow> string \<Rightarrow> fixture \<Rightarrow>
   (fixture, ('p, 'z) fmu_world_scheme) prog"
where
  "fixture_initialized u rt ios cwd env_addr INSTANCE_NAME guid fx =
     andThen (fixture_setuped u rt ios cwd env_addr INSTANCE_NAME guid fx) (\<lambda>fx.
     andThen (helper_enter rt fx) (helper_exit rt))"

text \<open>\<open>TearDown\<close> frees the component once for having instantiated it, and once more.\<close>

definition fixture_TearDown ::
  "unix \<Rightarrow> (('p, 'z) fmu_world_scheme) runtime \<Rightarrow> fixture \<Rightarrow> (unit, ('p, 'z) fmu_world_scheme) prog"
where
  "fixture_TearDown u rt fx =
     (if dllHandle (loaded fx) \<noteq> 0 \<and> comp fx \<noteq> None then
        andThen (if isInstantiated fx then through (loaded fx) freeInstance (fmi2FreeInstance u rt (comp fx)) else ret ())
          (\<lambda>_. through (loaded fx) freeInstance (fmi2FreeInstance u rt (comp fx)))
      else ret ())"

section \<open>Facts\<close>

lemma vsprintf_plain: "CHR ''%'' \<notin> set fmt \<Longrightarrow> vsprintf fmt args = Some fmt"
  by (induction fmt args rule: vsprintf.induct) auto

lemma getlines_config:
  "plain d \<Longrightarrow> helper_config (Some d) = text_file [] [''false'', d]"
  by (simp add: helper_config_def text_file_def)

text \<open>Programs that change nothing but the log.\<close>

definition logs_only :: "('r, ('p, 'z) fmu_world_scheme) prog \<Rightarrow> 'r \<Rightarrow> bool" where
  "logs_only m r \<longleftrightarrow> (\<forall>s. \<exists>l. m s = Ret r (s\<lparr>logged := l\<rparr>))"

lemma logs_onlyD: "logs_only m r \<Longrightarrow> \<exists>l. m s = Ret r (s\<lparr>logged := l\<rparr>)"
  by (simp add: logs_only_def)

lemma logged_same: "\<exists>l. s = s\<lparr>logged := l\<rparr>"
  by (rule exI [of _ "logged s"]) simp

lemma logs_only_ret: "logs_only (ret r) r"
  by (simp add: logs_only_def logged_same)

lemma logs_only_LOG: "logs_only (if b then LOG f n st cat fmt args else ret ()) ()"
  by (cases f) (auto simp: logs_only_def LOG_def call_logger_def logged_same)

lemma logs_only_then:
  assumes "logs_only m x" and "logs_only (k x) r"
  shows "logs_only (andThen m k) r"
  unfolding logs_only_def
proof
  fix s
  obtain l where l: "m s = Ret x (s\<lparr>logged := l\<rparr>)" using assms(1) by (auto simp: logs_only_def)
  obtain l' where "k x (s\<lparr>logged := l\<rparr>) = Ret r (s\<lparr>logged := l\<rparr>\<lparr>logged := l'\<rparr>)"
    using assms(2) unfolding logs_only_def by blast
  with l show "\<exists>l. andThen m k s = Ret r (s\<lparr>logged := l\<rparr>)" by auto
qed

lemmas logs_only_rules = logs_only_then logs_only_LOG logs_only_ret

lemma inst_config_launches:
  assumes "ConfigFile_new (files ios (location @ ''/config.txt'')) key =
    \<lparr>m_skipLaunch = False, m_port = port, m_args = args\<rparr>"
  shows "logs_only (inst_config ios name f visible logging key location)
    (False, JavaLauncher_new (to_bool visible) location args, key)"
  unfolding inst_config_def assms Let_def ConfigFile.simps if_False
  by (rule logs_only_rules)+

text \<open>The location the helper passes is converted back to the directory, and the file there is the one read.\<close>

lemma helper_location:
  assumes "cwd = CHR ''/'' # a # rest" and "a \<noteq> CHR ''/''" and "take 1 rest \<noteq> '':''"
    and "CHR ''%'' \<notin> set cwd" and "CHR 0x5C \<notin> set cwd" and "CHR 0x00 \<notin> set cwd"
    and "length cwd < 2 ^ 31"
  shows "inst_resources ios (getResourceLocation Unix (Some cwd)) s = Ret (with_separator Unix cwd) s"
proof -
  let ?uri = "''file:'' @ cwd" and ?dir = "with_separator Unix cwd"
  have "uri_at ?uri 7 \<noteq> Some (CHR '':'') \<and> uri_at ?uri 7 \<noteq> None"
    using assms(1,3) by (cases rest) (auto simp: uri_at_def get_at_def)
  then obtain c where "uri_at ?uri 7 = Some c" and "c \<noteq> CHR '':''" by blast
  then have k: "uri_path_start Unix ?uri s = Ret 5 s"
    using assms(1,2) by (simp add: uri_path_start_def strncmp_eq_def)
  have dec: "CHR ''%'' \<notin> set xs \<Longrightarrow> CHR 0x5C \<notin> set xs \<Longrightarrow> uri_decode Unix xs = xs" for xs
    by (induction xs) auto
  have drop: "drop 5 ?uri = cwd" by simp
  have "URIToNativePath Unix (malloc_junk ios) (Some ?uri) s = Ret (Some (c_str ?dir)) s"
    using URIToNativePath_run [OF k, of "malloc_junk ios", unfolded drop] assms(1,7) dec [OF assms(4,5)] by simp
  moreover have "c_str ?dir = ?dir"
    using assms(6) by (intro c_str_id) (simp add: with_separator_def)
  ultimately show ?thesis by (simp add: inst_resources_def)
qed

lemma helper_configured:
  assumes "files ios (dir @ ''/config.txt'') = Some (helper_config (Some driver))" and "plain driver" and "plain key"
  shows "ConfigFile_new (files ios (dir @ ''/config.txt'')) key = \<lparr>m_skipLaunch = False, m_port = [], m_args = [driver, key]\<rparr>"
  using config_file_launches [of "[driver]" key] assms getlines_config [OF assms(2)] by simp

lemma getFmuContainer_cong:
  assumes "lib t = lib s"
  shows "getFmuContainer (g_clients t) c = getFmuContainer (g_clients s) c" and "containers t k = containers s k"
  using assms by (simp_all add: lib_def)

text \<open>A call whose reply is a status, on a registered component.\<close>

lemma status_call:
  fixes s :: "(test_driver, 'z) fmu_world_scheme"
  assumes codec: "protobuf_codec ser parse" and reg: "getFmuContainer (g_clients s) c = Some k" "containers s k = Some fc"
    and rest: "at_rest (proxy_server (m_proxy fc)) cl s"
    and td: "td_serves ser (it_preset (peer s)) cm m (Fmi2StatusReply 0) q'" and "cm \<noteq> cmd_fmi2FreeInstance"
    and fits: "length (ser m) \<le> 10000"
  shows "\<exists>t. with_fmu c un (\<lambda>fmu. converted (sendRetStatus (it_runtime ser parse cl) (m_proxy fmu) cm m)) s = Ret fmi2OK t \<and>
    at_rest (proxy_server (m_proxy fc)) cl t \<and> lib t = lib s \<and> peer t = q'"
proof -
  let ?rt = "it_runtime ser parse cl"
  have "it_serves ser (peer s) cm m (Fmi2StatusReply (status_code px_OK)) q'"
    using td assms(6) by (simp add: it_serves_def)
  from protobuf_codec.it_send_status [OF codec rest this fits] obtain t where
    t: "sendRetStatus ?rt (m_proxy fc) cm m s = Ret px_OK t" "at_rest (proxy_server (m_proxy fc)) cl t" "peer t = q'"
    by blast
  have "env_keeps_lib (rt_env ?rt)" by (simp add: it_runtime_def turn_env_keeps_lib)
  from keepsD [OF keeps_sendRetStatus [OF this] t(1)] have "lib t = lib s" .
  with t show ?thesis
    by (simp add: with_fmu_registered [OF reg] converted_def)
qed

section \<open>Properties\<close>

text \<open>
  The logger prints a text without conversions as it is, behind status, instance and category, if
  it has fewer than 1000 characters, and writes behind its buffer if it has more: the library passes
  on log messages of up to the size of the shared buffer.
\<close>

theorem logger_bounds:
  assumes "CHR ''%'' \<notin> set v" and "CHR 0x00 \<notin> set v"
  shows "fmuLogger env (Some n) status (Some cat) v args s =
    (if length v < 1000
     then Ret (fmi2StatusToString status @ '' '' @ c_str n @ '' ('' @ c_str cat @ ''): '' @ v @ [LF]) s
     else Fault OutOfBounds)"
  using vsprintf_plain [OF assms(1), of args] c_str_id [OF assms(2)]
  by (simp add: fmuLogger_def MAX_MSG_SIZE_def)

theorem logger_bounds_witness:
  "fmuLogger 0 (Some ''i'') fmi2Warning (Some ''c'') ''hello'' [] () = Ret (''warning i (c): hello'' @ [LF]) () \<and>
   fmuLogger 0 (Some ''i'') fmi2Warning (Some ''c'') (replicate 1000 (CHR ''x'')) [] () = Fault OutOfBounds"
proof -
  have "CHR ''%'' \<notin> set (replicate 1000 (CHR ''x''))" and "CHR 0x00 \<notin> set (replicate 1000 (CHR ''x''))"
    by (simp_all only: set_replicate_conv_if) simp_all
  then show ?thesis
    using logger_bounds [of "''hello''" 0 "''i''" fmi2Warning "''c''" "[]" "()"]
      logger_bounds [of "replicate 1000 (CHR ''x'')" 0 "''i''" fmi2Warning "''c''" "[]" "()"]
    by (simp add: c_str_def)
qed

text \<open>
  What the helper prepares is what an instantiation uses: run in a directory whose path has no
  character that a URI treats specially, the location it passes is converted back to that directory,
  the configuration file it wrote there is read, the driver is to be launched and not skipped, and the
  key the driver takes from its arguments is the key of the shared memory.
\<close>

theorem helper_starts_driver:
  fixes s :: "('p, 'z) fmu_world_scheme"
  assumes "cwd = CHR ''/'' # a # rest" and "a \<noteq> CHR ''/''" and "take 1 rest \<noteq> '':''"
    and "CHR ''%'' \<notin> set cwd" and "CHR 0x5C \<notin> set cwd" and "CHR 0x00 \<notin> set cwd"
    and "length cwd < 2 ^ 31" and "files ios (with_separator Unix cwd @ ''/config.txt'') = Some (helper_config (Some driver))"
    and "plain driver" and "plain key"
  shows "\<exists>launcher t. andThen (inst_resources ios (getResourceLocation Unix (Some cwd))) (\<lambda>location.
      inst_config ios name f 1 logging key location) s = Ret (False, launcher, key) t \<and>
    m_workingDir launcher = with_separator Unix cwd \<and> hd (jl_args launcher) = driver \<and>
    runner_key (jl_args launcher) = key"
proof -
  let ?dir = "with_separator Unix cwd"
  have res: "inst_resources ios (getResourceLocation Unix (Some cwd)) s = Ret ?dir s"
    by (rule helper_location [OF assms(1-7)])
  from logs_onlyD [OF inst_config_launches [where ios = ios, OF helper_configured [OF assms(8-10)]]] obtain l where
    "inst_config ios name f 1 logging key ?dir s =
      Ret (False, JavaLauncher_new (to_bool 1) ?dir [driver, key], key) (s\<lparr>logged := l\<rparr>)" by blast
  then show ?thesis
    using res by (simp add: andThen_def JavaLauncher_new_def runner_key_def)
qed

theorem helper_starts_driver_witness:
  "\<exists>launcher t. andThen (inst_resources (ex_os\<lparr>files := (\<lambda>_. Some (helper_config (Some ''driver'')))\<rparr>)
       (getResourceLocation Unix (Some ''/home/u''))) (\<lambda>location.
      inst_config (ex_os\<lparr>files := (\<lambda>_. Some (helper_config (Some ''driver'')))\<rparr>) ''i'' (Some ex_callbacks) 1 1 ''key'' location)
      (ex_world ()) = Ret (False, launcher, ''key'') t \<and>
    m_workingDir launcher = with_separator Unix ''/home/u'' \<and> hd (jl_args launcher) = ''driver'' \<and>
    runner_key (jl_args launcher) = ''key''"
  by (rule helper_starts_driver [of _ "CHR ''h''" "''ome/u''"]) (simp_all add: plain_def)

text \<open>
  The initialisation of the helpers on a component whose driver is connected: each of the three
  calls goes through its pointer, reaches the integration driver and returns OK, so all expectations
  hold, and the channel is at rest for the test that follows.
\<close>

theorem helper_initialises:
  fixes s :: "(test_driver, 'z) fmu_world_scheme"
  assumes "protobuf_codec ser parse" and "getFmuContainer (g_clients s) (comp hp) = Some k" and "containers s k = Some fc"
    and "at_rest (proxy_server (m_proxy fc)) cl s"
    and "pointer (loaded hp) setupExperiment \<noteq> 0" and "pointer (loaded hp) enterInitializationMode \<noteq> 0"
    and "pointer (loaded hp) exitInitializationMode \<noteq> 0"
    and "length (ser (Fmi2SetupExperimentRequest True 0x3FB999999999999A 0 True 0x3FF0000000000000)) \<le> 10000"
  shows "\<exists>t. andThen (helper_setup (it_runtime ser parse cl) hp) (\<lambda>hp.
      andThen (helper_enter (it_runtime ser parse cl) hp) (helper_exit (it_runtime ser parse cl))) s =
      Ret (hp\<lparr>expected := expected hp @ [True, True, True]\<rparr>) t \<and>
    at_rest (proxy_server (m_proxy fc)) cl t \<and> lib t = lib s"
proof -
  let ?rt = "it_runtime ser parse cl" and ?c = "comp hp"
  have empty: "ser Fmi2Empty = []" "ser (Fmi2StatusReply 0) = []"
    using protobuf_codec.ser_default [OF assms(1), of K_Empty]
      protobuf_codec.ser_default [OF assms(1), of K_StatusReply] by simp_all
  have ok: "td_serves ser q cmd_fmi2SetupExperiment
        (Fmi2SetupExperimentRequest True 0x3FB999999999999A 0 True 0x3FF0000000000000) (Fmi2StatusReply 0) q"
      "td_serves ser q cmd_fmi2EnterInitializationMode Fmi2Empty (Fmi2StatusReply 0) q"
      "td_serves ser q cmd_fmi2ExitInitializationMode Fmi2Empty (Fmi2StatusReply 0) q" for q
    by (simp_all add: td_serves_def pb_utf8_def empty Status_Ok_def)
  from status_call [OF assms(1-4) ok(1) _ assms(8), of fmi2OK] obtain s1 where
    1: "fmi2SetupExperiment ?rt ?c 1 0x3FB999999999999A 0 1 0x3FF0000000000000 s = Ret fmi2OK s1"
      "at_rest (proxy_server (m_proxy fc)) cl s1" "lib s1 = lib s"
    by (auto simp: fmi2SetupExperiment_def FmuProxy_fmi2SetupExperiment_def to_bool_def)
  have r1: "getFmuContainer (g_clients s1) ?c = Some k" "containers s1 k = Some fc"
    using getFmuContainer_cong [OF 1(3)] assms(2,3) by simp_all
  from status_call [OF assms(1) r1 1(2) ok(2), of fmi2Fatal] obtain s2 where
    2: "fmi2EnterInitializationMode ?rt ?c s1 = Ret fmi2OK s2"
      "at_rest (proxy_server (m_proxy fc)) cl s2" "lib s2 = lib s1"
    by (auto simp: fmi2EnterInitializationMode_def FmuProxy_fmi2EnterInitializationMode_def empty)
  have r2: "getFmuContainer (g_clients s2) ?c = Some k" "containers s2 k = Some fc"
    using getFmuContainer_cong [OF 2(3)] r1 by simp_all
  from status_call [OF assms(1) r2 2(2) ok(3), of fmi2Fatal] obtain s3 where
    3: "fmi2ExitInitializationMode ?rt ?c s2 = Ret fmi2OK s3"
      "at_rest (proxy_server (m_proxy fc)) cl s3" "lib s3 = lib s2"
    by (auto simp: fmi2ExitInitializationMode_def FmuProxy_fmi2ExitInitializationMode_def empty)
  show ?thesis
    using 1 2 3 assms(5-7)
    by (simp add: helper_setup_def helper_enter_def helper_exit_def through_def expect_def)
qed

text \<open>The hypotheses hold for the instance of the other examples.\<close>

definition ex_helper :: helper where
  "ex_helper = \<lparr>loaded = \<lparr>dllHandle = 1, pointer = (\<lambda>_. 1)\<rparr>, m_callback = None, comp = Some 0, expected = []\<rparr>"

theorem helper_initialises_witness:
  "\<exists>t. andThen (helper_setup (it_runtime wire_ser wire_parse ends_cl) ex_helper) (\<lambda>hp.
      andThen (helper_enter (it_runtime wire_ser wire_parse ends_cl) hp)
        (helper_exit (it_runtime wire_ser wire_parse ends_cl))) (ex_world test_driver_init) =
      Ret (ex_helper\<lparr>expected := expected ex_helper @ [True, True, True]\<rparr>) t \<and>
    at_rest (proxy_server (m_proxy ex_container)) ends_cl t \<and> lib t = lib (ex_world test_driver_init)"
proof -
  have "comp ex_helper = Some 0" by (simp add: ex_helper_def)
  then have "getFmuContainer (g_clients (ex_world test_driver_init)) (comp ex_helper) = Some 0"
    using ex_registered by simp
  moreover have "length (wire_ser (Fmi2SetupExperimentRequest True 0x3FB999999999999A 0 True 0x3FF0000000000000)) \<le> 10000"
    by (simp add: wire_lengths)
  ultimately show ?thesis
    by (intro helper_initialises [OF wire.protobuf_codec_axioms]) (simp_all add: ex_helper_def ex_server_at_rest)
qed

text \<open>
  The fixture frees its component twice, and that frees it once: when the first call returns, the
  second finds the component unknown and changes nothing, so the state after \<open>TearDown\<close> is the one
  after a single \<open>fmi2FreeInstance\<close>, and no other instance is touched.
\<close>

theorem teardown_frees_once:
  assumes "env_keeps_lib (rt_env rt)" and "fmu_inv s"
    and "comp fx = Some k" and "getFmuContainer (g_clients s) (Some k) = Some k"
    and "dllHandle (loaded fx) \<noteq> 0" and "pointer (loaded fx) freeInstance \<noteq> 0"
    and "fmi2FreeInstance u rt (Some k) s = Ret () t"
  shows "fixture_TearDown u rt fx s = Ret () t \<and> fmu_inv t \<and> containers t = (containers s)(k := None)"
proof -
  from free_registered [OF assms(1,4,7)] assms(2) have t: "containers t = (containers s)(k := None)"
    "getFmuContainer (g_clients t) (Some k) = None"
    by (auto simp: getFmuContainer_def fmu_inv_def)
  then have "fmi2FreeInstance u rt (Some k) t = Ret () t" by (simp add: fmi2FreeInstance_def)
  with assms(3,5-7) have "fixture_TearDown u rt fx s = Ret () t"
    by (simp add: fixture_TearDown_def through_def)
  with t(1) free_inv [OF assms(1,2,7)] show ?thesis by blast
qed

definition ex_fixture :: fixture where
  "ex_fixture = helper.extend ex_helper \<lparr>isInstantiated = True\<rparr>"

theorem teardown_frees_once_witness:
  "\<exists>t. fixture_TearDown Linux (peer_runtime wire_ser wire_parse (always []) ends_cl) ex_fixture (ex_world ()) = Ret () t \<and>
     fmu_inv t \<and> containers t = (containers (ex_world ()))(0 := None)"
proof -
  let ?rt = "peer_runtime wire_ser wire_parse (always []) ends_cl"
  obtain t where t: "fmi2FreeInstance Linux ?rt (Some 0) (ex_world ()) = Ret () t"
    using ex_free by blast
  have "env_keeps_lib (rt_env ?rt)" by (simp add: peer_runtime_def turn_env_keeps_lib)
  from teardown_frees_once [OF this ex_world_inv _ ex_registered _ _ t, of ex_fixture] show ?thesis
    by (auto simp: ex_fixture_def ex_helper_def helper.defs)
qed

end
