(* ===== verification/FmuStore.thy ===== *)
theory FmuStore
  imports LaunchedTool TestHarness
begin

text \<open>
  What an instance is to its simulator. The specification is a store of values by reference, of which
  four are constants, and an answer OK to every call that changes the mode; the implementation is the
  library's FMI functions over registry, proxy, protobuf, shared memory and the integration tests'
  driver in a process of its own. The functions are shown to be calls on the store, in any number and
  order.
\<close>

section \<open>The calls\<close>

text \<open>The calls of a simulation between the creation of an instance and its end.\<close>

datatype fmi_call =
    CallSetReal "c_int list" "c_double list"
  | CallSetInteger "c_int list" "c_int list"
  | CallSetBoolean "c_int list" "c_int list"
  | CallSetString "c_int list" "string list"
  | CallGetReal "c_int list"
  | CallGetInteger "c_int list"
  | CallGetBoolean "c_int list"
  | CallGetString "c_int list"
  | CallSetupExperiment c_int c_double c_double c_int c_double
  | CallEnterInitializationMode
  | CallExitInitializationMode
  | CallDoStep c_double c_double c_int
  | CallTerminate
  | CallReset
  | CallSetDebugLogging c_int "string list"
  | CallGetStatus fmi2StatusKind
  | CallGetRealStatus fmi2StatusKind
  | CallGetIntegerStatus fmi2StatusKind
  | CallGetBooleanStatus fmi2StatusKind
  | CallGetStringStatus fmi2StatusKind
  | CallGetMaxStepsize
  | CallNotForwarded FMU_function

datatype fmi_answer =
    Answer fmi2Status
  | AnswerStatus fmi2Status fmi2Status
  | AnswerReals fmi2Status "c_double list"
  | AnswerInts fmi2Status "c_int list"
  | AnswerStrings fmi2Status "string list"

definition functions_not_forwarded :: "FMU_function list" where
  "functions_not_forwarded =
     [getFMUstate, setFMUstate, freeFMUstate, serializedFMUstateSize, serializeFMUstate, deSerializeFMUstate,
      getDirectionalDerivative, setRealInputDerivatives, getRealOutputDerivatives, cancelStep, enterEventMode,
      newDiscreteStates, enterContinuousTimeMode, completedIntegratorStep, setTime, setContinuousStates,
      getDerivatives, getEventIndicators, getContinuousStates, getNominalsOfContinuousStates]"

text \<open>As calls of the library: the arrays hold as many elements as there are references.\<close>

definition status_of :: "(fmi2Status, 's) prog \<Rightarrow> (fmi_answer, 's) prog" where
  "status_of m = andThen m (\<lambda>st. ret (Answer st))"

definition values_of :: "(fmi2Status \<Rightarrow> 'v \<Rightarrow> fmi_answer) \<Rightarrow> (fmi2Status \<times> 'v, 's) prog \<Rightarrow> (fmi_answer, 's) prog" where
  "values_of f m = andThen m (\<lambda>(st, vs). ret (f st vs))"

text \<open>The functions that do not reach the other end, by their names in the test's loader.\<close>

fun not_forwarded :: "FMU_function \<Rightarrow> nat option \<Rightarrow> (fmi2Status, ('p, 'z) fmu_world_scheme) prog option" where
  "not_forwarded getFMUstate c = Some (fmi2GetFMUstate c)"
| "not_forwarded setFMUstate c = Some (fmi2SetFMUstate c)"
| "not_forwarded freeFMUstate c = Some (fmi2FreeFMUstate c)"
| "not_forwarded serializedFMUstateSize c = Some (fmi2SerializedFMUstateSize c)"
| "not_forwarded serializeFMUstate c = Some (fmi2SerializeFMUstate c)"
| "not_forwarded deSerializeFMUstate c = Some (fmi2DeSerializeFMUstate c)"
| "not_forwarded getDirectionalDerivative c = Some (fmi2GetDirectionalDerivative c)"
| "not_forwarded setRealInputDerivatives c = Some (fmi2SetRealInputDerivatives c)"
| "not_forwarded getRealOutputDerivatives c = Some (fmi2GetRealOutputDerivatives c)"
| "not_forwarded cancelStep c = Some (fmi2CancelStep c)"
| "not_forwarded enterEventMode c = Some (fmi2EnterEventMode c)"
| "not_forwarded newDiscreteStates c = Some (fmi2NewDiscreteStates c)"
| "not_forwarded enterContinuousTimeMode c = Some (fmi2EnterContinuousTimeMode c)"
| "not_forwarded completedIntegratorStep c = Some (fmi2CompletedIntegratorStep c)"
| "not_forwarded setTime c = Some (fmi2SetTime c)"
| "not_forwarded setContinuousStates c = Some (fmi2SetContinuousStates c)"
| "not_forwarded getDerivatives c = Some (fmi2GetDerivatives c)"
| "not_forwarded getEventIndicators c = Some (fmi2GetEventIndicators c)"
| "not_forwarded getContinuousStates c = Some (fmi2GetContinuousStates c)"
| "not_forwarded getNominalsOfContinuousStates c = Some (fmi2GetNominalsOfContinuousStates c)"
| "not_forwarded _ c = None"

fun perform ::
  "(('p, 'z) fmu_world_scheme) runtime \<Rightarrow> nat option \<Rightarrow> fmi_call \<Rightarrow> (fmi_answer, ('p, 'z) fmu_world_scheme) prog"
where
  "perform rt c (CallSetReal vr vs) = status_of (fmi2SetReal rt c vr (length vr) vs)"
| "perform rt c (CallSetInteger vr vs) = status_of (fmi2SetInteger rt c vr (length vr) vs)"
| "perform rt c (CallSetBoolean vr vs) = status_of (fmi2SetBoolean rt c vr (length vr) vs)"
| "perform rt c (CallSetString vr vs) = status_of (fmi2SetString rt c vr (length vr) vs)"
| "perform rt c (CallGetReal vr) = values_of AnswerReals (fmi2GetReal rt c vr (length vr) (replicate (length vr) 0))"
| "perform rt c (CallGetInteger vr) = values_of AnswerInts (fmi2GetInteger rt c vr (length vr) (replicate (length vr) 0))"
| "perform rt c (CallGetBoolean vr) = values_of AnswerInts (fmi2GetBoolean rt c vr (length vr) (replicate (length vr) 0))"
| "perform rt c (CallGetString vr) = values_of AnswerStrings (fmi2GetString rt c vr (length vr) (replicate (length vr) []))"
| "perform rt c (CallSetupExperiment td tol start sd stop) = status_of (fmi2SetupExperiment rt c td tol start sd stop)"
| "perform rt c CallEnterInitializationMode = status_of (fmi2EnterInitializationMode rt c)"
| "perform rt c CallExitInitializationMode = status_of (fmi2ExitInitializationMode rt c)"
| "perform rt c (CallDoStep t h n) = status_of (fmi2DoStep rt c t h n)"
| "perform rt c CallTerminate = status_of (fmi2Terminate rt c)"
| "perform rt c CallReset = status_of (fmi2Reset rt c)"
| "perform rt c (CallSetDebugLogging loggingOn cats) = status_of (fmi2SetDebugLogging rt c loggingOn (length cats) cats)"
| "perform rt c (CallGetStatus kd) = values_of AnswerStatus (fmi2GetStatus rt c kd fmi2OK)"
| "perform rt c (CallGetRealStatus kd) = values_of (\<lambda>st v. AnswerReals st [v]) (fmi2GetRealStatus rt c kd 0)"
| "perform rt c (CallGetIntegerStatus kd) = values_of (\<lambda>st v. AnswerInts st [v]) (fmi2GetIntegerStatus rt c kd 0)"
| "perform rt c (CallGetBooleanStatus kd) = values_of (\<lambda>st v. AnswerInts st [v]) (fmi2GetBooleanStatus rt c kd 0)"
| "perform rt c (CallGetStringStatus kd) = values_of (\<lambda>st v. AnswerStrings st [v]) (fmi2GetStringStatus rt c kd [])"
| "perform rt c CallGetMaxStepsize = values_of (\<lambda>st v. AnswerReals st [v]) (fmi2GetMaxStepsize rt c 0)"
| "perform rt c (CallNotForwarded f) = (case not_forwarded f c of None \<Rightarrow> fail NullDeref | Some m \<Rightarrow> status_of m)"

section \<open>The store\<close>

record store =
  st_reals :: "c_int \<Rightarrow> c_double"
  st_ints :: "c_int \<Rightarrow> c_int"
  st_bools :: "c_int \<Rightarrow> bool"
  st_strings :: "c_int \<Rightarrow> string"

text \<open>Assigning a list of values: the last one counts where a reference is repeated.\<close>

fun assign :: "(c_int \<Rightarrow> 'v) \<Rightarrow> c_int list \<Rightarrow> 'v list \<Rightarrow> c_int \<Rightarrow> 'v" where
  "assign f (i # ids) (v # vs) = assign (f(i := v)) ids vs"
| "assign f _ _ = f"

text \<open>The four references that read the same whatever was set: 9.9, 1, true and a text.\<close>

definition constants :: "store \<Rightarrow> store" where
  "constants a = a\<lparr>st_reals := (st_reals a)(10 := 0x4023CCCCCCCCCCCD), st_ints := (st_ints a)(11 := 1),
     st_bools := (st_bools a)(12 := True), st_strings := (st_strings a)(13 := ''undefined'')\<rparr>"

text \<open>
  The queries have fixed answers: 100.5, 100, true and a text for the kind of status each is asked for
  in the tests.
\<close>

definition real_status :: "fmi2StatusKind \<Rightarrow> c_double" where
  "real_status kd = (if kd = fmi2LastSuccessfulTime then 0x4059200000000000 else 0)"

definition integer_status :: "fmi2StatusKind \<Rightarrow> c_int" where
  "integer_status kd = (if kd = fmi2LastSuccessfulTime then 100 else 0)"

definition boolean_status :: "fmi2StatusKind \<Rightarrow> bool" where
  "boolean_status kd = (kd = fmi2Terminated)"

definition string_status :: "fmi2StatusKind \<Rightarrow> string" where
  "string_status kd = (if kd = fmi2DoStepStatus then ''waiting'' else [])"

definition status_request :: "fmi2StatusKind \<Rightarrow> pb_msg" where
  "status_request kd = createGetStatusRequest (convertStatusKind kd)"

text \<open>A boolean is kept as such and read as 0 or 1; a string ends at its first NUL.\<close>

fun store_call :: "fmi_call \<Rightarrow> store \<Rightarrow> fmi_answer \<times> store" where
  "store_call (CallSetReal ids vs) a = (Answer fmi2OK, a\<lparr>st_reals := assign (st_reals a) ids vs\<rparr>)"
| "store_call (CallSetInteger ids vs) a = (Answer fmi2OK, a\<lparr>st_ints := assign (st_ints a) ids vs\<rparr>)"
| "store_call (CallSetBoolean ids vs) a =
     (Answer fmi2OK, a\<lparr>st_bools := assign (st_bools a) ids (map to_bool vs)\<rparr>)"
| "store_call (CallSetString ids vs) a =
     (Answer fmi2OK, a\<lparr>st_strings := assign (st_strings a) ids (map c_str vs)\<rparr>)"
| "store_call (CallGetReal ids) a = (AnswerReals fmi2OK (map (st_reals a) ids), a)"
| "store_call (CallGetInteger ids) a = (AnswerInts fmi2OK (map (st_ints a) ids), a)"
| "store_call (CallGetBoolean ids) a = (AnswerInts fmi2OK (map (\<lambda>i. of_bool_int (st_bools a i)) ids), a)"
| "store_call (CallGetString ids) a = (AnswerStrings fmi2OK (map (st_strings a) ids), a)"
| "store_call (CallGetStatus kd) a = (AnswerStatus fmi2OK fmi2OK, a)"
| "store_call (CallGetRealStatus kd) a = (AnswerReals fmi2OK [real_status kd], a)"
| "store_call (CallGetIntegerStatus kd) a = (AnswerInts fmi2OK [integer_status kd], a)"
| "store_call (CallGetBooleanStatus kd) a = (AnswerInts fmi2OK [of_bool_int (boolean_status kd)], a)"
| "store_call (CallGetStringStatus kd) a = (AnswerStrings fmi2OK [string_status kd], a)"
| "store_call CallGetMaxStepsize a = (AnswerReals fmi2OK [0x4059000000000000], a)"
| "store_call (CallNotForwarded f) a = (Answer fmi2Error, a)"
| "store_call _ a = (Answer fmi2OK, a)"

text \<open>The constants are set when a call reaches the other end.\<close>

definition store_spec :: "fmi_call \<Rightarrow> store \<Rightarrow> fmi_answer \<times> store" where
  "store_spec c a = store_call c (case c of CallNotForwarded f \<Rightarrow> a | _ \<Rightarrow> constants a)"

text \<open>
  What a call may be: references the driver has, as many values as references, strings that
  protobuf can carry, and encodings of the request and of the reply that fit the buffer.
\<close>

definition fits :: "(pb_msg \<Rightarrow> byte list) \<Rightarrow> pb_msg \<Rightarrow> bool" where
  "fits ser m \<longleftrightarrow> length (ser m) \<le> 10000"

fun call_ok :: "(pb_msg \<Rightarrow> byte list) \<Rightarrow> fmi_call \<Rightarrow> store \<Rightarrow> bool" where
  "call_ok ser (CallSetReal ids vs) a \<longleftrightarrow>
     td_ids_ok ids \<and> length vs = length ids \<and> fits ser (Fmi2SetRealRequest ids vs)"
| "call_ok ser (CallSetInteger ids vs) a \<longleftrightarrow>
     td_ids_ok ids \<and> length vs = length ids \<and> fits ser (Fmi2SetIntegerRequest ids vs)"
| "call_ok ser (CallSetBoolean ids vs) a \<longleftrightarrow>
     td_ids_ok ids \<and> length vs = length ids \<and> fits ser (Fmi2SetBooleanRequest ids (map to_bool vs))"
| "call_ok ser (CallSetString ids vs) a \<longleftrightarrow>
     td_ids_ok ids \<and> length vs = length ids \<and> list_all utf8 (map c_str vs) \<and>
     fits ser (Fmi2SetStringRequest ids (map c_str vs))"
| "call_ok ser (CallGetReal ids) a \<longleftrightarrow> td_ids_ok ids \<and> fits ser (Fmi2GetRequest ids (of_nat (length ids))) \<and>
     fits ser (Fmi2GetRealReply (map (st_reals (constants a)) ids))"
| "call_ok ser (CallGetInteger ids) a \<longleftrightarrow> td_ids_ok ids \<and> fits ser (Fmi2GetRequest ids (of_nat (length ids))) \<and>
     fits ser (Fmi2GetIntegerReply (map (st_ints (constants a)) ids))"
| "call_ok ser (CallGetBoolean ids) a \<longleftrightarrow> td_ids_ok ids \<and> fits ser (Fmi2GetRequest ids (of_nat (length ids))) \<and>
     fits ser (Fmi2GetBooleanReply (map (st_bools (constants a)) ids))"
| "call_ok ser (CallGetString ids) a \<longleftrightarrow> td_ids_ok ids \<and> fits ser (Fmi2GetRequest ids (of_nat (length ids))) \<and>
     fits ser (Fmi2GetStringReply (map (st_strings (constants a)) ids) True)"
| "call_ok ser (CallSetupExperiment td tol start sd stop) a \<longleftrightarrow>
     fits ser (Fmi2SetupExperimentRequest (to_bool td) tol start (to_bool sd) stop)"
| "call_ok ser (CallDoStep t h n) a \<longleftrightarrow> fits ser (Fmi2DoStepRequest t h)"
| "call_ok ser (CallSetDebugLogging loggingOn cats) a \<longleftrightarrow> list_all utf8 (map c_str cats) \<and>
     fits ser (Fmi2SetDebugLoggingRequest (to_bool loggingOn) (of_nat (length cats)) (map c_str cats))"
| "call_ok ser (CallGetStatus kd) a \<longleftrightarrow> fits ser (status_request kd)"
| "call_ok ser (CallGetRealStatus kd) a \<longleftrightarrow> fits ser (status_request kd) \<and> fits ser (Fmi2RealStatusReply (real_status kd))"
| "call_ok ser (CallGetIntegerStatus kd) a \<longleftrightarrow>
     fits ser (status_request kd) \<and> fits ser (Fmi2IntegerStatusReply (integer_status kd))"
| "call_ok ser (CallGetBooleanStatus kd) a \<longleftrightarrow>
     fits ser (status_request kd) \<and> fits ser (Fmi2BooleanStatusReply (boolean_status kd))"
| "call_ok ser (CallGetStringStatus kd) a \<longleftrightarrow>
     fits ser (status_request kd) \<and> fits ser (Fmi2StringStatusReply (string_status kd))"
| "call_ok ser CallGetMaxStepsize a \<longleftrightarrow> fits ser (Fmi2GetMaxStepSizeReply 0x4059000000000000)"
| "call_ok ser (CallNotForwarded f) a \<longleftrightarrow> f \<in> set functions_not_forwarded"
| "call_ok ser _ a \<longleftrightarrow> True"

section \<open>What the driver's arrays mean\<close>

definition view :: "'v \<Rightarrow> 'v list \<Rightarrow> c_int \<Rightarrow> 'v" where
  "view d arr i = (case get_at arr (sint i) of Some v \<Rightarrow> v | None \<Rightarrow> d)"

definition store_of :: "test_driver \<Rightarrow> store" where
  "store_of q = \<lparr>st_reals = view 0 (reals q), st_ints = view 0 (ints q), st_bools = view False (bools q),
     st_strings = view [] (strings q)\<rparr>"

text \<open>The driver's arrays are complete, and its strings are ones that protobuf carries unchanged.\<close>

definition td_good :: "test_driver \<Rightarrow> bool" where
  "td_good q \<longleftrightarrow> td_wf q \<and> (\<forall>s\<in>set (strings q). utf8 s \<and> CHR 0x00 \<notin> set s)"

lemma store_of_simps [simp]:
  "st_reals (store_of q) = view 0 (reals q)" "st_ints (store_of q) = view 0 (ints q)"
  "st_bools (store_of q) = view False (bools q)" "st_strings (store_of q) = view [] (strings q)"
  by (simp_all add: store_of_def)

lemma view_put: "put_at arr (sint i) v = Some arr' \<Longrightarrow> view d arr' = (view d arr)(i := v)"
  by (rule ext) (auto simp: view_def get_put_at dest: signed_word_eqI)

lemma view_store: "td_store ids vs arr = Some arr' \<Longrightarrow> view d arr' = assign (view d arr) ids vs"
proof (induction ids vs arr rule: td_store.induct)
  case (3 i ids v vs arr)
  then obtain arr1 where "put_at arr (sint i) v = Some arr1" and "view d arr' = assign (view d arr1) ids vs"
    by (auto simp: bind_eq_Some_conv)
  with view_put [of arr i v arr1 d] show ?case by simp
qed simp_all

lemma view_fetch: "td_ids_ok ids \<Longrightarrow> length arr = TD_SIZE \<Longrightarrow> td_fetch ids arr = Some (map (view d arr) ids)"
  by (induction ids) (auto simp: td_ids_ok_def view_def get_at_def)

lemma view_update:
  "sint (i :: c_int) = int j \<Longrightarrow> j < length arr \<Longrightarrow> view d (arr[j := x]) = (view d arr)(i := x)"
  using view_put [of arr i x "arr[j := x]" d] by (simp add: put_at_def)

lemma store_of_preset: "td_wf q \<Longrightarrow> store_of (it_preset q) = constants (store_of q)"
  using view_update [of 10 10 "reals q" 0] view_update [of 11 11 "ints q" 0]
    view_update [of 12 12 "bools q" False] view_update [of 13 13 "strings q" "[]"]
  by (simp add: store_of_def it_preset_def constants_def td_wf_def TD_SIZE_def preset_ids)

lemma td_store_set: "td_store ids vs arr = Some arr' \<Longrightarrow> set arr' \<subseteq> set arr \<union> set vs"
proof (induction ids vs arr rule: td_store.induct)
  case (3 i ids v vs arr)
  then obtain arr1 where "put_at arr (sint i) v = Some arr1" "set arr' \<subseteq> set arr1 \<union> set vs"
    by (auto simp: bind_eq_Some_conv)
  moreover from this(1) have "set arr1 \<subseteq> insert v (set arr)"
    using set_update_subset_insert [of arr "nat (sint i)" v] by (auto simp: put_at_def split: if_splits)
  ultimately show ?case by auto
qed auto

lemma c_str_no_nul: "CHR 0x00 \<notin> set (c_str s)"
  by (auto simp: c_str_def dest: set_takeWhileD)

lemma td_good_preset: "td_good q \<Longrightarrow> td_good (it_preset q)"
  using set_update_subset_insert [of "strings q" stringIdGet "''undefined''"]
  by (auto simp: td_good_def between_def) (auto simp: it_preset_def between_def)

lemma td_good_init: "td_good test_driver_init"
  by (simp add: td_good_def test_driver_init_def TD_SIZE_def td_wf_def)

section \<open>The driver behind a component\<close>

text \<open>
  The contract of what is behind: in a state in which a server is ready for it, a request is answered as
  the integration driver answers, and the server is ready again. Readiness does not depend on the
  library's own data nor on the server's debug printer, and what happens in a wait does not touch that
  data. \<open>far\<close> finds the driver in a state.
\<close>

locale driver_peer = protobuf_codec ser parse
  for ser :: "pb_msg \<Rightarrow> byte list" and parse :: "pb_kind \<Rightarrow> byte list \<Rightarrow> pb_msg" +
  fixes env :: "(('p, 'z) fmu_world_scheme) env"
    and ready :: "IpcServer \<Rightarrow> ('p, 'z) fmu_world_scheme \<Rightarrow> bool"
    and far :: "('p, 'z) fmu_world_scheme \<Rightarrow> test_driver"
  assumes request: "ready srv s \<Longrightarrow> it_handle ser parse m (far s) = Ret r q \<Longrightarrow>
      \<exists>s'. exchange env srv INFINITE m s = Ret (Some r) s' \<and> ready srv s' \<and> far s' = q"
    and env_library: "env_keeps_lib env"
    and ready_library: "ready srv s \<Longrightarrow> ready srv (s\<lparr>containers := a\<rparr>)" "ready srv s \<Longrightarrow> ready srv (s\<lparr>logged := l\<rparr>)"
    and ready_printer: "ready srv s \<Longrightarrow> ready (srv\<lparr>debugPrintPtr := d\<rparr>) s"
    and far_library: "far (s\<lparr>containers := a\<rparr>) = far s" "far (s\<lparr>logged := l\<rparr>) = far s"
    and ready_mapped: "ready srv s \<Longrightarrow>
      \<exists>p a g. m_pBuf srv = Some p \<and> m_hAvail srv = Sig a \<and> m_hSignal srv = Sig g \<and> 0 < shm_size (shm_objs s p)"
begin

abbreviation drt :: "(('p, 'z) fmu_world_scheme) runtime" where
  "drt \<equiv> runtime_of ser parse env"

end

text \<open>It is the contract of a proxy's peer, for every proxy.\<close>

sublocale driver_peer \<subseteq>
  driver: proxy_peer env px "ready (proxy_server px)" far "it_handle ser parse" ser parse "it_serves ser" for px
  by unfold_locales (rule request it.answers it.reply_class, assumption+)+

text \<open>
  The relation: the component is registered with this container, its server is ready for
  the driver, and the store is what the driver has.
\<close>

definition component ::
  "(IpcServer \<Rightarrow> ('p, 'z) fmu_world_scheme \<Rightarrow> bool) \<Rightarrow> (('p, 'z) fmu_world_scheme \<Rightarrow> test_driver) \<Rightarrow> nat \<Rightarrow> FmuContainer \<Rightarrow>
   ('p, 'z) fmu_world_scheme \<Rightarrow> store \<Rightarrow> bool"
where
  "component ready far k fc s a \<longleftrightarrow>
     getFmuContainer (g_clients s) (Some k) = Some k \<and> containers s k = Some fc \<and>
     ready (proxy_server (m_proxy fc)) s \<and> td_good (far s) \<and> a = store_of (far s)"

text \<open>One call of either form: its answer, and what the driver has afterwards.\<close>

context driver_peer
begin

lemma status_served:
  fixes s :: "('p, 'z) fmu_world_scheme"
  assumes inv: "component ready far k fc s a" and good: "td_good q'"
    and td: "td_answer c m (it_preset (far s)) = Some (Fmi2StatusReply Status_Ok, q')"
    and c: "c \<noteq> cmd_fmi2Log" "c \<noteq> cmd_fmi2FreeInstance" "\<forall>k. td_request_kind c = Some k \<longrightarrow> kind_of m = k"
    and m: "pb_utf8 m" "fits ser m"
  shows "\<exists>t. with_fmu (Some k) un (\<lambda>fmu. converted (sendRetStatus (drt) (m_proxy fmu) c m)) s =
      Ret fmi2OK t \<and> component ready far k fc t (store_of q') \<and> lib t = lib s"
proof -
  let ?rt = "drt" and ?px = "m_proxy fc"
  have "it_serves ser (far s) c m (Fmi2StatusReply (status_code px_OK)) q'"
    using c m td ser_ok_reply [OF protobuf_codec_axioms]
    by (simp add: it_serves_def td_serves_def pb_utf8_no_strings Status_Ok_def SharedFmiBufferSize_def)
  from driver.send_status [of ?px s c m px_OK q', OF _ this] inv m(2) obtain t where
    t: "sendRetStatus ?rt ?px c m s = Ret px_OK t" "ready (proxy_server ?px) t" "far t = q'"
    by (auto simp: component_def fits_def)
  have "env_keeps_lib (rt_env ?rt)" by (simp add: env_library)
  from keepsD [OF keeps_sendRetStatus [OF this] t(1)] have l: "lib t = lib s" .
  with t inv good have "component ready far k fc t (store_of q')"
    using getFmuContainer_cong [OF l] by (simp add: component_def)
  with l t inv show ?thesis
    by (auto simp: component_def with_fmu_registered converted_def)
qed

lemma values_served:
  fixes s :: "('p, 'z) fmu_world_scheme"
  assumes inv: "component ready far k fc s a"
    and td: "td_answer c (Fmi2GetRequest ids (of_nat (length ids))) (it_preset (far s)) =
      Some (r, it_preset (far s))"
    and c: "c \<noteq> cmd_fmi2Log" "c \<noteq> cmd_fmi2FreeInstance" "td_request_kind c = Some K_GetRequest"
    and m: "fits ser (Fmi2GetRequest ids (of_nat (length ids)))" "pb_utf8 r" "fits ser r"
    and vs: "content r = Some (True, vs)" "length vs = length out" "length out = length ids"
  shows "\<exists>t. with_fmu (Some k) un (\<lambda>fmu. converted_with
        (get_values (drt) (m_proxy fmu) c content ids (length ids) out)) s =
      Ret (fmi2OK, vs) t \<and> component ready far k fc t (constants a) \<and> lib t = lib s"
proof -
  let ?rt = "drt" and ?px = "m_proxy fc" and ?q = "far s"
  have "it_serves ser ?q c (Fmi2GetRequest ids (of_nat (length ids))) r (it_preset ?q)"
    using c m td by (simp add: it_serves_def td_serves_def pb_utf8_no_strings SharedFmiBufferSize_def fits_def)
  from driver.get_peer_values [of ?px s c ids r "it_preset ?q" content vs out, OF _ this] inv m(1) vs obtain t where
    t: "get_values ?rt ?px c content ids (length ids) out s = Ret (px_OK, vs) t"
      "ready (proxy_server ?px) t" "far t = it_preset ?q"
    by (auto simp: component_def fits_def)
  have "env_keeps_lib (rt_env ?rt)" by (simp add: env_library)
  from keepsD [OF keeps_values(1) [OF this] t(1)] have l: "lib t = lib s" .
  have "store_of (it_preset ?q) = constants a" using inv store_of_preset by (simp add: component_def td_good_def)
  with t inv have "component ready far k fc t (constants a)"
    using getFmuContainer_cong [OF l] td_good_preset by (simp add: component_def)
  with l t inv show ?thesis
    by (auto simp: component_def with_fmu_registered converted_with_def)
qed


text \<open>Setting: the driver's array of the type is the store's part that is assigned.\<close>

lemma set_served:
  fixes s :: "('p, 'z) fmu_world_scheme"
  assumes inv: "component ready far k fc s a" and ids: "td_ids_ok ids" "length vs = length ids"
    and arr: "length (field (it_preset (far s))) = TD_SIZE"
    and td: "\<And>arr. td_store ids (map conv vs) (field (it_preset (far s))) = Some arr \<Longrightarrow>
      td_answer c (req ids vs) (it_preset (far s)) =
        Some (Fmi2StatusReply Status_Ok, upd arr) \<and> td_good (upd arr) \<and>
      (view d arr = assign (view d (field (it_preset (far s)))) ids (map conv vs) \<longrightarrow> store_of (upd arr) = a')"
    and c: "c \<noteq> cmd_fmi2Log" "c \<noteq> cmd_fmi2FreeInstance" "td_request_kind c = Some (kind_of (req ids vs))"
    and m: "pb_utf8 (req ids vs)" "fits ser (req ids vs)"
  shows "\<exists>t. with_fmu (Some k) un (\<lambda>fmu. converted
        (set_values (drt) (m_proxy fmu) c req ids (length ids) vs)) s =
      Ret fmi2OK t \<and> component ready far k fc t a' \<and> lib t = lib s"
proof -
  obtain arr where arr: "td_store ids (map conv vs) (field (it_preset (far s))) = Some arr"
    using td_store_defined [OF ids(1) arr, of "map conv vs"] ids(2) by auto
  from td [OF arr] view_store [OF arr, of d] have td: "td_answer c (req ids vs) (it_preset (far s)) =
        Some (Fmi2StatusReply Status_Ok, upd arr)" "td_good (upd arr)" and "store_of (upd arr) = a'" by auto
  moreover have "set_values rt px c req ids (length ids) vs = sendRetStatus rt px c (req ids vs)" for rt px
    using ids(2) get_prefix_all [of vs] by (simp add: set_values_def fun_eq_iff andThen_def)
  then have "set_values (drt :: (('p, 'z) fmu_world_scheme) runtime) px c req ids
      (length ids) vs = sendRetStatus (drt) px c (req ids vs)" for px .
  ultimately show ?thesis
    using status_served [OF inv td(2,1) c(1,2) _ m] c(3) by (simp only:) simp
qed

text \<open>The four types, set and read.\<close>

lemma good_preset_facts:
  assumes "component ready far k fc s a"
  shows "td_good (it_preset (far s))" and "td_wf (it_preset (far s))"
    and "store_of (it_preset (far s)) = constants a"
proof -
  from assms have g: "td_good (far s)" and a: "a = store_of (far s)"
    by (simp_all add: component_def)
  from td_good_preset [OF g] show 1: "td_good (it_preset (far s))" .
  then show "td_wf (it_preset (far s))" by (simp add: td_good_def)
  from store_of_preset [of "far s"] g a show "store_of (it_preset (far s)) = constants a"
    by (simp add: td_good_def)
qed

end

text \<open>What the relation lets a call do.\<close>

definition call_served ::
  "(('p, 'z) fmu_world_scheme) runtime \<Rightarrow> (IpcServer \<Rightarrow> ('p, 'z) fmu_world_scheme \<Rightarrow> bool) \<Rightarrow>
   (('p, 'z) fmu_world_scheme \<Rightarrow> test_driver) \<Rightarrow> nat \<Rightarrow> FmuContainer \<Rightarrow> fmi_call \<Rightarrow> ('p, 'z) fmu_world_scheme \<Rightarrow> store \<Rightarrow> bool" where
  "call_served rt ready far k fc c s a \<longleftrightarrow>
     (\<exists>t. perform rt (Some k) c s = Ret (fst (store_spec c a)) t \<and>
        component ready far k fc t (snd (store_spec c a)) \<and> lib t = lib s)"

context driver_peer
begin

lemma set_real_served:
  assumes inv: "component ready far k fc s a" and ok: "call_ok ser (CallSetReal ids vs) a"
  shows "call_served drt ready far k fc (CallSetReal ids vs) s a"
proof -
  let ?q = "it_preset (far s)"
  note g = good_preset_facts [OF inv]
  from ok have ids: "td_ids_ok ids" "length vs = length ids" and m: "fits ser (Fmi2SetRealRequest ids vs)"
    by simp_all
  have "\<exists>t. with_fmu (Some k) fmi2Fatal (\<lambda>fmu. converted
        (set_values (drt) (m_proxy fmu) cmd_fmi2SetReal Fmi2SetRealRequest ids (length ids) vs)) s =
      Ret fmi2OK t \<and> component ready far k fc t (snd (store_spec (CallSetReal ids vs) a)) \<and> lib t = lib s"
  proof (rule set_served [OF inv ids, where field = reals and conv = "\<lambda>v. v" and d = 0
        and upd = "\<lambda>arr. ?q\<lparr>reals := arr\<rparr>"])
    fix arr assume arr: "td_store ids (map (\<lambda>v. v) vs) (reals ?q) = Some arr"
    with td_store_length [OF this] g show "td_answer cmd_fmi2SetReal (Fmi2SetRealRequest ids vs) ?q =
          Some (Fmi2StatusReply Status_Ok, ?q\<lparr>reals := arr\<rparr>) \<and> td_good (?q\<lparr>reals := arr\<rparr>) \<and>
        (view 0 arr = assign (view 0 (reals ?q)) ids (map (\<lambda>v. v) vs) \<longrightarrow>
         store_of (?q\<lparr>reals := arr\<rparr>) = snd (store_spec (CallSetReal ids vs) a))"
      by (simp add: td_good_def td_wf_def store_spec_def store_of_def flip: g(3))
  qed (use g m in \<open>simp_all add: td_wf_def pb_utf8_no_strings\<close>)
  with ids show ?thesis
    by (auto simp: call_served_def fmi2SetReal_def FmuProxy_fmi2SetReal_def status_of_def store_spec_def andThen_def)
qed

lemma set_integer_served:
  assumes inv: "component ready far k fc s a" and ok: "call_ok ser (CallSetInteger ids vs) a"
  shows "call_served drt ready far k fc (CallSetInteger ids vs) s a"
proof -
  let ?q = "it_preset (far s)"
  note g = good_preset_facts [OF inv]
  from ok have ids: "td_ids_ok ids" "length vs = length ids" and m: "fits ser (Fmi2SetIntegerRequest ids vs)"
    by simp_all
  have "\<exists>t. with_fmu (Some k) fmi2Fatal (\<lambda>fmu. converted
        (set_values (drt) (m_proxy fmu) cmd_fmi2SetInteger Fmi2SetIntegerRequest ids (length ids) vs)) s =
      Ret fmi2OK t \<and> component ready far k fc t (snd (store_spec (CallSetInteger ids vs) a)) \<and> lib t = lib s"
  proof (rule set_served [OF inv ids, where field = ints and conv = "\<lambda>v. v" and d = 0
        and upd = "\<lambda>arr. ?q\<lparr>ints := arr\<rparr>"])
    fix arr assume arr: "td_store ids (map (\<lambda>v. v) vs) (ints ?q) = Some arr"
    with td_store_length [OF this] g show "td_answer cmd_fmi2SetInteger (Fmi2SetIntegerRequest ids vs) ?q =
          Some (Fmi2StatusReply Status_Ok, ?q\<lparr>ints := arr\<rparr>) \<and> td_good (?q\<lparr>ints := arr\<rparr>) \<and>
        (view 0 arr = assign (view 0 (ints ?q)) ids (map (\<lambda>v. v) vs) \<longrightarrow>
         store_of (?q\<lparr>ints := arr\<rparr>) = snd (store_spec (CallSetInteger ids vs) a))"
      by (simp add: td_good_def td_wf_def store_spec_def store_of_def flip: g(3))
  qed (use g m in \<open>simp_all add: td_wf_def pb_utf8_no_strings\<close>)
  with ids show ?thesis
    by (auto simp: call_served_def fmi2SetInteger_def FmuProxy_fmi2SetInteger_def status_of_def store_spec_def andThen_def)
qed

lemma set_boolean_served:
  assumes inv: "component ready far k fc s a" and ok: "call_ok ser (CallSetBoolean ids vs) a"
  shows "call_served drt ready far k fc (CallSetBoolean ids vs) s a"
proof -
  let ?q = "it_preset (far s)" and ?req = "\<lambda>refs vs. Fmi2SetBooleanRequest refs (map to_bool vs)"
  note g = good_preset_facts [OF inv]
  from ok have ids: "td_ids_ok ids" "length vs = length ids" and m: "fits ser (?req ids vs)"
    by simp_all
  have "\<exists>t. with_fmu (Some k) fmi2Fatal (\<lambda>fmu. converted
        (set_values (drt) (m_proxy fmu) cmd_fmi2SetBoolean ?req ids (length ids) vs)) s =
      Ret fmi2OK t \<and> component ready far k fc t (snd (store_spec (CallSetBoolean ids vs) a)) \<and> lib t = lib s"
  proof (rule set_served [OF inv ids, where field = bools and conv = to_bool and d = False
        and upd = "\<lambda>arr. ?q\<lparr>bools := arr\<rparr>"])
    fix arr assume arr: "td_store ids (map to_bool vs) (bools ?q) = Some arr"
    with td_store_length [OF this] g show "td_answer cmd_fmi2SetBoolean (?req ids vs) ?q =
          Some (Fmi2StatusReply Status_Ok, ?q\<lparr>bools := arr\<rparr>) \<and> td_good (?q\<lparr>bools := arr\<rparr>) \<and>
        (view False arr = assign (view False (bools ?q)) ids (map to_bool vs) \<longrightarrow>
         store_of (?q\<lparr>bools := arr\<rparr>) = snd (store_spec (CallSetBoolean ids vs) a))"
      by (simp add: td_good_def td_wf_def store_spec_def store_of_def flip: g(3))
  qed (use g m in \<open>simp_all add: td_wf_def pb_utf8_no_strings\<close>)
  with ids show ?thesis
    by (auto simp: call_served_def fmi2SetBoolean_def FmuProxy_fmi2SetBoolean_def status_of_def store_spec_def andThen_def)
qed

lemma set_string_served:
  assumes inv: "component ready far k fc s a" and ok: "call_ok ser (CallSetString ids vs) a"
  shows "call_served drt ready far k fc (CallSetString ids vs) s a"
proof -
  let ?q = "it_preset (far s)" and ?req = "\<lambda>refs vs. Fmi2SetStringRequest refs (map c_str vs)"
  note g = good_preset_facts [OF inv]
  from ok have ids: "td_ids_ok ids" "length vs = length ids" and m: "fits ser (?req ids vs)"
    and u: "\<forall>v\<in>set (map c_str vs). utf8 v" by (simp_all add: list_all_iff)
  have "\<exists>t. with_fmu (Some k) fmi2Fatal (\<lambda>fmu. converted
        (set_values (drt) (m_proxy fmu) cmd_fmi2SetString ?req ids (length ids) vs)) s =
      Ret fmi2OK t \<and> component ready far k fc t (snd (store_spec (CallSetString ids vs) a)) \<and> lib t = lib s"
  proof (rule set_served [OF inv ids, where field = strings and conv = c_str and d = "[]"
        and upd = "\<lambda>arr. ?q\<lparr>strings := arr\<rparr>"])
    fix arr assume arr: "td_store ids (map c_str vs) (strings ?q) = Some arr"
    have "\<forall>v\<in>set arr. utf8 v \<and> CHR 0x00 \<notin> set v"
      using td_store_set [OF arr] g(1) u by (auto simp: td_good_def c_str_no_nul)
    moreover have "c_str \<circ> c_str = c_str" by (rule ext) simp
    ultimately show "td_answer cmd_fmi2SetString (?req ids vs) ?q =
          Some (Fmi2StatusReply Status_Ok, ?q\<lparr>strings := arr\<rparr>) \<and> td_good (?q\<lparr>strings := arr\<rparr>) \<and>
        (view [] arr = assign (view [] (strings ?q)) ids (map c_str vs) \<longrightarrow>
         store_of (?q\<lparr>strings := arr\<rparr>) = snd (store_spec (CallSetString ids vs) a))"
      using arr td_store_length [OF arr] g by (simp add: td_good_def td_wf_def store_spec_def store_of_def flip: g(3))
  qed (use g m u in \<open>simp_all add: td_wf_def pb_utf8_def list_all_iff\<close>)
  with ids show ?thesis
    by (auto simp: call_served_def fmi2SetString_def FmuProxy_fmi2SetString_def status_of_def store_spec_def andThen_def)
qed

text \<open>The driver's answer to a request for values is the view of its array.\<close>

lemma view_served:
  assumes inv: "component ready far k fc s a" and ids: "td_ids_ok ids"
  shows "td_fetch ids (reals (it_preset (far s))) = Some (map (st_reals (constants a)) ids)"
    and "td_fetch ids (ints (it_preset (far s))) = Some (map (st_ints (constants a)) ids)"
    and "td_fetch ids (bools (it_preset (far s))) = Some (map (st_bools (constants a)) ids)"
    and "td_fetch ids (strings (it_preset (far s))) = Some (map (st_strings (constants a)) ids)"
  using good_preset_facts(2) [OF inv]
  by (simp_all add: td_wf_def view_fetch [OF ids] flip: good_preset_facts(3) [OF inv])

lemma get_served:
  assumes inv: "component ready far k fc s a" and ids: "td_ids_ok ids" and m: "fits ser (Fmi2GetRequest ids (of_nat (length ids)))"
  shows "fits ser (Fmi2GetRealReply (map (st_reals (constants a)) ids)) \<Longrightarrow>
      call_served drt ready far k fc (CallGetReal ids) s a"
    and "fits ser (Fmi2GetIntegerReply (map (st_ints (constants a)) ids)) \<Longrightarrow>
      call_served drt ready far k fc (CallGetInteger ids) s a"
    and "fits ser (Fmi2GetBooleanReply (map (st_bools (constants a)) ids)) \<Longrightarrow>
      call_served drt ready far k fc (CallGetBoolean ids) s a"
proof -
  note served = values_served [OF inv _ _ _ _ m _ _, where un = "(fmi2Fatal, replicate (length ids) 0)"
      and out = "replicate (length ids) 0"]
  note v = view_served [OF inv ids]
  show "call_served drt ready far k fc (CallGetReal ids) s a"
    if "fits ser (Fmi2GetRealReply (map (st_reals (constants a)) ids))"
    using served [of cmd_fmi2GetReal "Fmi2GetRealReply (map (st_reals (constants a)) ids)" real_values
        "map (st_reals (constants a)) ids"] that v(1)
    by (auto simp: call_served_def fmi2GetReal_def FmuProxy_fmi2GetReal_def values_of_def store_spec_def andThen_def
        pb_utf8_no_strings)
  show "call_served drt ready far k fc (CallGetInteger ids) s a"
    if "fits ser (Fmi2GetIntegerReply (map (st_ints (constants a)) ids))"
    using served [of cmd_fmi2GetInteger "Fmi2GetIntegerReply (map (st_ints (constants a)) ids)" integer_values
        "map (st_ints (constants a)) ids"] that v(2)
    by (auto simp: call_served_def fmi2GetInteger_def FmuProxy_fmi2GetInteger_def values_of_def store_spec_def andThen_def
        pb_utf8_no_strings)
  show "call_served drt ready far k fc (CallGetBoolean ids) s a"
    if "fits ser (Fmi2GetBooleanReply (map (st_bools (constants a)) ids))"
    using served [of cmd_fmi2GetBoolean "Fmi2GetBooleanReply (map (st_bools (constants a)) ids)" boolean_values
        "map of_bool_int (map (st_bools (constants a)) ids)"] that v(3)
    by (auto simp: call_served_def fmi2GetBoolean_def FmuProxy_fmi2GetBoolean_def values_of_def store_spec_def andThen_def
        pb_utf8_no_strings comp_def)
qed

text \<open>The texts that come back are the stored ones: none has a NUL.\<close>

lemma stored_strings:
  assumes inv: "component ready far k fc s a" and ids: "td_ids_ok ids" and v: "v \<in> set (map (st_strings (constants a)) ids)"
  shows "utf8 v" and "CHR 0x00 \<notin> set v"
proof -
  let ?q = "it_preset (far s)"
  from v obtain i where i: "i \<in> set ids" "v = view [] (strings ?q) i"
    using good_preset_facts(3) [OF inv] by (auto simp: store_of_simps(4) [symmetric] simp del: store_of_simps)
  with ids good_preset_facts [OF inv] have "v \<in> set (strings ?q)"
    by (auto simp: view_def get_at_def td_ids_ok_def td_wf_def)
  then show "utf8 v" and "CHR 0x00 \<notin> set v" using good_preset_facts(1) [OF inv] by (auto simp: td_good_def)
qed

lemma get_string_served:
  assumes inv: "component ready far k fc s a" and ok: "call_ok ser (CallGetString ids) a"
  shows "call_served drt ready far k fc (CallGetString ids) s a"
proof -
  let ?vs = "map (st_strings (constants a)) ids"
  from ok have ids: "td_ids_ok ids" and m: "fits ser (Fmi2GetRequest ids (of_nat (length ids)))"
    "fits ser (Fmi2GetStringReply ?vs True)" by simp_all
  note str = stored_strings [OF inv ids]
  have vs: "map c_str ?vs = ?vs" using str(2) by (intro map_c_str_id) blast
  have u: "pb_utf8 (Fmi2GetStringReply ?vs True)" using str(1) by (auto simp: pb_utf8_def list_all_iff)
  from values_served [OF inv _ _ _ _ m(1) u m(2), of cmd_fmi2GetString string_values ?vs
      "replicate (length ids) []" "(fmi2Fatal, replicate (length ids) [])"] view_served(4) [OF inv ids] vs
  show ?thesis
    by (auto simp: call_served_def fmi2GetString_def FmuProxy_fmi2GetString_def values_of_def store_spec_def andThen_def)
qed

text \<open>The calls without data.\<close>

lemma mode_served:
  assumes inv: "component ready far k fc s a"
  shows "call_ok ser (CallSetupExperiment td tol start sd stop) a \<Longrightarrow>
      call_served drt ready far k fc (CallSetupExperiment td tol start sd stop) s a"
    and "call_ok ser (CallDoStep x h n) a \<Longrightarrow> call_served drt ready far k fc (CallDoStep x h n) s a"
    and "call_served drt ready far k fc CallEnterInitializationMode s a"
    and "call_served drt ready far k fc CallExitInitializationMode s a"
    and "call_served drt ready far k fc CallTerminate s a"
    and "call_served drt ready far k fc CallReset s a"
proof -
  note g = good_preset_facts [OF inv]
  note served = status_served [OF inv g(1), unfolded g(3)]
  have empty: "fits ser Fmi2Empty" "pb_utf8 Fmi2Empty" using ser_default [of K_Empty]
    by (simp_all add: fits_def pb_utf8_no_strings)
  note defs = call_served_def status_of_def store_spec_def andThen_def pb_utf8_no_strings
  show "call_served drt ready far k fc (CallSetupExperiment td tol start sd stop) s a"
    if "call_ok ser (CallSetupExperiment td tol start sd stop) a"
    using served [of cmd_fmi2SetupExperiment "Fmi2SetupExperimentRequest (to_bool td) tol start (to_bool sd) stop" fmi2OK] that
    by (auto simp: fmi2SetupExperiment_def FmuProxy_fmi2SetupExperiment_def defs)
  show "call_served drt ready far k fc (CallDoStep x h n) s a" if "call_ok ser (CallDoStep x h n) a"
    using served [of cmd_fmi2DoStep "Fmi2DoStepRequest x h" fmi2Fatal] that
    by (auto simp: fmi2DoStep_def FmuProxy_fmi2DoStep_def defs)
  show "call_served drt ready far k fc CallEnterInitializationMode s a"
    using served [of cmd_fmi2EnterInitializationMode Fmi2Empty fmi2Fatal] empty
    by (auto simp: fmi2EnterInitializationMode_def FmuProxy_fmi2EnterInitializationMode_def defs)
  show "call_served drt ready far k fc CallExitInitializationMode s a"
    using served [of cmd_fmi2ExitInitializationMode Fmi2Empty fmi2Fatal] empty
    by (auto simp: fmi2ExitInitializationMode_def FmuProxy_fmi2ExitInitializationMode_def defs)
  show "call_served drt ready far k fc CallTerminate s a"
    using served [of cmd_fmi2Terminate Fmi2Empty fmi2Fatal] empty
    by (auto simp: fmi2Terminate_def FmuProxy_fmi2Terminate_def defs)
  show "call_served drt ready far k fc CallReset s a"
    using served [of cmd_fmi2Reset Fmi2Empty fmi2Fatal] empty
    by (auto simp: fmi2Reset_def FmuProxy_fmi2Reset_def defs)
qed

end

end
