(* ===== verification/FmuQueries.thy ===== *)
theory FmuQueries
  imports FmuStore
begin

text \<open>
  The rest of the component's functions against the store: the queries of a status and of the largest
  step, the debug logging, which changes the component's own printer, and the functions that the
  wrapper answers itself. With them every function of the library between the creation and the end of
  an instance refines its specification.
\<close>

section \<open>The relation and the library's own data\<close>

lemma channel_library [simp]:
  fixes s :: "('p, 'z) fmu_world_scheme"
  shows "at_rest srv cl (s\<lparr>containers := a\<rparr>) = at_rest srv cl s" "at_rest srv cl (s\<lparr>logged := l\<rparr>) = at_rest srv cl s"
    "at_rest srv cl (s\<lparr>launched := x\<rparr>) = at_rest srv cl s"
    "server_fresh u n srv (s\<lparr>containers := a\<rparr>) = server_fresh u n srv s"
    "server_fresh u n srv (s\<lparr>logged := l\<rparr>) = server_fresh u n srv s"
    "server_fresh u n srv (s\<lparr>launched := x\<rparr>) = server_fresh u n srv s"
  by (simp_all add: at_rest_def server_fresh_def server_ready_def os_wf_def)

lemma channel_printer [simp]:
  "at_rest (srv\<lparr>debugPrintPtr := d\<rparr>) cl s = at_rest srv cl s"
  "server_fresh u n (srv\<lparr>debugPrintPtr := d\<rparr>) s = server_fresh u n srv s"
  by (simp_all add: at_rest_def same_channel_def server_fresh_def server_ready_def)

lemma set_debug_printer_simps [simp]:
  "proxy_server (m_proxy (set_debug_printer d fc)) = (proxy_server (m_proxy fc))\<lparr>debugPrintPtr := d\<rparr>"
  "set_debug_printer d (set_debug_printer d' fc) = set_debug_printer d fc"
  by (simp_all add: set_debug_printer_def)

lemma set_debug_printer_same: "set_debug_printer (debugPrintPtr (proxy_server (m_proxy fc))) fc = fc"
  by (simp add: set_debug_printer_def)

lemma delete_printer [simp]: "IpcServer_delete u (srv\<lparr>debugPrintPtr := d\<rparr>) t = IpcServer_delete u srv t"
  by (simp add: IpcServer_delete_def IpcServer_close_def IpcBase_delete_def Let_def
      split: option.split)

context driver_peer
begin

lemma component_container:
  assumes "component ready far k fc s a" and "proxy_server (m_proxy fc') = (proxy_server (m_proxy fc))\<lparr>debugPrintPtr := d\<rparr>"
  shows "component ready far k fc' (s\<lparr>containers := (containers s)(k \<mapsto> fc')\<rparr>) a"
proof -
  from assms(1) have "ready (proxy_server (m_proxy fc)) s" by (simp add: component_def)
  from ready_printer [OF this] have "ready (proxy_server (m_proxy fc')) s" by (simp add: assms(2))
  from ready_library(1) [OF this] assms(1) show ?thesis by (simp add: component_def far_library)
qed

lemma component_logged: "component ready far k fc s a \<Longrightarrow> component ready far k fc (s\<lparr>logged := l\<rparr>) a"
  by (simp add: component_def ready_library far_library)

end

section \<open>The calls\<close>

text \<open>What every call does: its answer, and at most another printer in the component's container.\<close>

definition call_answers ::
  "(('p, 'z) fmu_world_scheme) runtime \<Rightarrow> (IpcServer \<Rightarrow> ('p, 'z) fmu_world_scheme \<Rightarrow> bool) \<Rightarrow>
   (('p, 'z) fmu_world_scheme \<Rightarrow> test_driver) \<Rightarrow> nat \<Rightarrow> FmuContainer \<Rightarrow> fmi_call \<Rightarrow> ('p, 'z) fmu_world_scheme \<Rightarrow> store \<Rightarrow> bool" where
  "call_answers rt ready far k fc c s a \<longleftrightarrow>
     (\<exists>t d. perform rt (Some k) c s = Ret (fst (store_spec c a)) t \<and>
        component ready far k (set_debug_printer d fc) t (snd (store_spec c a)) \<and> g_clients t = g_clients s \<and>
        containers t = (containers s)(k \<mapsto> set_debug_printer d fc))"

lemma call_served_answers:
  assumes "call_served rt ready far k fc c s a" and "component ready far k fc s a"
  shows "call_answers rt ready far k fc c s a"
proof -
  from assms obtain t where t: "perform rt (Some k) c s = Ret (fst (store_spec c a)) t"
    "component ready far k fc t (snd (store_spec c a))" "lib t = lib s" by (auto simp: call_served_def)
  moreover have "containers s k = Some fc" using assms(2) by (simp add: component_def)
  ultimately show ?thesis
    unfolding call_answers_def
    by (intro exI [of _ t] exI [of _ "debugPrintPtr (proxy_server (m_proxy fc))"])
      (simp add: set_debug_printer_same lib_def fun_upd_idem)
qed

context driver_peer
begin

lemma one_served:
  fixes s :: "('p, 'z) fmu_world_scheme"
  assumes inv: "component ready far k fc s a"
    and td: "td_answer c m (it_preset (far s)) = Some (r, it_preset (far s))"
    and c: "c \<noteq> cmd_fmi2Log" "c \<noteq> cmd_fmi2FreeInstance" "\<forall>k. td_request_kind c = Some k \<longrightarrow> kind_of m = k"
    and m: "pb_utf8 m" "fits ser m" "pb_utf8 r" "fits ser r" and v: "content r = Some v"
  shows "\<exists>t. with_fmu (Some k) un (\<lambda>fmu. converted_with
        (get_one (drt) (m_proxy fmu) c m content old)) s =
      Ret (fmi2OK, v) t \<and> component ready far k fc t (constants a) \<and> lib t = lib s"
proof -
  let ?rt = "drt" and ?px = "m_proxy fc" and ?q = "far s"
  have "it_serves ser ?q c m r (it_preset ?q)"
    using c m td by (simp add: it_serves_def td_serves_def SharedFmiBufferSize_def fits_def)
  from driver.send [of ?px s c m r "it_preset ?q", OF _ this] inv m(2) obtain t where
    "FmuProxy_send ?rt ?px c m s = Ret (Some r) t"
    and t: "ready (proxy_server ?px) t" "far t = it_preset ?q"
    by (auto simp: component_def fits_def)
  then have one: "get_one ?rt ?px c m content old s = Ret (px_OK, v) t" using v by (simp add: get_one_def)
  have "env_keeps_lib (rt_env ?rt)" by (simp add: env_library)
  from keepsD [OF keeps_values(3) [OF this] one] have l: "lib t = lib s" .
  have "component ready far k fc t (constants a)"
    using inv t good_preset_facts [OF inv] getFmuContainer_cong [OF l] by (simp add: component_def)
  with l one inv show ?thesis
    by (auto simp: component_def with_fmu_registered converted_with_def)
qed

lemma status_request_simps [simp]:
  "kind_of (status_request kd) = K_StatusRequest" "pb_utf8 (status_request kd)"
  by (cases kd; simp add: status_request_def pb_utf8_no_strings)+

lemma status_replies:
  "td_answer cmd_fmi2GetRealStatus (status_request kd) q = Some (Fmi2RealStatusReply (real_status kd), q)"
  "td_answer cmd_fmi2GetIntegerStatus (status_request kd) q = Some (Fmi2IntegerStatusReply (integer_status kd), q)"
  "td_answer cmd_fmi2GetBooleanStatus (status_request kd) q = Some (Fmi2BooleanStatusReply (boolean_status kd), q)"
  "td_answer cmd_fmi2GetStringStatus (status_request kd) q = Some (Fmi2StringStatusReply (string_status kd), q)"
  by (cases kd; simp add: status_request_def real_status_def integer_status_def boolean_status_def string_status_def)+

lemma string_status_facts: "pb_utf8 (Fmi2StringStatusReply (string_status kd))" "c_str (string_status kd) = string_status kd"
  by (cases kd; simp add: string_status_def pb_utf8_def c_str_def between_def)+

lemma query_served:
  assumes inv: "component ready far k fc s a"
  shows "call_ok ser (CallGetRealStatus kd) a \<Longrightarrow> call_served drt ready far k fc (CallGetRealStatus kd) s a"
    and "call_ok ser (CallGetIntegerStatus kd) a \<Longrightarrow> call_served drt ready far k fc (CallGetIntegerStatus kd) s a"
    and "call_ok ser (CallGetBooleanStatus kd) a \<Longrightarrow> call_served drt ready far k fc (CallGetBooleanStatus kd) s a"
    and "call_ok ser (CallGetStringStatus kd) a \<Longrightarrow> call_served drt ready far k fc (CallGetStringStatus kd) s a"
    and "call_ok ser CallGetMaxStepsize a \<Longrightarrow> call_served drt ready far k fc CallGetMaxStepsize s a"
proof -
  note defs = call_served_def values_of_def store_spec_def andThen_def
  note served = one_served [OF inv status_replies(1) [of kd]] one_served [OF inv status_replies(2) [of kd]]
    one_served [OF inv status_replies(3) [of kd]] one_served [OF inv status_replies(4) [of kd]]
  show "call_served drt ready far k fc (CallGetRealStatus kd) s a" if "call_ok ser (CallGetRealStatus kd) a"
    using served(1) [where content = real_status_of and v = "real_status kd" and un = "(fmi2Fatal, 0)" and old = 0] that
    by (auto simp: defs pb_utf8_no_strings fmi2GetRealStatus_def FmuProxy_fmi2GetRealStatus_def
        simp flip: status_request_def)
  show "call_served drt ready far k fc (CallGetIntegerStatus kd) s a" if "call_ok ser (CallGetIntegerStatus kd) a"
    using served(2) [where content = integer_status_of and v = "integer_status kd" and un = "(fmi2Fatal, 0)" and old = 0] that
    by (auto simp: defs pb_utf8_no_strings fmi2GetIntegerStatus_def FmuProxy_fmi2GetIntegerStatus_def
        simp flip: status_request_def)
  show "call_served drt ready far k fc (CallGetBooleanStatus kd) s a" if "call_ok ser (CallGetBooleanStatus kd) a"
    using served(3) [where content = boolean_status_of and v = "of_bool_int (boolean_status kd)" and un = "(fmi2Fatal, 0)" and old = 0] that
    by (auto simp: defs pb_utf8_no_strings fmi2GetBooleanStatus_def FmuProxy_fmi2GetBooleanStatus_def
        simp flip: status_request_def)
  show "call_served drt ready far k fc (CallGetStringStatus kd) s a" if "call_ok ser (CallGetStringStatus kd) a"
    using served(4) [where content = string_status_of and v = "string_status kd" and un = "(fmi2Fatal, [])" and old = "[]"] that
    by (auto simp: defs string_status_facts fmi2GetStringStatus_def FmuProxy_fmi2GetStringStatus_def
        simp flip: status_request_def)
  have "fits ser Fmi2Empty" "pb_utf8 Fmi2Empty" using ser_default [of K_Empty]
    by (simp_all add: fits_def pb_utf8_no_strings)
  then show "call_served drt ready far k fc CallGetMaxStepsize s a" if "call_ok ser CallGetMaxStepsize a"
    using one_served [OF inv, of cmd_fmi2GetMaxStepSize Fmi2Empty "Fmi2GetMaxStepSizeReply 0x4059000000000000"
        maxstepsize_of "0x4059000000000000" "(fmi2Fatal, 0)" 0] that
    by (auto simp: defs pb_utf8_no_strings fmi2GetMaxStepsize_def FmuProxy_fmi2GetMaxStepsize_def)
qed

lemma get_status_served:
  assumes inv: "component ready far k fc s a" and ok: "call_ok ser (CallGetStatus kd) a"
  shows "call_served drt ready far k fc (CallGetStatus kd) s a"
proof -
  have "\<exists>t. with_fmu (Some k) fmi2Fatal (\<lambda>fmu. converted (sendRetStatus (drt) (m_proxy fmu)
      cmd_fmi2GetStatus (status_request kd))) s = Ret fmi2OK t \<and> component ready far k fc t (constants a) \<and> lib t = lib s"
    using status_served [OF inv good_preset_facts(1) [OF inv], of cmd_fmi2GetStatus "status_request kd" fmi2Fatal] ok
    by (simp add: good_preset_facts(3) [OF inv])
  then obtain t where t: "component ready far k fc t (constants a)" "lib t = lib s" and run:
    "with_fmu (Some k) fmi2Fatal (\<lambda>fmu. converted (sendRetStatus (drt) (m_proxy fmu)
      cmd_fmi2GetStatus (status_request kd))) s = Ret fmi2OK t" by blast
  have reg: "getFmuContainer (g_clients s) (Some k) = Some k" "containers s k = Some fc"
    using inv by (simp_all add: component_def)
  have "sendRetStatus (drt) (m_proxy fc) cmd_fmi2GetStatus (status_request kd) s = Ret px_OK t"
    using run by (auto simp: with_fmu_registered [OF reg] converted_def andThen_Ret_iff elim: convertStatus.elims)
  then have "perform drt (Some k) (CallGetStatus kd) s = Ret (AnswerStatus fmi2OK fmi2OK) t"
    by (simp add: values_of_def fmi2GetStatus_def FmuProxy_fmi2GetStatus_def with_fmu_registered [OF reg] andThen_def
        flip: status_request_def)
  with t show ?thesis by (simp add: call_served_def store_spec_def)
qed

lemma debug_logging_answers:
  fixes s :: "('p, 'z) fmu_world_scheme"
  assumes inv: "component ready far k fc s a" and ok: "call_ok ser (CallSetDebugLogging loggingOn cats) a"
  shows "call_answers drt ready far k fc (CallSetDebugLogging loggingOn cats) s a"
proof -
  let ?rt = "drt :: (('p, 'z) fmu_world_scheme) runtime"
  let ?d = "debug_categories loggingOn (map c_str cats) (debugPrintPtr (proxy_server (m_proxy fc)))"
  let ?fc = "set_debug_printer ?d fc" and ?m = "Fmi2SetDebugLoggingRequest (to_bool loggingOn) (of_nat (length cats)) (map c_str cats)"
  let ?s = "s\<lparr>containers := (containers s)(k \<mapsto> ?fc)\<rparr>"
  have now: "component ready far k ?fc ?s a" by (rule component_container [OF inv]) simp
  note g = good_preset_facts [OF now]
  have "\<exists>t. with_fmu (Some k) fmi2Fatal (\<lambda>fmu. converted (sendRetStatus ?rt (m_proxy fmu) cmd_fmi2SetDebugLogging ?m)) ?s =
      Ret fmi2OK t \<and> component ready far k ?fc t (constants a) \<and> lib t = lib ?s"
    using status_served [OF now g(1), of cmd_fmi2SetDebugLogging ?m fmi2Fatal] ok g(3)
    by (simp add: pb_utf8_def)
  then obtain t where t: "component ready far k ?fc t (constants a)" "lib t = lib ?s" and run:
    "with_fmu (Some k) fmi2Fatal (\<lambda>fmu. converted (sendRetStatus ?rt (m_proxy fmu) cmd_fmi2SetDebugLogging ?m)) ?s = Ret fmi2OK t"
    by blast
  have reg: "getFmuContainer (g_clients s) (Some k) = Some k" "containers s k = Some fc"
    using inv by (simp_all add: component_def)
  have reg': "getFmuContainer (g_clients ?s) (Some k) = Some k" "containers ?s k = Some ?fc"
    using now by (simp_all add: component_def)
  have "fmi2SetDebugLogging ?rt (Some k) loggingOn (length cats) cats s = Ret fmi2OK t"
    using run get_prefix_all [of cats]
    by (simp add: fmi2SetDebugLogging_def with_fmu_registered [OF reg] with_fmu_registered [OF reg'] set_container_def Let_def
        FmuProxy_fmi2SetDebugLogging_def converted_def andThen_def)
  then have "perform ?rt (Some k) (CallSetDebugLogging loggingOn cats) s = Ret (Answer fmi2OK) t"
    by (simp add: status_of_def)
  with t show ?thesis
    unfolding call_answers_def by (intro exI [of _ t] exI [of _ ?d]) (simp add: store_spec_def lib_def)
qed

text \<open>The functions that are not forwarded log at most.\<close>

lemma not_forwarded_run:
  assumes "f \<in> set functions_not_forwarded" and "containers s k = Some fc"
  shows "\<exists>m l. not_forwarded f (Some k) = Some m \<and> m s = Ret fmi2Error (s\<lparr>logged := l\<rparr>)"
proof -
  have same: "\<exists>l. s = s\<lparr>logged := l\<rparr>" by (rule logged_same)
  have "\<exists>l. andThen (notimplemented (Some k) what) (\<lambda>_. ret fmi2Error) s = Ret fmi2Error (s\<lparr>logged := l\<rparr>)" for what
    using assms(2)
    by (cases "has_logger (m_functions fc)")
      (auto simp: logged_same notimplemented_def get_container_def call_logger_def andThen_def)
  with same show ?thesis
    using assms(1) by (auto simp: functions_not_forwarded_def fmi2GetFMUstate_def fmi2SetFMUstate_def fmi2FreeFMUstate_def
        fmi2SerializedFMUstateSize_def fmi2SerializeFMUstate_def fmi2DeSerializeFMUstate_def
        fmi2GetDirectionalDerivative_def fmi2SetRealInputDerivatives_def fmi2GetRealOutputDerivatives_def fmi2CancelStep_def
        fmi2EnterEventMode_def fmi2NewDiscreteStates_def fmi2EnterContinuousTimeMode_def fmi2CompletedIntegratorStep_def
        fmi2SetTime_def fmi2SetContinuousStates_def fmi2GetDerivatives_def fmi2GetEventIndicators_def
        fmi2GetContinuousStates_def fmi2GetNominalsOfContinuousStates_def)
qed

lemma not_forwarded_served:
  assumes inv: "component ready far k fc s a" and ok: "call_ok ser (CallNotForwarded f) a"
  shows "call_served drt ready far k fc (CallNotForwarded f) s a"
proof -
  from inv have "containers s k = Some fc" by (simp add: component_def)
  with ok obtain m l where "not_forwarded f (Some k) = Some m" "m s = Ret fmi2Error (s\<lparr>logged := l\<rparr>)"
    using not_forwarded_run [of f s k fc] by auto
  with component_logged [OF inv, of l] show ?thesis
    by (simp add: call_served_def status_of_def store_spec_def)
qed

lemma perform_answers: "component ready far k fc s a \<Longrightarrow> call_ok ser c a \<Longrightarrow> call_answers drt ready far k fc c s a"
  by (cases c) (simp_all add: call_served_answers set_real_served set_integer_served set_boolean_served set_string_served
      get_served get_string_served mode_served query_served get_status_served debug_logging_answers not_forwarded_served)

end

section \<open>The driver that was launched\<close>

definition tool_runtime ::
  "unix \<Rightarrow> ((test_driver tool, 'z) world_scheme \<Rightarrow> string option) \<Rightarrow> (pb_msg \<Rightarrow> byte list) \<Rightarrow>
   (pb_kind \<Rightarrow> byte list \<Rightarrow> pb_msg) \<Rightarrow> ((test_driver tool, 'z) world_scheme) runtime" where
  "tool_runtime u key ser parse = \<lparr>rt_ser = ser, rt_parse = parse, rt_env = tool_env u key (it_handle ser parse)\<rparr>"

lemma tool_env_keeps_lib:
  fixes h :: "SharedFmiMessage \<Rightarrow> (SharedFmiMessage, 'q) prog"
  shows "env_keeps_lib (tool_env u key h :: (('q tool, 'z) fmu_world_scheme) env)"
proof -
  have "lib (tool_connect u name s) = lib s" for name and s :: "('q tool, 'z) fmu_world_scheme"
    by (auto simp: tool_connect_def IpcClient_connect_def Let_def dest!: lib_openD lib_mapD lib_signalD
        split: option.split prod.splits if_splits)
  moreover have "lib (turn_env (lift_tool h) cl d s) = lib s" for cl d and s :: "('q tool, 'z) fmu_world_scheme"
  proof -
    have "env_keeps_lib (turn_env (lift_tool h) cl :: (('q tool, 'z) fmu_world_scheme) env)"
      by (rule turn_env_keeps_lib)
    then show ?thesis by (simp add: env_keeps_lib_def)
  qed
  ultimately show ?thesis
    by (simp add: env_keeps_lib_def tool_env_def Let_def split: option.split)
qed

text \<open>The key of the process is decided by the programs that were launched.\<close>

definition launch_key :: "(('q, 'z) fmu_world_scheme \<Rightarrow> string option) \<Rightarrow> bool" where
  "launch_key key \<longleftrightarrow> (\<forall>s t. launched t = launched s \<longrightarrow> key t = key s)"

lemma launch_keyD: "launch_key key \<Longrightarrow> launched t = launched s \<Longrightarrow> key t = key s"
  unfolding launch_key_def by blast

lemma tool_ready_library:
  fixes s :: "('q tool, 'z) fmu_world_scheme"
  assumes "tool_ready u key srv s" and "launch_key key"
  shows "tool_ready u key srv (s\<lparr>containers := a\<rparr>)" and "tool_ready u key srv (s\<lparr>logged := l\<rparr>)"
    and "tool_ready u key (srv\<lparr>debugPrintPtr := d\<rparr>) s"
proof -
  have "key (s\<lparr>containers := a\<rparr>) = key s" "key (s\<lparr>logged := l\<rparr>) = key s"
    by (rule launch_keyD [OF assms(2)], simp)+
  with assms(1) show "tool_ready u key srv (s\<lparr>containers := a\<rparr>)" "tool_ready u key srv (s\<lparr>logged := l\<rparr>)"
    "tool_ready u key (srv\<lparr>debugPrintPtr := d\<rparr>) s"
    by (auto simp: tool_ready_def split: option.splits)
qed

definition tool_peer ::
  "unix \<Rightarrow> ((test_driver tool, 'z) fmu_world_scheme \<Rightarrow> string option) \<Rightarrow> IpcServer \<Rightarrow>
   (test_driver tool, 'z) fmu_world_scheme \<Rightarrow> bool" where
  "tool_peer u key srv s \<longleftrightarrow> launch_key key \<and> tool_ready u key srv s"

lemma tool_ready_mapped:
  "tool_ready u key srv s \<Longrightarrow>
   \<exists>p a g. m_pBuf srv = Some p \<and> m_hAvail srv = Sig a \<and> m_hSignal srv = Sig g \<and> 0 < shm_size (shm_objs s p)"
  by (auto simp: tool_ready_def at_rest_def server_fresh_def server_ready_def split: option.splits)

sublocale protobuf_codec \<subseteq>
  tool: driver_peer ser parse "tool_env u key (it_handle ser parse)" "tool_peer u key" "\<lambda>s. tool_state (peer s)"
    for u and key :: "(test_driver tool, 'z) fmu_world_scheme \<Rightarrow> string option"
proof unfold_locales
  fix srv m r q and s :: "(test_driver tool, 'z) fmu_world_scheme"
  assume s: "tool_peer u key srv s" and h: "it_handle ser parse m (tool_state (peer s)) = Ret r q"
  from s have "tool_ready u key srv s" by (simp add: tool_peer_def)
  from tool_exchange [of u key srv s "it_handle ser parse" m r q, OF this h] s
  show "\<exists>s'. exchange (tool_env u key (it_handle ser parse)) srv INFINITE m s = Ret (Some r) s' \<and> tool_peer u key srv s' \<and>
      tool_state (peer s') = q"
    by (auto simp: tool_peer_def)
qed (auto simp: tool_peer_def tool_env_keeps_lib tool_ready_library dest: tool_ready_mapped)

text \<open>
  The component whose process this is: its server is connected to the process or waits for it, and the
  store is what the process has.
\<close>

abbreviation serving ::
  "unix \<Rightarrow> ((test_driver tool, 'z) fmu_world_scheme \<Rightarrow> string option) \<Rightarrow> nat \<Rightarrow> FmuContainer \<Rightarrow>
   (test_driver tool, 'z) fmu_world_scheme \<Rightarrow> store \<Rightarrow> bool" where
  "serving u key \<equiv> component (tool_peer u key) (\<lambda>s. tool_state (peer s))"

end
