(* ===== verification/Session.thy ===== *)
theory Session
  imports FmuQueries
begin

text \<open>
  A whole simulation: an instance is created, called and freed. The configuration file in the resource
  directory names the integration tests' driver; the launcher starts it with the key of the shared
  memory behind its name, and from then on it is the process at the other end, which connects under
  the key it was given. The calls in between are those of \<open>FmuStore\<close> and \<open>FmuQueries\<close>.
\<close>

section \<open>The program\<close>

text \<open>The key is an argument of the process: there is none before it was launched.\<close>

definition started_key :: "string \<Rightarrow> ('p, 'z) fmu_world_scheme \<Rightarrow> string option" where
  "started_key driver s =
     (case launched s of
        [(args, in_dir)] \<Rightarrow> if args \<noteq> [] \<and> hd args = driver then Some (runner_key args) else None
      | _ \<Rightarrow> None)"

definition session ::
  "unix \<Rightarrow> (('p, 'z) fmu_world_scheme) runtime \<Rightarrow> inst_os \<Rightarrow> string \<Rightarrow> string \<Rightarrow> string \<Rightarrow> callbacks option \<Rightarrow>
   c_int \<Rightarrow> c_int \<Rightarrow> fmi_call list \<Rightarrow> (fmi_answer list option, ('p, 'z) fmu_world_scheme) prog"
where
  "session u rt ios instanceName fmuGUID fmuResourceLocation functions visible loggingOn calls =
     andThen (fmi2Instantiate u rt ios instanceName fmuGUID fmuResourceLocation functions visible loggingOn) (\<lambda>c.
     if c = None then ret None
     else
       andThen (run_all (perform rt c) calls) (\<lambda>answers.
       andThen (fmi2FreeInstance u rt c) (\<lambda>_. ret (Some answers))))"

section \<open>What the system's calls leave alone\<close>

text \<open>What that means for the library.\<close>

lemma same_more:
  fixes s t :: "('p, 'z) fmu_world_scheme"
  assumes "os.more t = os.more s"
  shows "peer t = peer s" and "world.more t = world.more s" and "lib t = lib s"
    and "logged t = logged s" and "launched t = launched s"
  using assms by (cases s; cases t; simp add: lib_def)+

lemma library_key_started: "library_key (started_key driver :: ('p, 'z) fmu_world_scheme \<Rightarrow> string option)"
proof -
  have "started_key driver t = started_key driver s" if "world.more t = world.more s" for s t :: "('p, 'z) fmu_world_scheme"
  proof -
    from that have "launched t = launched s" by (cases s; cases t; simp)
    then show ?thesis by (simp only: started_key_def)
  qed
  then show ?thesis unfolding library_key_def by blast
qed

lemma launch_key_started: "launch_key (started_key driver)"
  by (simp add: launch_key_def started_key_def)

text \<open>Changing the library's own data changes nothing for the system.\<close>

lemma os_wf_library [simp]:
  fixes s :: "('p, 'z) fmu_world_scheme"
  shows "os_wf (s\<lparr>containers := a\<rparr>) = os_wf s" "os_wf (s\<lparr>logged := l\<rparr>) = os_wf s" "os_wf (s\<lparr>launched := x\<rparr>) = os_wf s"
    "os_wf (s\<lparr>g_clients := c\<rparr>) = os_wf s" "os_wf (s\<lparr>currentId := n\<rparr>) = os_wf s" "os_wf (s\<lparr>next_addr := i\<rparr>) = os_wf s"
  by (simp_all add: os_wf_def)

text \<open>
  A server that was created on the way from one state to the other, between which, besides, only the
  library's own data changed.
\<close>

definition created_between :: "unix \<Rightarrow> string \<Rightarrow> IpcServer \<Rightarrow> 'a os_scheme \<Rightarrow> 'a os_scheme \<Rightarrow> bool" where
  "created_between u key srv s t \<longleftrightarrow>
     (\<exists>srv0 (s' :: 'a os_scheme) t'. m_name srv0 = key \<and> IpcServer_create u srv0 s' = (True, srv, t') \<and>
        os.truncate s' = os.truncate s \<and> os.truncate t' = os.truncate t)"

section \<open>The steps of an instantiation\<close>

lemma inst_key_run:
  fixes s :: "('p, 'z) fmu_world_scheme"
  shows "\<exists>l. inst_key ios a b f v s = Ret (c_str (snd (uuid4 ios)))
    (s\<lparr>g_clients := base_clients (g_clients s), currentId := currentId s + 1, logged := l\<rparr>)"
proof -
  let ?tail = "andThen (if to_bool v then LOG f a fmi2OK ''logFmiCall''
        (''FMU: Called instantiate with instance '%s' and GUID '%s'' @ [CHR 0x27]) [a, b] else ret ()) (\<lambda>_.
     andThen (if \<not> fst (uuid4 ios) then LOG f a fmi2Fatal ''logFmiCall''
        ''FMU: Could not generate UUID4 for shared memory%s'' [[]]  else ret ()) (\<lambda>_.
     ret (c_str (snd (uuid4 ios)))))"
  let ?t = "s\<lparr>g_clients := base_clients (g_clients s), currentId := currentId s + 1\<rparr>"
  have "logs_only ?tail (c_str (snd (uuid4 ios)))" by (rule logs_only_rules)+
  from logs_onlyD [OF this, of ?t] obtain l where "?tail ?t = Ret (c_str (snd (uuid4 ios))) (?t\<lparr>logged := l\<rparr>)" ..
  then show ?thesis by (auto simp: inst_key_def base_clients_def)
qed

lemma inst_container_run:
  fixes s :: "('p, 'z) fmu_world_scheme"
  shows "\<exists>fc. inst_container ios name (Some cb) la key dir s = Ret (next_addr s)
      (s\<lparr>containers := (containers s)(next_addr s \<mapsto> fc), next_addr := next_addr s + 1,
         g_clients := g_clients s @ [Some (next_addr s)]\<rparr>) \<and>
    m_name (proxy_server (m_proxy fc)) = c_str key \<and> m_javaLauncher fc = la"
  by (cases "FileExists ios (dir @ ''/DEBUG'')"; simp add: inst_container_def FmuContainer_new_def Let_def
      FmuProxy_new_def IpcServer_new_def IpcBase_new_def enableConsoleDebug_def IpcBase.defs)
    (rule exI, rule conjI, rule refl, simp)+

lemma inst_initialize_run:
  fixes s :: "('p, 'z) fmu_world_scheme"
  assumes "containers s k = Some fc" and "os_wf s" and "\<And>op. \<not> refuse s op" and "signal_names_distinct u key"
    and "m_name (proxy_server (m_proxy fc)) = key"
  shows "\<exists>srv t h. inst_initialize u k s =
      Ret True (t\<lparr>containers := (containers s)(k \<mapsto> fc\<lparr>m_proxy := (m_proxy fc)\<lparr>proxy_server := srv\<rparr>\<rparr>)\<rparr>) \<and>
    server_fresh u key srv t \<and> os.more t = os.more s \<and>
    IpcServer_create u (proxy_server (m_proxy fc)) s = (True, srv, t) \<and>
    (\<forall>t :: ('p, 'z) fmu_world_scheme. IpcServer_delete u srv t =
       Ret () (shm_unlink (getMappedName u SHARED_MEM_BASE_NAME key) (close_fd h t)))"
proof -
  obtain ok srv t where c: "IpcServer_create u (proxy_server (m_proxy fc)) s = (ok, srv, t)" by (metis prod_cases3)
  from created_fresh [OF assms(2-5) c] have ok: "ok" and fresh: "server_fresh u key srv t" by simp_all
  from more_create [OF c] have more: "os.more t = os.more s" .
  then have "containers t = containers s" using same_more(3) [OF more] by (simp add: lib_def)
  then have "inst_initialize u k s =
      Ret True (t\<lparr>containers := (containers s)(k \<mapsto> fc\<lparr>m_proxy := (m_proxy fc)\<lparr>proxy_server := srv\<rparr>\<rparr>)\<rparr>)"
    using assms(1) c ok
    by (simp add: inst_initialize_def FmuProxy_initialize_def get_container_def set_container_def)
  moreover have "signal_names_distinct u (m_name (proxy_server (m_proxy fc)))" using assms(4,5) by simp
  from IpcServer_create_done(2) [OF assms(2) this c [unfolded ok [THEN eqTrueI]]] assms(5)
  have "IpcServer_delete u srv t' = Ret () (shm_unlink (getMappedName u SHARED_MEM_BASE_NAME key)
      (close_fd (m_hMapFile srv) t'))" for t' :: "('p, 'z) fmu_world_scheme" by simp
  moreover have "IpcServer_create u (proxy_server (m_proxy fc)) s = (True, srv, t)" using c ok by simp
  ultimately show ?thesis using fresh more by blast
qed

lemma inst_launch_run:
  assumes "containers s k = Some fc" and "m_javaLauncher fc = la"
    and "fork1 (launch_env ios) \<noteq> -1" and "fork2 (launch_env ios) \<noteq> -1" and "exec_ok (launch_env ios)"
  shows "inst_launch ios k s = Ret () (s\<lparr>containers := (containers s)(k \<mapsto>
      fc\<lparr>m_javaLauncher := la\<lparr>jl_pid := fork1 (launch_env ios), m_launched := True\<rparr>\<rparr>),
    launched := launched s @ [(jl_args la, chdir_ok (launch_env ios))]\<rparr>)"
  using assms by (simp add: inst_launch_def get_container_def set_container_def launch_def Let_def)

section \<open>The component while it serves\<close>

text \<open>The request of an instantiation, which carries the key of the callback channel.\<close>

definition instantiate_request :: "string \<Rightarrow> string \<Rightarrow> string \<Rightarrow> c_int \<Rightarrow> c_int \<Rightarrow> pb_msg" where
  "instantiate_request name guid loc visible logging =
     Fmi2InstantiateRequest (c_str name) (c_str guid) (c_str loc) (to_bool visible) (to_bool logging)
       (c_str (c_str guid @ c_str name @ ''Callback''))"

context driver_peer
begin

lemma inst_remote_run:
  fixes s :: "('p, 'z) fmu_world_scheme"
  assumes inv: "component ready far k fc s a"
    and m: "pb_utf8 (instantiate_request name guid loc visible logging)"
      "fits ser (instantiate_request name guid loc visible logging)"
  shows "\<exists>t fc'. inst_remote u (drt) k name guid loc f visible logging s = Ret (Some k) t \<and>
    component ready far k fc' t (constants a) \<and> m_proxy fc' = m_proxy fc \<and>
    g_clients t = g_clients s \<and> containers t = (containers s)(k \<mapsto> fc')"
proof -
  let ?rt = "drt :: (('p, 'z) fmu_world_scheme) runtime"
  let ?q = "far s" and ?cb = "c_str guid @ c_str name @ ''Callback''"
    and ?req = "instantiate_request name guid loc visible logging"
  have "it_serves ser ?q cmd_fmi2Instantiate ?req (Fmi2StatusReply Status_Ok) (it_preset ?q)"
    using m ser_ok_reply [OF protobuf_codec_axioms]
    by (simp add: it_serves_def td_serves_def SharedFmiBufferSize_def pb_utf8_no_strings)
  moreover have "ready (proxy_server (m_proxy fc)) s" using inv by (simp add: component_def)
  ultimately obtain t where t: "FmuProxy_send ?rt (m_proxy fc) cmd_fmi2Instantiate ?req s = Ret (Some (Fmi2StatusReply Status_Ok)) t"
    "ready (proxy_server (m_proxy fc)) t" "far t = it_preset ?q"
    using driver.send [of "m_proxy fc" s cmd_fmi2Instantiate ?req] m(2)
    by (fastforce simp: fits_def)
  then have inst: "FmuProxy_fmi2Instantiate ?rt (m_proxy fc) name guid loc ?cb visible logging s = Ret True t"
    by (simp add: FmuProxy_fmi2Instantiate_def getStatus_def instantiate_request_def Status_Ok_def Status_Error_def Status_Discard_def
        Status_Fatal_def)
  have "env_keeps_lib (rt_env ?rt)" by (simp add: env_library)
  from keepsD [OF keeps_instantiate [OF this] inst] have l: "lib t = lib s" .
  have now: "component ready far k fc t (constants a)"
    using inv t(2,3) good_preset_facts [OF inv] getFmuContainer_cong [OF l] by (simp add: component_def)
  have eq: "g_clients t = g_clients s" "containers t = containers s" using l by (simp_all add: lib_def)
  from inv have k: "containers s k = Some fc" by (simp add: component_def)
  let ?b = "(case f of None \<Rightarrow> False | Some f \<Rightarrow> has_logger f) \<and> to_bool logging"
  define fc' where "fc' = (if ?b then fc\<lparr>callbackThread := Some ?cb\<rparr> else fc)"
  have "inst_remote u ?rt k name guid loc f visible logging s = Ret (Some k) (t\<lparr>containers := (containers t)(k \<mapsto> fc')\<rparr>)"
    using inst eq k
    by (simp add: inst_remote_def Let_def get_container_def set_container_def fc'_def fun_upd_idem)
  moreover have "m_proxy fc' = m_proxy fc" by (simp add: fc'_def)
  then have "proxy_server (m_proxy fc') = (proxy_server (m_proxy fc))\<lparr>debugPrintPtr := debugPrintPtr (proxy_server (m_proxy fc))\<rparr>"
    by simp
  from component_container [OF now this] have "component ready far k fc' (t\<lparr>containers := (containers t)(k \<mapsto> fc')\<rparr>) (constants a)" .
  ultimately show ?thesis using \<open>m_proxy fc' = m_proxy fc\<close> eq by (intro exI [of _ "t\<lparr>containers := (containers t)(k \<mapsto> fc')\<rparr>"] exI [of _ fc']) simp
qed

text \<open>The request to free is not answered; the wait for an answer is a bounded one, so freeing returns.\<close>

lemma send_bounded_returns:
  assumes "ready srv s" and "d \<noteq> 0"
  shows "\<exists>r t. IpcServer_send e srv m d s = Ret r t"
proof -
  from assms(1) obtain p a g where h: "m_pBuf srv = Some p" "m_hAvail srv = Sig a" "m_hSignal srv = Sig g"
    "0 < shm_size (shm_objs s p)"
    using ready_mapped by blast
  let ?s = "s\<lparr>shm_objs := (shm_objs s)(p := (shm_objs s p)\<lparr>shm_mem := \<lparr>message = m\<rparr>\<rparr>)\<rparr>"
  obtain t where "signalPost (Sig a) ?s = Ret () t"
    by (cases "sem_val s a < SEM_VALUE_MAX") (simp_all add: signalPost_def)
  moreover have "\<exists>ok t'. signalWait e (Sig g) d t = Ret ok t'"
    using assms(2) by (auto simp: signalWait_def Let_def)
  then obtain ok t' where "signalWait e (Sig g) d t = Ret ok t'" by blast
  ultimately show ?thesis using h by (simp add: IpcServer_send_def store_msg_def)
qed

lemma free_run:
  fixes s :: "('p, 'z) fmu_world_scheme"
  assumes inv: "component ready far k fc s a"
    and del: "\<And>t :: ('p, 'z) fmu_world_scheme.
      IpcServer_delete u (proxy_server (m_proxy fc)) t = Ret () (shm_unlink n (close_fd h t))"
  shows "\<exists>t. fmi2FreeInstance u (drt) (Some k) s = Ret () t \<and> shm_names t n = None"
proof -
  let ?rt = "drt :: (('p, 'z) fmu_world_scheme) runtime"
  from inv have reg: "getFmuContainer (g_clients s) (Some k) = Some k" "containers s k = Some fc"
    and ready: "ready (proxy_server (m_proxy fc)) s" by (simp_all add: component_def)
  obtain m where "request_message cmd_fmi2FreeInstance [] = Some m" using request_small(2) [of "[]"] by auto
  moreover obtain r t where "IpcServer_send (rt_env ?rt) (proxy_server (m_proxy fc)) m 1 s = Ret r t"
    using send_bounded_returns [OF ready, where d = 1 and e = "rt_env ?rt" and m = m] by auto
  ultimately have free: "FmuProxy_fmi2FreeInstance ?rt (m_proxy fc) s = Ret () t"
    using ser_default [of K_Empty] by (simp add: FmuProxy_fmi2FreeInstance_def)
  have "env_keeps_lib (rt_env ?rt)" by (simp add: env_library)
  from keepsD [OF keeps_free [OF this] free] have "containers t = containers s" by (simp add: lib_def)
  with reg free del show ?thesis
    by (simp add: fmi2FreeInstance_def get_container_def set_container_def FmuContainer_delete_def FmuProxy_delete_def
        shm_unlink_def)
qed

end

text \<open>
  What an instantiation that launches the driver needs: a directory whose path no URI conversion
  touches, with the helper's configuration file in it, and a program that can be started.
\<close>

definition plain_dir :: "string \<Rightarrow> bool" where
  "plain_dir cwd \<longleftrightarrow>
     (\<exists>a rest. cwd = CHR ''/'' # a # rest \<and> a \<noteq> CHR ''/'' \<and> take 1 rest \<noteq> '':'') \<and>
     CHR ''%'' \<notin> set cwd \<and> CHR 0x5C \<notin> set cwd \<and> CHR 0x00 \<notin> set cwd \<and> length cwd < 2 ^ 31"

definition driver_prepared :: "inst_os \<Rightarrow> string \<Rightarrow> string \<Rightarrow> string \<Rightarrow> bool" where
  "driver_prepared ios cwd driver key \<longleftrightarrow>
     plain_dir cwd \<and> files ios (with_separator Unix cwd @ ''/config.txt'') = Some (helper_config (Some driver)) \<and>
     plain driver \<and> plain key \<and> c_str (snd (uuid4 ios)) = key \<and>
     fork1 (launch_env ios) \<noteq> -1 \<and> fork2 (launch_env ios) \<noteq> -1 \<and> exec_ok (launch_env ios)"

lemma driver_prepared_config:
  assumes "driver_prepared ios cwd driver key"
  shows "inst_resources ios (Some (''file:'' @ cwd)) s = Ret (with_separator Unix cwd) s"
    and "logs_only (inst_config ios name f visible logging key (with_separator Unix cwd))
      (False, JavaLauncher_new (to_bool visible) (with_separator Unix cwd) [driver, key], key)"
proof -
  from assms have d: "plain_dir cwd" by (simp add: driver_prepared_def)
  then obtain a rest where "cwd = CHR ''/'' # a # rest" "a \<noteq> CHR ''/''" "take 1 rest \<noteq> '':''"
    by (auto simp: plain_dir_def)
  from helper_location [OF this, of ios s] d
  show "inst_resources ios (Some (''file:'' @ cwd)) s = Ret (with_separator Unix cwd) s"
    by (simp add: plain_dir_def)
  from assms show "logs_only (inst_config ios name f visible logging key (with_separator Unix cwd))
      (False, JavaLauncher_new (to_bool visible) (with_separator Unix cwd) [driver, key], key)"
    by (intro inst_config_launches [OF helper_configured]) (simp_all add: driver_prepared_def)
qed

text \<open>Up to the channel: the key, the directory, the configuration, the container and the shared memory.\<close>

lemma inst_created:
  fixes s :: "('p, 'z) fmu_world_scheme"
  assumes prep: "driver_prepared ios cwd driver key" and sys: "system_willing u key s"
  shows "\<exists>fc t h la s0 s1 s2. m_javaLauncher fc = la \<and> jl_args la = [driver, key] \<and>
    inst_key ios name guid (Some cb) logging s = Ret key s0 \<and>
    inst_config ios name (Some cb) visible logging key (with_separator Unix cwd) s0 = Ret (False, la, key) s1 \<and>
    inst_container ios name (Some cb) la key (with_separator Unix cwd) s1 = Ret (next_addr s) s2 \<and>
    inst_initialize u (next_addr s) s2 = Ret True t \<and>
    server_fresh u key (proxy_server (m_proxy fc)) t \<and> created_between u key (proxy_server (m_proxy fc)) s t \<and>
    peer t = peer s \<and> launched t = launched s \<and> next_addr t = next_addr s + 1 \<and>
    g_clients t = base_clients (g_clients s) @ [Some (next_addr s)] \<and> containers t = (containers s)(next_addr s \<mapsto> fc) \<and>
    (\<forall>t :: ('p, 'z) fmu_world_scheme. IpcServer_delete u (proxy_server (m_proxy fc)) t =
       Ret () (shm_unlink (getMappedName u SHARED_MEM_BASE_NAME key) (close_fd h t)))"
proof -
  let ?dir = "with_separator Unix cwd" and ?k = "next_addr s"
  let ?la = "JavaLauncher_new (to_bool visible) ?dir [driver, key]"
  from prep have key: "c_str (snd (uuid4 ios)) = key" and "c_str key = key"
    by (auto simp: driver_prepared_def)
  obtain l0 s0 where run0: "inst_key ios name guid (Some cb) logging s = Ret key s0"
    and s0: "s0 = s\<lparr>g_clients := base_clients (g_clients s), currentId := currentId s + 1, logged := l0\<rparr>"
    using inst_key_run [of ios name guid "Some cb" logging s] key by auto
  obtain l1 s1 where run1: "inst_config ios name (Some cb) visible logging key ?dir s0 = Ret (False, ?la, key) s1"
    and s1: "s1 = s0\<lparr>logged := l1\<rparr>"
    using logs_onlyD [OF driver_prepared_config(2) [OF prep], of name "Some cb" visible logging s0] by auto
  obtain fc s2 where run2: "inst_container ios name (Some cb) ?la key ?dir s1 = Ret ?k s2"
    and s2: "s2 = s1\<lparr>containers := (containers s1)(?k \<mapsto> fc), next_addr := ?k + 1, g_clients := g_clients s1 @ [Some ?k]\<rparr>"
    and fc: "m_name (proxy_server (m_proxy fc)) = key" "m_javaLauncher fc = ?la"
    using inst_container_run [of ios name cb ?la key ?dir s1] \<open>c_str key = key\<close> s0 s1 by auto
  have "containers s2 ?k = Some fc" and "os_wf s2" and "\<And>op. \<not> refuse s2 op" and "signal_names_distinct u key"
    using sys by (simp_all add: system_willing_def s0 s1 s2)
  from inst_initialize_run [OF this fc(1)] obtain srv t h where
    run3: "inst_initialize u ?k s2 =
      Ret True (t\<lparr>containers := (containers s2)(?k \<mapsto> fc\<lparr>m_proxy := (m_proxy fc)\<lparr>proxy_server := srv\<rparr>\<rparr>)\<rparr>)"
    and srv: "server_fresh u key srv t" and more: "os.more t = os.more s2"
    and made: "IpcServer_create u (proxy_server (m_proxy fc)) s2 = (True, srv, t)"
    and del: "\<forall>t :: ('p, 'z) fmu_world_scheme. IpcServer_delete u srv t =
       Ret () (shm_unlink (getMappedName u SHARED_MEM_BASE_NAME key) (close_fd h t))"
    by blast
  define fc' where "fc' = fc\<lparr>m_proxy := (m_proxy fc)\<lparr>proxy_server := srv\<rparr>\<rparr>"
  define s3 where "s3 = t\<lparr>containers := (containers s2)(?k \<mapsto> fc')\<rparr>"
  note run3 = run3 [folded fc'_def, folded s3_def]
  have "m_javaLauncher fc' = ?la" "jl_args ?la = [driver, key]" "proxy_server (m_proxy fc') = srv"
    using fc(2) by (simp_all add: fc'_def JavaLauncher_new_def)
  moreover have "server_fresh u key srv s3" "peer s3 = peer s" "launched s3 = launched s" "next_addr s3 = ?k + 1"
    "g_clients s3 = base_clients (g_clients s) @ [Some ?k]" "containers s3 = (containers s)(?k \<mapsto> fc')"
    using srv same_more [OF more] by (simp_all add: s3_def s2 s1 s0 lib_def)
  moreover have "created_between u key srv s s3"
    unfolding created_between_def using fc(1) made
    by (intro exI [of _ "proxy_server (m_proxy fc)"] exI [of _ s2] exI [of _ t])
      (simp add: s3_def s2 s1 s0 os.defs)
  ultimately show ?thesis using run0 run1 run2 run3 del by blast
qed

context driver_peer
begin

lemma instantiate_run:
  fixes s :: "('p, 'z) fmu_world_scheme"
  assumes prep: "driver_prepared ios cwd driver key" and sys: "system_willing u key s"
    and begins: "\<forall>srv t in_dir. created_between u key srv s t \<longrightarrow> server_fresh u key srv t \<longrightarrow> peer t = peer s \<longrightarrow>
      launched t = launched s @ [([driver, key], in_dir)] \<longrightarrow> next_addr t = next_addr s + 1 \<longrightarrow> ready srv t \<and> far t = q" and q: "td_good q"
    and m: "pb_utf8 (instantiate_request name guid (''file:'' @ cwd) visible logging)"
      "fits ser (instantiate_request name guid (''file:'' @ cwd) visible logging)"
  shows "\<exists>t fc h. fmi2Instantiate u (drt) ios name guid (''file:'' @ cwd) (Some cb)
      visible logging s = Ret (Some (next_addr s)) t \<and>
    component ready far (next_addr s) fc t (constants (store_of q)) \<and>
    g_clients t = base_clients (g_clients s) @ [Some (next_addr s)] \<and> containers t = (containers s)(next_addr s \<mapsto> fc) \<and>
    (\<forall>t :: ('p, 'z) fmu_world_scheme. IpcServer_delete u (proxy_server (m_proxy fc)) t =
       Ret () (shm_unlink (getMappedName u SHARED_MEM_BASE_NAME key) (close_fd h t)))"
proof -
  let ?rt = "drt" and ?dir = "with_separator Unix cwd" and ?k = "next_addr s"
  from inst_created [OF prep sys, of name guid cb logging visible] obtain fc t h la s0 s1 s2 where
    la: "m_javaLauncher fc = la" "jl_args la = [driver, key]" and run:
    "inst_key ios name guid (Some cb) logging s = Ret key s0"
    "inst_config ios name (Some cb) visible logging key ?dir s0 = Ret (False, la, key) s1"
    "inst_container ios name (Some cb) la key ?dir s1 = Ret ?k s2" "inst_initialize u ?k s2 = Ret True t" and
    t: "server_fresh u key (proxy_server (m_proxy fc)) t" "peer t = peer s" "launched t = launched s" "next_addr t = ?k + 1"
    "created_between u key (proxy_server (m_proxy fc)) s t"
    "g_clients t = base_clients (g_clients s) @ [Some ?k]" "containers t = (containers s)(?k \<mapsto> fc)" and
    del: "\<forall>t :: ('p, 'z) fmu_world_scheme. IpcServer_delete u (proxy_server (m_proxy fc)) t =
       Ret () (shm_unlink (getMappedName u SHARED_MEM_BASE_NAME key) (close_fd h t))" by blast
  obtain l where log: "(if to_bool logging then LOG (Some cb) name fmi2OK ''logFmiCall''
      ''FMU: FMU Server create, hosting SHM with raw key: %s'' [key] else ret ()) t = Ret () (t\<lparr>logged := l\<rparr>)"
    using logs_onlyD [OF logs_only_LOG] by blast
  define fc1 where "fc1 = fc\<lparr>m_javaLauncher := la\<lparr>jl_pid := fork1 (launch_env ios), m_launched := True\<rparr>\<rparr>"
  define t1 where "t1 = t\<lparr>logged := l, containers := (containers t)(?k \<mapsto> fc1),
    launched := launched s @ [([driver, key], chdir_ok (launch_env ios))]\<rparr>"
  have launch: "inst_launch ios ?k (t\<lparr>logged := l\<rparr>) = Ret () t1"
    using prep t la inst_launch_run [of "t\<lparr>logged := l\<rparr>" ?k fc la ios]
    by (simp add: driver_prepared_def t1_def fc1_def)
  have "os.truncate t1 = os.truncate t" by (simp add: t1_def os.defs)
  with t(5) have "created_between u key (proxy_server (m_proxy fc1)) s t1" by (simp add: created_between_def fc1_def)
  from begins [rule_format, OF this _ _, of "chdir_ok (launch_env ios)"] t have "ready (proxy_server (m_proxy fc1)) t1" "far t1 = q"
    by (simp_all add: t1_def fc1_def)
  then have "component ready far ?k fc1 t1 (store_of q)"
    using t q by (simp add: component_def getFmuContainer_Some) (simp add: t1_def)
  from inst_remote_run [OF this m, where f = "Some cb" and u = u] obtain t2 fc2 where
    remote: "inst_remote u ?rt ?k name guid (''file:'' @ cwd) (Some cb) visible logging t1 = Ret (Some ?k) t2"
    and t2: "component ready far ?k fc2 t2 (constants (store_of q))" "m_proxy fc2 = m_proxy fc1"
      "g_clients t2 = g_clients t1" "containers t2 = (containers t1)(?k \<mapsto> fc2)" by blast
  have "fmi2Instantiate u ?rt ios name guid (''file:'' @ cwd) (Some cb) visible logging s = Ret (Some ?k) t2"
    using run log launch remote driver_prepared_config(1) [OF prep, of s0] by (simp add: fmi2Instantiate_def)
  moreover have "g_clients t2 = base_clients (g_clients s) @ [Some ?k]" "containers t2 = (containers s)(?k \<mapsto> fc2)"
    "m_proxy fc2 = m_proxy fc"
    using t2 t by (simp_all add: t1_def fc1_def)
  ultimately show ?thesis using t2(1) del by (intro exI [of _ t2] exI [of _ fc2] exI [of _ h]) simp
qed

end

section \<open>Properties\<close>

text \<open>
  The relation of the refinement: the component serves, with any debug printer, and the registry and
  the other containers are the ones it started with.
\<close>

definition served ::
  "(IpcServer \<Rightarrow> ('p, 'z) fmu_world_scheme \<Rightarrow> bool) \<Rightarrow> (('p, 'z) fmu_world_scheme \<Rightarrow> test_driver) \<Rightarrow> nat \<Rightarrow> FmuContainer \<Rightarrow>
   nat option list \<Rightarrow> (nat \<Rightarrow> FmuContainer option) \<Rightarrow> ('p, 'z) fmu_world_scheme \<Rightarrow> store \<Rightarrow> bool"
where
  "served ready far k fc cs con s a \<longleftrightarrow> g_clients s = cs \<and>
     (\<exists>d. component ready far k (set_debug_printer d fc) s a \<and> containers s = con(k \<mapsto> set_debug_printer d fc))"

lemma component_served:
  assumes "component ready far k fc s a"
  shows "served ready far k fc (g_clients s) (containers s) s a"
proof -
  have "containers s k = Some fc" using assms by (simp add: component_def)
  with assms show ?thesis
    unfolding served_def
    by (intro conjI refl exI [of _ "debugPrintPtr (proxy_server (m_proxy fc))"])
      (simp_all add: set_debug_printer_same fun_upd_idem)
qed

sublocale driver_peer \<subseteq>
  store: call_refinement "perform (runtime_of ser parse env) (Some k)" store_spec "call_ok ser" "served ready far k fc cs con"
    for k fc cs con
proof unfold_locales
  fix c a and s :: "('p, 'z) fmu_world_scheme"
  assume "served ready far k fc cs con s a" and ok: "call_ok ser c a"
  then obtain d where s: "component ready far k (set_debug_printer d fc) s a" "g_clients s = cs"
    "containers s = con(k \<mapsto> set_debug_printer d fc)" by (auto simp: served_def)
  from perform_answers [OF s(1) ok] obtain t d' where
    "perform drt (Some k) c s = Ret (fst (store_spec c a)) t"
    "component ready far k (set_debug_printer d' fc) t (snd (store_spec c a))" "g_clients t = cs"
    "containers t = con(k \<mapsto> set_debug_printer d' fc)"
    using s(2,3) by (auto simp: call_answers_def)
  then show "\<exists>s'. perform drt (Some k) c s = Ret (fst (store_spec c a)) s' \<and>
      served ready far k fc cs con s' (snd (store_spec c a))"
    by (auto simp: served_def)
qed

context driver_peer
begin

lemmas run_store = store.run_refines

end

text \<open>For the driver that the library launches: a created server whose process was started with its key is served.\<close>

lemma started_serves:
  fixes t :: "(test_driver tool, 'z) fmu_world_scheme"
  assumes "server_fresh u key srv t" and "peer t = \<lparr>tool_client = None, tool_state = q\<rparr>" and "launched t = [([driver, key], in_dir)]"
  shows "tool_peer u (started_key driver) srv t \<and> tool_state (peer t) = q"
  using assms library_key_started [of driver, where 'p = "test_driver tool" and 'z = 'z] launch_key_started
  by (simp add: tool_peer_def tool_ready_def started_key_def runner_key_def)

context protobuf_codec
begin

lemmas tool_run_store = tool.run_store [folded tool_runtime_def]

lemmas tool_free_run = tool.free_run [folded tool_runtime_def]

lemma tool_instantiate_run:
  fixes s :: "(test_driver tool, 'z) fmu_world_scheme"
  assumes "driver_prepared ios cwd driver key" and "system_willing u key s"
    and "launched s = []" and "peer s = \<lparr>tool_client = None, tool_state = q\<rparr>" and "td_good q"
    and "pb_utf8 (instantiate_request name guid (''file:'' @ cwd) visible logging)"
    and "fits ser (instantiate_request name guid (''file:'' @ cwd) visible logging)"
  shows "\<exists>t fc h. fmi2Instantiate u (tool_runtime u (started_key driver) ser parse) ios name guid (''file:'' @ cwd) (Some cb)
      visible logging s = Ret (Some (next_addr s)) t \<and>
    serving u (started_key driver) (next_addr s) fc t (constants (store_of q)) \<and>
    g_clients t = base_clients (g_clients s) @ [Some (next_addr s)] \<and> containers t = (containers s)(next_addr s \<mapsto> fc) \<and>
    (\<forall>t :: (test_driver tool, 'z) fmu_world_scheme. IpcServer_delete u (proxy_server (m_proxy fc)) t =
       Ret () (shm_unlink (getMappedName u SHARED_MEM_BASE_NAME key) (close_fd h t)))"
  unfolding tool_runtime_def
  by (rule tool.instantiate_run [OF assms(1,2) _ assms(5-7)]) (use assms(3,4) started_serves in fastforce)

end

text \<open>
  C5: Refinement of a store: on a component whose process is the integration driver, connected or about
  to connect, every list of calls of the library's functions, those excepted that begin and end an
  instance, returns what a store of values by reference returns for it, reads after writes of any number
  of references of all four types and repeated references included. The component can be called again,
  and neither the registry nor another container has changed.
\<close>

theorem calls_are_store:
  fixes s :: "(test_driver tool, 'z) fmu_world_scheme"
  assumes "protobuf_codec ser parse" and "serving u key k fc s a" and "all_ok (call_ok ser) store_spec calls a"
  shows "\<exists>t fc'. run_all (perform (tool_runtime u key ser parse) (Some k)) calls s =
      Ret (fst (spec_all store_spec calls a)) t \<and>
    serving u key k fc' t (snd (spec_all store_spec calls a)) \<and> g_clients t = g_clients s \<and>
    (\<forall>j. j \<noteq> k \<longrightarrow> containers t j = containers s j)"
  using protobuf_codec.tool_run_store [OF assms(1) component_served [OF assms(2)] assms(3)] by (auto simp: served_def)

text \<open>A run: setting two references of which one is constant, a step, and reading them.\<close>

definition ex_calls :: "fmi_call list" where
  "ex_calls = [CallSetReal [4, 10] [5, 6], CallSetBoolean [3] [2], CallNotForwarded cancelStep, CallDoStep 0 1 0,
     CallGetReal [10, 4], CallGetBoolean [3]]"

lemma ex_calls_fit:
  "fits wire_ser (Fmi2SetRealRequest [4, 10] [5, 6])" "fits wire_ser (Fmi2SetBooleanRequest [3] [True])"
  "fits wire_ser (Fmi2DoStepRequest 0 1)" "fits wire_ser (Fmi2GetRequest [10, 4] 2)" "fits wire_ser (Fmi2GetRequest [3] 1)"
  "fits wire_ser (Fmi2GetRealReply [x, y])"
  by (simp_all add: fits_def wire_lengths)

lemma ex_reply_fits: "fits wire_ser (Fmi2GetBooleanReply [b])"
  by (cases b) (simp_all add: fits_def wire_lengths)

lemma ex_calls_ok: "all_ok (call_ok wire_ser) store_spec ex_calls a"
  using ex_calls_fit ex_reply_fits by (simp add: ex_calls_def td_ids_ok_def TD_SIZE_def to_bool_def functions_not_forwarded_def)

lemma ex_calls_answers:
  "fst (spec_all store_spec ex_calls a) =
    [Answer fmi2OK, Answer fmi2OK, Answer fmi2Error, Answer fmi2OK, AnswerReals fmi2OK [0x4023CCCCCCCCCCCD, 5], AnswerInts fmi2OK [1]]"
  by (simp add: ex_calls_def store_spec_def constants_def to_bool_def of_bool_int_def)

theorem calls_are_store_witness:
  "\<exists>t. run_all (perform (tool_runtime Linux (\<lambda>_. Some ''key'') wire_ser wire_parse) (Some 0)) ex_calls
      (ex_world \<lparr>tool_client = Some ends_cl, tool_state = test_driver_init\<rparr>) =
    Ret [Answer fmi2OK, Answer fmi2OK, Answer fmi2Error, Answer fmi2OK, AnswerReals fmi2OK [0x4023CCCCCCCCCCCD, 5], AnswerInts fmi2OK [1]] t"
proof -
  let ?s = "ex_world \<lparr>tool_client = Some ends_cl, tool_state = test_driver_init\<rparr>"
  have "serving Linux (\<lambda>_. Some ''key'') 0 ex_container ?s (store_of test_driver_init)"
    using ex_registered ex_server_at_rest td_good_init by (simp add: component_def tool_peer_def tool_ready_def library_key_def launch_key_def)
  from calls_are_store [OF wire.protobuf_codec_axioms this ex_calls_ok] show ?thesis
    by (auto simp: ex_calls_answers)
qed

text \<open>
  C4: A whole simulation: where the resource directory holds the helper's configuration and the system
  does what it is asked, \<open>fmi2Instantiate\<close> creates the channel, starts the driver with the channel's key as
  its argument and gets its consent over the shared memory; every call that follows answers as the store
  does; \<open>fmi2FreeInstance\<close> returns although the driver never answers it, the registry and the heap are
  as before, and the shared memory's name is removed.
\<close>

theorem session_serves:
  fixes s :: "(test_driver tool, 'z) fmu_world_scheme"
  assumes "protobuf_codec ser parse" and "fmu_inv s"
    and "driver_prepared ios cwd driver key" and "system_willing u key s"
    and "launched s = []" and "peer s = \<lparr>tool_client = None, tool_state = q\<rparr>" and "td_good q"
    and "pb_utf8 (instantiate_request name guid (''file:'' @ cwd) visible logging)"
    and "fits ser (instantiate_request name guid (''file:'' @ cwd) visible logging)"
    and "all_ok (call_ok ser) store_spec calls (constants (store_of q))"
  shows "\<exists>t. session u (tool_runtime u (started_key driver) ser parse) ios name guid (''file:'' @ cwd) (Some cb)
      visible logging calls s = Ret (Some (fst (spec_all store_spec calls (constants (store_of q))))) t \<and>
    g_clients t = base_clients (g_clients s) \<and> containers t = containers s \<and>
    shm_names t (getMappedName u SHARED_MEM_BASE_NAME key) = None"
proof -
  let ?rt = "tool_runtime u (started_key driver) ser parse :: ((test_driver tool, 'z) fmu_world_scheme) runtime"
  let ?k = "next_addr s" and ?answers = "fst (spec_all store_spec calls (constants (store_of q)))"
  from protobuf_codec.tool_instantiate_run [OF assms(1,3-9)] obtain t0 fc h where
    inst: "fmi2Instantiate u ?rt ios name guid (''file:'' @ cwd) (Some cb) visible logging s = Ret (Some ?k) t0"
    and t0: "serving u (started_key driver) ?k fc t0 (constants (store_of q))"
      "g_clients t0 = base_clients (g_clients s) @ [Some ?k]" "containers t0 = (containers s)(?k \<mapsto> fc)"
    and del: "\<forall>t :: (test_driver tool, 'z) fmu_world_scheme. IpcServer_delete u (proxy_server (m_proxy fc)) t =
       Ret () (shm_unlink (getMappedName u SHARED_MEM_BASE_NAME key) (close_fd h t))" by blast
  from protobuf_codec.tool_run_store [OF assms(1) component_served [OF t0(1)] assms(10)] obtain t1 a d where
    calls: "run_all (perform ?rt (Some ?k)) calls t0 = Ret ?answers t1"
    and t1: "serving u (started_key driver) ?k (set_debug_printer d fc) t1 a" "g_clients t1 = g_clients t0"
      "containers t1 = (containers t0)(?k \<mapsto> set_debug_printer d fc)" by (auto simp: served_def)
  from protobuf_codec.tool_free_run [OF assms(1) t1(1)] del obtain t2 where
    free: "fmi2FreeInstance u ?rt (Some ?k) t1 = Ret () t2"
    and name: "shm_names t2 (getMappedName u SHARED_MEM_BASE_NAME key) = None" by fastforce
  have "env_keeps_lib (rt_env ?rt)" by (simp add: tool_runtime_def tool_env_keeps_lib)
  from free_registered [OF this _ free] t1 have
    "g_clients t2 = remove1 (Some ?k) (g_clients t0)" "containers t2 = (containers t0)(?k := None)"
    by (auto simp: component_def)
  moreover have "containers s ?k = None" "Some ?k \<notin> set (base_clients (g_clients s))"
    using assms(2) by (auto simp: fmu_inv_def base_clients_def)
  ultimately have "g_clients t2 = base_clients (g_clients s)" "containers t2 = containers s"
    using t0 by (simp_all add: remove1_append fun_upd_idem)
  with inst calls free name show ?thesis by (simp add: session_def)
qed

text \<open>The same calls, from a library that was just loaded.\<close>

definition ex_prepared :: inst_os where
  "ex_prepared = ex_os\<lparr>uuid4 := (True, ''key''), files := (\<lambda>_. Some (helper_config (Some ''driver'')))\<rparr>"

definition ex_fresh :: "test_driver tool fmu_world" where
  "ex_fresh = fmu_ext None (world0 \<lparr>tool_client = None, tool_state = test_driver_init\<rparr>)"

lemma ex_prepared_driver: "driver_prepared ex_prepared ''/home/u'' ''driver'' ''key''"
  by (simp add: driver_prepared_def plain_dir_def ex_prepared_def ex_os_def plain_def c_str_def)

lemma ex_fresh_facts:
  "fmu_inv ex_fresh" "system_willing Linux ''key'' ex_fresh" "launched ex_fresh = []"
  "peer ex_fresh = \<lparr>tool_client = None, tool_state = test_driver_init\<rparr>"
  by (simp_all add: fmu_inv_def ex_fresh_def fmu_ext_def world.defs system_willing_def world0_def os_wf_def
      signal_names_distinct_Linux)

theorem session_serves_witness:
  "\<exists>t. session Linux (tool_runtime Linux (started_key ''driver'') wire_ser wire_parse) ex_prepared ''i'' ''g''
      ''file:/home/u'' (Some ex_callbacks) 0 1 ex_calls ex_fresh =
    Ret (Some [Answer fmi2OK, Answer fmi2OK, Answer fmi2Error, Answer fmi2OK, AnswerReals fmi2OK [0x4023CCCCCCCCCCCD, 5],
      AnswerInts fmi2OK [1]]) t \<and> g_clients t = [None]"
proof -
  have m: "pb_utf8 (instantiate_request ''i'' ''g'' (''file:'' @ ''/home/u'') 0 1)"
    "fits wire_ser (instantiate_request ''i'' ''g'' (''file:'' @ ''/home/u'') 0 1)"
    by (simp_all add: instantiate_request_def c_str_def pb_utf8_def between_def fits_def wire_lengths enc_string_def)
  from session_serves [OF wire.protobuf_codec_axioms ex_fresh_facts(1) ex_prepared_driver ex_fresh_facts(2-4)
      td_good_init m ex_calls_ok, of ex_callbacks]
  show ?thesis
    by (auto simp: ex_calls_answers ex_fresh_def fmu_ext_def world.defs base_clients_def)
qed

end
