(* ===== verification/ManyInstances.thy ===== *)
theory ManyInstances
  imports ManyChannels Session
begin

text \<open>
  Several units in one simulator (libshmfmu/fmu.cpp over the channels of ManyChannels): each instance has
  its handle in the registry, its container with its channel, and a process of its own behind that, the
  integration driver, which the library launched with the channel's key. Instances are created and called in
  any order; while the library waits for one process, the others run as well and may connect.
\<close>

section \<open>The processes\<close>

text \<open>The key that the \<open>i\<close>-th program was started with, if it is the driver.\<close>

definition started_as :: "string \<Rightarrow> nat \<Rightarrow> ('p, 'z) fmu_world_scheme \<Rightarrow> string option" where
  "started_as driver i s =
     (if i < length (launched s) then
        (case launched s ! i of (args, _) \<Rightarrow> if args \<noteq> [] \<and> hd args = driver then Some (runner_key args) else None)
      else None)"

text \<open>An attempt to connect of the process \<open>i\<close>, unless it has a client; then one turn of its loop.\<close>

definition process_connect ::
  "unix \<Rightarrow> string \<Rightarrow> nat \<Rightarrow> (nat \<Rightarrow> 'q tool, 'z) world_scheme \<Rightarrow> (nat \<Rightarrow> 'q tool, 'z) world_scheme" where
  "process_connect u key i s =
     (case tool_client (peer s i) of
        Some cl \<Rightarrow> s
      | None \<Rightarrow>
          (case IpcClient_connect u (IpcClient_new 88 key) s of
             (ok, cl, s) \<Rightarrow> if ok then s\<lparr>peer := (peer s)(i := (peer s i)\<lparr>tool_client := Some cl\<rparr>)\<rparr> else s))"

definition process_turn ::
  "unix \<Rightarrow> string \<Rightarrow> (SharedFmiMessage \<Rightarrow> (SharedFmiMessage, 'q) prog) \<Rightarrow> (int \<times> int) option \<Rightarrow> nat \<Rightarrow>
   (nat \<Rightarrow> 'q tool, 'z) fmu_world_scheme \<Rightarrow> (nat \<Rightarrow> 'q tool, 'z) fmu_world_scheme" where
  "process_turn u driver h d i s =
     (case started_as driver i s of
        None \<Rightarrow> s
      | Some key \<Rightarrow>
          (let s = process_connect u key i s
           in case tool_client (peer s i) of None \<Rightarrow> s | Some cl \<Rightarrow> turn_env (at_peer i (lift_tool h)) cl d s))"

text \<open>They run in the order of a list while the library waits.\<close>

definition processes_env ::
  "unix \<Rightarrow> string \<Rightarrow> (SharedFmiMessage \<Rightarrow> (SharedFmiMessage, 'q) prog) \<Rightarrow> nat list \<Rightarrow>
   ((nat \<Rightarrow> 'q tool, 'z) fmu_world_scheme) env" where
  "processes_env u driver h order d = fold (process_turn u driver h d) order"

lemma process_connect_lib [simp]:
  fixes s :: "(nat \<Rightarrow> 'q tool, 'z) fmu_world_scheme"
  shows "lib (process_connect u key i s) = lib s"
  by (auto simp: process_connect_def IpcClient_connect_def Let_def dest!: lib_openD lib_mapD lib_signalD
      split: option.split prod.splits if_splits)

lemma processes_env_keeps_lib:
  fixes h :: "SharedFmiMessage \<Rightarrow> (SharedFmiMessage, 'q) prog"
  shows "env_keeps_lib (processes_env u driver h order :: ((nat \<Rightarrow> 'q tool, 'z) fmu_world_scheme) env)"
proof -
  have "lib (turn_env (at_peer i (lift_tool h)) cl d s) = lib s" for i cl d and s :: "(nat \<Rightarrow> 'q tool, 'z) fmu_world_scheme"
    using turn_env_keeps_lib [of "at_peer i (lift_tool h)" cl, where 'b = 'z] by (simp add: env_keeps_lib_def)
  then have "lib (process_turn u driver h d i s) = lib s" for d i and s :: "(nat \<Rightarrow> 'q tool, 'z) fmu_world_scheme"
    by (simp add: process_turn_def Let_def split: option.split)
  then have "lib (fold (process_turn u driver h d) js s) = lib s" for d js and s :: "(nat \<Rightarrow> 'q tool, 'z) fmu_world_scheme"
    by (induction js arbitrary: s) simp_all
  then show ?thesis by (simp add: env_keeps_lib_def processes_env_def)
qed

section \<open>Their channels\<close>

text \<open>
  The channel of process \<open>i\<close>: the server's objects are there under its key, which the process was started
  with; if the process has connected, then to them.
\<close>

definition channel_at ::
  "unix \<Rightarrow> string \<Rightarrow> nat \<Rightarrow> IpcServer \<Rightarrow> (nat \<Rightarrow> 'q tool, 'z) fmu_world_scheme \<Rightarrow> bool" where
  "channel_at u driver i srv s \<longleftrightarrow>
     started_as driver i s = Some (m_name srv) \<and> server_ready u srv s \<and> m_hAvail srv \<noteq> m_hSignal srv \<and>
     (\<forall>cl. tool_client (peer s i) = Some cl \<longrightarrow> same_channel srv cl)"

definition tokens_at :: "SIGNAL_HANDLE \<Rightarrow> 'a os_scheme \<Rightarrow> nat" where
  "tokens_at h s = (case h of Sig a \<Rightarrow> sem_val s a | _ \<Rightarrow> 0)"

definition message_at :: "IpcServer \<Rightarrow> 'a os_scheme \<Rightarrow> SharedFmiMessage" where
  "message_at srv s = message (shm_mem (shm_objs s (the (m_pBuf srv))))"

text \<open>
  The system with \<open>k\<close> processes while the library waits for the process \<open>i\<close>, with \<open>x\<close> and \<open>y\<close> tokens on
  its channel and the message \<open>w\<close> in it: all channels are separate, the others at rest, every process has
  its state, and of the keys \<open>F\<close> those are free whose names do not meet a channel's.
\<close>

definition farm_phase ::
  "unix \<Rightarrow> string \<Rightarrow> string set \<Rightarrow> nat \<Rightarrow> nat \<Rightarrow> (nat \<Rightarrow> IpcServer) \<Rightarrow> nat \<Rightarrow> nat \<Rightarrow> nat \<Rightarrow> SharedFmiMessage \<Rightarrow>
   (nat \<Rightarrow> 'q) \<Rightarrow> (nat \<Rightarrow> 'q tool, 'z) fmu_world_scheme \<Rightarrow> bool" where
  "farm_phase u driver F k n srv i x y w st s \<longleftrightarrow>
     os_wf s \<and> (\<forall>op. \<not> refuse s op) \<and> length (launched s) = k \<and> next_addr s = n \<and>
     (\<forall>j. tool_state (peer s j) = st j) \<and> (\<forall>j\<ge>k. tool_client (peer s j) = None) \<and>
     (\<forall>j<k. channel_at u driver j (srv j) s) \<and>
     (\<forall>j<k. \<forall>l<k. j \<noteq> l \<longrightarrow> apart (srv j) (srv l)) \<and>
     (\<forall>j<k. (tokens_at (m_hAvail (srv j)) s, tokens_at (m_hSignal (srv j)) s) = (if j = i then (x, y) else (0, 0))) \<and>
     message_at (srv i) s = w \<and>
     (\<forall>key\<in>F. (\<forall>j<k. names_apart u (m_name (srv j)) key) \<longrightarrow> name_free u s key)"

lemma farm_phase_connect:
  fixes s :: "(nat \<Rightarrow> 'q tool, 'z) fmu_world_scheme"
  assumes ph: "farm_phase u driver F k n srv i x y w st s" and j: "j < k"
  shows "started_as driver j s = Some (m_name (srv j)) \<and> farm_phase u driver F k n srv i x y w st (process_connect u (m_name (srv j)) j s) \<and>
    (\<exists>cl. tool_client (peer (process_connect u (m_name (srv j)) j s) j) = Some cl \<and> same_channel (srv j) cl)"
proof (cases "tool_client (peer s j)")
  case None
  from ph j have at: "channel_at u driver j (srv j) s" by (simp add: farm_phase_def)
  then have ready: "server_ready u (srv j) s" by (simp add: channel_at_def)
  obtain ok cl t where c: "IpcClient_connect u (IpcClient_new 88 (m_name (srv j))) s = (ok, cl, t)" by (metis prod_cases3)
  have wf: "os_wf s" "\<And>op. \<not> refuse s op" using ph by (simp_all add: farm_phase_def)
  from server_ready_connect [OF ready wf(1) _ wf(2) c] have ok: ok and same: "same_channel (srv j) cl" by simp_all
  obtain f b where t: "t = s\<lparr>fds := f, next_fd := b\<rparr>" using connect_state [OF c] by blast
  with connect_wf [OF c wf(1)] have "os_wf (s\<lparr>fds := f, next_fd := b\<rparr>)" by simp
  then have t_wf: "os_wf (s\<lparr>fds := f, next_fd := b, peer := p\<rparr>)" for p by (simp add: os_wf_def)
  have run: "process_connect u (m_name (srv j)) j s =
      s\<lparr>fds := f, next_fd := b, peer := (peer s)(j := (peer s j)\<lparr>tool_client := Some cl\<rparr>)\<rparr>"
    using None c ok t by (simp add: process_connect_def)
  have "channel_at u driver l (srv l) (process_connect u (m_name (srv j)) j s)" if "l < k" for l
    using ph that same by (auto simp: run farm_phase_def channel_at_def started_as_def server_ready_def)
  then have "farm_phase u driver F k n srv i x y w st (process_connect u (m_name (srv j)) j s)"
    using ph t_wf j by (simp add: farm_phase_def tokens_at_def message_at_def name_free_def run cong: SIGNAL_HANDLE.case_cong)
  with run same at show ?thesis by (simp add: channel_at_def)
next
  case (Some cl)
  with ph j show ?thesis by (auto simp: farm_phase_def channel_at_def process_connect_def)
qed

lemma farm_phase_channel:
  assumes "farm_phase u driver F k n srv i x y w st s" and "j < k"
  obtains p a g where "m_pBuf (srv j) = Some p" "m_hAvail (srv j) = Sig a" "m_hSignal (srv j) = Sig g" "a \<noteq> g"
    "0 < shm_size (shm_objs s p)" "(sem_val s a, sem_val s g) = (if j = i then (x, y) else (0, 0))"
proof -
  from assms have at: "channel_at u driver j (srv j) s" and
    tok: "(tokens_at (m_hAvail (srv j)) s, tokens_at (m_hSignal (srv j)) s) = (if j = i then (x, y) else (0, 0))"
    by (simp_all add: farm_phase_def)
  from at obtain p a g where h: "m_pBuf (srv j) = Some p" "m_hAvail (srv j) = Sig a" "m_hSignal (srv j) = Sig g"
    "0 < shm_size (shm_objs s p)" "a \<noteq> g" by (auto simp: channel_at_def server_ready_def)
  with tok that show thesis by (simp add: tokens_at_def)
qed

lemma farm_phase_rest:
  assumes "farm_phase u driver F k n srv i 0 0 w st s" and "j < k"
  obtains p a g where "m_pBuf (srv j) = Some p" "m_hAvail (srv j) = Sig a" "m_hSignal (srv j) = Sig g" "a \<noteq> g"
    "0 < shm_size (shm_objs s p)" "sem_val s a = 0" "sem_val s g = 0"
proof -
  from farm_phase_channel [OF assms] obtain p a g where h: "m_pBuf (srv j) = Some p" "m_hAvail (srv j) = Sig a"
    "m_hSignal (srv j) = Sig g" "a \<noteq> g" "0 < shm_size (shm_objs s p)"
    "(sem_val s a, sem_val s g) = (if j = i then (0, 0) else (0, 0))" .
  from that [OF h(1-5)] h(6) show thesis by simp
qed

text \<open>The printer of a server is not part of its channel.\<close>

lemma farm_phase_printer [simp]:
  "farm_phase u driver F k n (srv(i := own\<lparr>debugPrintPtr := d\<rparr>)) i x y w st s =
   farm_phase u driver F k n (srv(i := own)) i x y w st s"
proof -
  let ?a = "srv(i := own\<lparr>debugPrintPtr := d\<rparr>)" and ?b = "srv(i := own)"
  have "m_name (?a j) = m_name (?b j)" "m_hAvail (?a j) = m_hAvail (?b j)" "m_hSignal (?a j) = m_hSignal (?b j)"
    "m_pBuf (?a j) = m_pBuf (?b j)" for j by simp_all
  moreover have "channel_at u driver j (?a j) s = channel_at u driver j (?b j) s" for j
    by (simp add: channel_at_def server_ready_def same_channel_def)
  moreover have "apart (?a j) (?a l) = apart (?b j) (?b l)" for j l by (simp add: apart_def)
  moreover have "message_at (?a i) s = message_at (?b i) s" by (simp add: message_at_def)
  ultimately show ?thesis by (simp only: farm_phase_def)
qed

text \<open>Nor is the library's own data.\<close>

lemma farm_phase_library [simp]:
  "farm_phase u driver F k n srv i x y w st (s\<lparr>containers := a\<rparr>) = farm_phase u driver F k n srv i x y w st s"
  "farm_phase u driver F k n srv i x y w st (s\<lparr>logged := l\<rparr>) = farm_phase u driver F k n srv i x y w st s"
proof -
  have at: "channel_at u driver j r (s\<lparr>containers := a\<rparr>) = channel_at u driver j r s"
    "channel_at u driver j r (s\<lparr>logged := l\<rparr>) = channel_at u driver j r s" for j r
    by (simp_all add: channel_at_def started_as_def server_ready_def)
  have tok: "tokens_at h (s\<lparr>containers := a\<rparr>) = tokens_at h s" "tokens_at h (s\<lparr>logged := l\<rparr>) = tokens_at h s" for h
    by (cases h; simp add: tokens_at_def)+
  show "farm_phase u driver F k n srv i x y w st (s\<lparr>containers := a\<rparr>) = farm_phase u driver F k n srv i x y w st s"
    "farm_phase u driver F k n srv i x y w st (s\<lparr>logged := l\<rparr>) = farm_phase u driver F k n srv i x y w st s"
    by (simp_all only: farm_phase_def at tok) (simp_all add: message_at_def name_free_def)
qed

text \<open>A process for which there is no message connects at most.\<close>

lemma process_turn_idle:
  assumes ph: "farm_phase u driver F k n srv i x y w st s" and idle: "j \<noteq> i \<or> x = 0"
  shows "farm_phase u driver F k n srv i x y w st (process_turn u driver h d j s)"
proof (cases "j < k")
  case True
  let ?s = "process_connect u (m_name (srv j)) j s"
  from farm_phase_connect [OF ph True] obtain cl where key: "started_as driver j s = Some (m_name (srv j))"
    and t: "farm_phase u driver F k n srv i x y w st ?s" "tool_client (peer ?s j) = Some cl" "same_channel (srv j) cl" by auto
  from farm_phase_channel [OF t(1) True] obtain a where "m_hAvail (srv j) = Sig a" "sem_val ?s a = (if j = i then x else 0)"
    by (metis fst_conv)
  with t(3) idle have "turn_env (at_peer j (lift_tool h)) cl d ?s = ?s"
    by (intro turn_env_idle [where a = a]) (auto simp: same_channel_def)
  with key t show ?thesis by (simp add: process_turn_def)
next
  case False
  with ph have "started_as driver j s = None" by (auto simp: farm_phase_def started_as_def)
  with ph show ?thesis by (simp add: process_turn_def)
qed

text \<open>What the two ends of channel \<open>i\<close> do to it leaves the others alone.\<close>

lemma farm_phase_update:
  fixes s :: "(nat \<Rightarrow> 'q tool, 'z) fmu_world_scheme"
  assumes ph: "farm_phase u driver F k n srv i x y w st s" and i: "i < k"
    and h: "m_pBuf (srv i) = Some p" "m_hAvail (srv i) = Sig a" "m_hSignal (srv i) = Sig g"
    and t: "t = s\<lparr>shm_objs := (shm_objs s)(p := (shm_objs s p)\<lparr>shm_mem := \<lparr>message = w'\<rparr>\<rparr>),
      sem_val := (sem_val s)(a := x', g := y'), peer := (peer s)(i := (peer s i)\<lparr>tool_state := q\<rparr>)\<rparr>"
  shows "farm_phase u driver F k n srv i x' y' w' (st(i := q)) t"
proof -
  have "channel_at u driver j (srv j) t" if "j < k" for j
    using ph that by (auto simp: t farm_phase_def channel_at_def started_as_def server_ready_def)
  moreover have "(tokens_at (m_hAvail (srv j)) t, tokens_at (m_hSignal (srv j)) t) = (if j = i then (x', y') else (0, 0))"
    if j: "j < k" for j
  proof (cases "j = i")
    case True
    moreover from ph i h have "a \<noteq> g" by (auto simp: farm_phase_def channel_at_def)
    ultimately show ?thesis using h by (simp add: t tokens_at_def)
  next
    case False
    with ph i j have "apart (srv i) (srv j)" by (simp add: farm_phase_def)
    moreover from farm_phase_channel [OF ph j] False obtain b c where "m_hAvail (srv j) = Sig b" "m_hSignal (srv j) = Sig c"
      "sem_val s b = 0" "sem_val s c = 0" by (metis fst_conv snd_conv)
    ultimately show ?thesis using h False by (auto simp: t tokens_at_def apart_def)
  qed
  moreover have "os_wf t" using ph by (simp add: t farm_phase_def os_wf_def)
  ultimately show ?thesis
    using ph h(1) i by (simp add: farm_phase_def) (simp add: t message_at_def name_free_def)
qed

text \<open>The one whose message is there answers it.\<close>

lemma process_turn_answers:
  fixes s :: "(nat \<Rightarrow> 'q tool, 'z) fmu_world_scheme"
  assumes ph: "farm_phase u driver F k n srv i 1 0 w st s" and i: "i < k" and f: "h w (st i) = Ret r q"
  shows "farm_phase u driver F k n srv i 0 1 r (st(i := q)) (process_turn u driver h d i s)"
proof -
  let ?s = "process_connect u (m_name (srv i)) i s"
  from farm_phase_connect [OF ph i] obtain cl where key: "started_as driver i s = Some (m_name (srv i))"
    and t: "farm_phase u driver F k n srv i 1 0 w st ?s" "tool_client (peer ?s i) = Some cl" "same_channel (srv i) cl" by auto
  from farm_phase_channel [OF t(1) i] obtain p a g where h: "m_pBuf (srv i) = Some p" "m_hAvail (srv i) = Sig a"
    "m_hSignal (srv i) = Sig g" "a \<noteq> g" "0 < shm_size (shm_objs ?s p)" "sem_val ?s a = 1" "sem_val ?s g = 0"
    by (metis fst_conv snd_conv)
  from t(1) h(1) have w: "message (shm_mem (shm_objs ?s p)) = w" "tool_state (peer ?s i) = st i"
    by (simp_all add: farm_phase_def message_at_def)
  have "turn_env (at_peer i (lift_tool h)) cl d ?s =
      (after_exchange r ((peer ?s)(i := (peer ?s i)\<lparr>tool_state := q\<rparr>)) p ?s)\<lparr>sem_val := (sem_val ?s)(a := 0, g := 1)\<rparr>"
    using t(3) h f w by (intro turn_env_posted) (auto simp: same_channel_def at_peer_def lift_tool_def)
  with key t(2) have "process_turn u driver h d i s =
      (after_exchange r ((peer ?s)(i := (peer ?s i)\<lparr>tool_state := q\<rparr>)) p ?s)\<lparr>sem_val := (sem_val ?s)(a := 0, g := 1)\<rparr>"
    by (simp add: process_turn_def Let_def)
  then show ?thesis
    by (intro farm_phase_update [OF t(1) i h(1-3)]) (simp add: after_exchange_def)
qed

text \<open>So in any order in which it occurs.\<close>

lemma processes_answer:
  fixes s :: "(nat \<Rightarrow> 'q tool, 'z) fmu_world_scheme"
  assumes ph: "farm_phase u driver F k n srv i 1 0 w st s" and i: "i < k" "i \<in> set order" and f: "h w (st i) = Ret r q"
  shows "farm_phase u driver F k n srv i 0 1 r (st(i := q)) (processes_env u driver h order d s)"
proof -
  have after: "farm_phase u driver F k n srv i 0 1 r (st(i := q)) (fold (process_turn u driver h d) js s)"
    if "farm_phase u driver F k n srv i 0 1 r (st(i := q)) s" for js and s :: "(nat \<Rightarrow> 'q tool, 'z) fmu_world_scheme"
    using that by (induction js arbitrary: s) (simp_all add: process_turn_idle)
  have "farm_phase u driver F k n srv i 0 1 r (st(i := q)) (fold (process_turn u driver h d) js s)"
    if "i \<in> set js" "farm_phase u driver F k n srv i 1 0 w st s" for js and s :: "(nat \<Rightarrow> 'q tool, 'z) fmu_world_scheme"
    using that
  proof (induction js arbitrary: s)
    case (Cons j js)
    then show ?case
      using after [OF process_turn_answers [where h = h and d = d, OF Cons.prems(2) i(1) f]] by (cases "j = i") (simp_all add: process_turn_idle del: fun_upd_apply One_nat_def)
  qed simp
  with ph i(2) show ?thesis by (simp add: processes_env_def)
qed

text \<open>A wait without a timeout has no deadline.\<close>

lemma wait_forever: "signalWait env h INFINITE = signalWait (\<lambda>_. env None) h INFINITE"
  by (cases h) (simp_all add: fun_eq_iff signalWait_def INFINITE_def)

text \<open>A call of an instance, whose server is \<open>own\<close>, named as \<open>srv i\<close>: the answer of its process, and everything at rest again.\<close>

definition farm_ready ::
  "unix \<Rightarrow> string \<Rightarrow> string set \<Rightarrow> nat \<Rightarrow> nat \<Rightarrow> (nat \<Rightarrow> IpcServer) \<Rightarrow> (nat \<Rightarrow> 'q) \<Rightarrow> nat list \<Rightarrow> nat \<Rightarrow> IpcServer \<Rightarrow>
   (nat \<Rightarrow> 'q tool, 'z) fmu_world_scheme \<Rightarrow> bool" where
  "farm_ready u driver F k n srv st order i own s \<longleftrightarrow>
     i < k \<and> i \<in> set order \<and> m_name own = m_name (srv i) \<and>
     farm_phase u driver F k n (srv(i := own)) i 0 0 (message_at own s) (st(i := tool_state (peer s i))) s"

lemma farm_exchange:
  fixes s :: "(nat \<Rightarrow> 'q tool, 'z) fmu_world_scheme"
  assumes "farm_ready u driver F k n srv st order i own s" and f: "h m (tool_state (peer s i)) = Ret r q"
  shows "\<exists>s'. exchange (processes_env u driver h order) own INFINITE m s = Ret (Some r) s' \<and>
    farm_ready u driver F k n srv st order i own s' \<and> tool_state (peer s' i) = q"
proof -
  let ?srv = "srv(i := own)" and ?st = "st(i := tool_state (peer s i))"
  from assms(1) have i: "i < k" "i \<in> set order" and ph: "farm_phase u driver F k n ?srv i 0 0 (message_at own s) ?st s"
    and nm: "m_name own = m_name (srv i)" by (simp_all add: farm_ready_def)
  from farm_phase_rest [OF ph i(1)] obtain p a g where h: "m_pBuf own = Some p" "m_hAvail own = Sig a" "m_hSignal own = Sig g"
    "a \<noteq> g" "0 < shm_size (shm_objs s p)" "sem_val s a = 0" "sem_val s g = 0" by (metis fun_upd_same)
  note upd = farm_phase_update [OF _ i(1), of u driver F n ?srv, simplified fun_upd_same, OF _ h(1-3)]
  let ?s = "sent_state p a m s"
  have "(peer s)(i := (peer s i)\<lparr>tool_state := tool_state (peer s i)\<rparr>) = peer s" "(sem_val s)(a := 1, g := 0) = (sem_val s)(a := 1)"
    using h(4,7) by (auto simp: fun_eq_iff)
  then have "farm_phase u driver F k n ?srv i 1 0 m (?st(i := tool_state (peer s i))) ?s"
    by (intro upd [OF ph]) (simp add: sent_state_def)
  then have sent: "farm_phase u driver F k n ?srv i 1 0 m ?st ?s" by simp
  define t where "t = processes_env u driver h order None ?s"
  have t: "farm_phase u driver F k n ?srv i 0 1 r (?st(i := q)) t"
    unfolding t_def by (rule processes_answer [OF sent i]) (simp add: f)
  from farm_phase_channel [OF t i(1)] h have val: "sem_val t a = 0" "sem_val t g = 1" "0 < shm_size (shm_objs t p)"
    by (auto simp: fun_upd_same)
  from t h have reply: "message (shm_mem (shm_objs t p)) = r" "tool_state (peer t i) = q"
    by (simp_all add: farm_phase_def message_at_def)
  have "IpcServer_send (processes_env u driver h order) own m INFINITE s =
      IpcServer_send (\<lambda>_. processes_env u driver h order None) own m INFINITE s"
    unfolding IpcServer_send_def by (subst wait_forever) (rule refl)
  also have "\<dots> = Ret (Some p) (sem_take g t)"
    using ph h val deadline_valid_INFINITE by (intro send_answered) (simp_all add: farm_phase_def t_def)
  finally have "exchange (processes_env u driver h order) own INFINITE m s = Ret (Some r) (sem_take g t)"
    using reply val by (simp add: exchange_def load_msg_def sem_take_def)
  moreover have "farm_phase u driver F k n ?srv i 0 0 r (?st(i := q)) (sem_take g t)"
  proof -
    have "(peer t)(i := (peer t i)\<lparr>tool_state := q\<rparr>) = peer t" "(sem_val t)(a := 0, g := 0) = (sem_val t)(g := 0)"
      "(shm_objs t)(p := (shm_objs t p)\<lparr>shm_mem := \<lparr>message = r\<rparr>\<rparr>) = shm_objs t"
      using h(4) val reply by (auto simp: fun_eq_iff)
    then have "farm_phase u driver F k n ?srv i 0 0 r (?st(i := q, i := q)) (sem_take g t)"
      using val by (intro upd [OF t]) (simp add: sem_take_def)
    then show ?thesis by simp
  qed
  moreover have "message_at own (sem_take g t) = r" using reply h(1) by (simp add: message_at_def sem_take_def)
  ultimately show ?thesis
    using i nm reply(2) by (intro exI [of _ "sem_take g t"]) (simp add: farm_ready_def sem_take_def)
qed

text \<open>So each process is what the functions of its instance rely on.\<close>

sublocale protobuf_codec \<subseteq>
  farm: driver_peer ser parse "processes_env u driver (it_handle ser parse) order" "farm_ready u driver F k n srv st order i"
    "\<lambda>s. tool_state (peer s i)"
    for u driver F k n srv order i and st :: "nat \<Rightarrow> test_driver"
proof unfold_locales
  fix own m r q and s :: "(nat \<Rightarrow> test_driver tool, 'z) fmu_world_scheme"
  assume "farm_ready u driver F k n srv st order i own s" and "it_handle ser parse m (tool_state (peer s i)) = Ret r q"
  then show "\<exists>s'. exchange (processes_env u driver (it_handle ser parse) order) own INFINITE m s = Ret (Some r) s' \<and>
      farm_ready u driver F k n srv st order i own s' \<and> tool_state (peer s' i) = q"
    by (rule farm_exchange)
next
  fix own and s :: "(nat \<Rightarrow> test_driver tool, 'z) fmu_world_scheme"
  assume r: "farm_ready u driver F k n srv st order i own s"
  then have "farm_phase u driver F k n (srv(i := own)) i 0 0 (message_at own s) (st(i := tool_state (peer s i))) s"
    and i: "i < k" by (simp_all add: farm_ready_def)
  from farm_phase_rest [OF this]
  show "\<exists>p a g. m_pBuf own = Some p \<and> m_hAvail own = Sig a \<and> m_hSignal own = Sig g \<and> 0 < shm_size (shm_objs s p)"
    by (metis fun_upd_same)
  show "farm_ready u driver F k n srv st order i own (s\<lparr>containers := a\<rparr>)" for a
    using r by (simp add: farm_ready_def message_at_def del: fun_upd_apply)
  show "farm_ready u driver F k n srv st order i own (s\<lparr>logged := a\<rparr>)" for a
    using r by (simp add: farm_ready_def message_at_def del: fun_upd_apply)
  show "farm_ready u driver F k n srv st order i (own\<lparr>debugPrintPtr := d\<rparr>) s" for d
    using r by (simp add: farm_ready_def message_at_def del: fun_upd_apply)
qed (simp_all add: processes_env_keeps_lib)

section \<open>A new process\<close>

lemma farm_phase_started:
  fixes s t :: "(nat \<Rightarrow> 'q tool, 'z) fmu_world_scheme"
  assumes ph: "farm_phase u driver F k n srv i 0 0 w st s"
    and key: "key \<in> F" "\<forall>j<k. names_apart u (m_name (srv j)) key"
    and made: "created_between u key own s t" and fresh: "server_fresh u key own t"
    and t: "peer t = peer s" "launched t = launched s @ [([driver, key], in_dir)]" "next_addr t = next_addr s + 1"
  shows "farm_phase u driver F (Suc k) (n + 1) (srv(k := own)) k 0 0 (message_at own t) st t"
proof -
  from made obtain srv0 and s' t' :: "(nat \<Rightarrow> 'q tool, 'z) fmu_world_scheme" where nm: "m_name srv0 = key"
    and c: "IpcServer_create u srv0 s' = (True, own, t')" and tr: "os.truncate s' = os.truncate s" "os.truncate t' = os.truncate t"
    by (auto simp: created_between_def)
  have eq: "server_ready u x s' = server_ready u x s" "server_ready u x t' = server_ready u x t"
    "name_free u s' y = name_free u s y" "name_free u t' y = name_free u t y" "os_wf s' = os_wf s"
    "sem_val s' = sem_val s" "sem_val t' = sem_val t" for x y
    using tr by (auto simp: server_ready_def name_free_def os_wf_def os.defs)
  have wf: "os_wf s'" using ph eq by (simp add: farm_phase_def)
  have free: "name_free u s' (m_name srv0)" using ph key nm eq by (simp add: farm_phase_def)
  have at: "channel_at u driver j (srv j) s" and names: "names_apart u (m_name (srv j)) (m_name srv0)" if "j < k" for j
    using ph key(2) nm that by (simp_all add: farm_phase_def)
  then have ready: "server_ready u (srv j) s'" if "j < k" for j using that eq by (simp add: channel_at_def)
  note kept = create_keeps_server [OF wf ready free names c]
  have old: "channel_at u driver j (srv j) t" "apart (srv j) own"
    "tokens_at (m_hAvail (srv j)) t = 0" "tokens_at (m_hSignal (srv j)) t = 0" if j: "j < k" for j
  proof -
    from farm_phase_rest [OF ph j] obtain a g where h: "m_hAvail (srv j) = Sig a" "m_hSignal (srv j) = Sig g"
      "sem_val s a = 0" "sem_val s g = 0" by metis
    with kept(3) [OF j j] eq show "tokens_at (m_hAvail (srv j)) t = 0" "tokens_at (m_hSignal (srv j)) t = 0"
      by (auto simp: tokens_at_def)
    show "apart (srv j) own" using kept(4) [OF j j] .
    show "channel_at u driver j (srv j) t"
      using at [OF j] kept(1) [OF j j] eq ph j t by (auto simp: channel_at_def started_as_def farm_phase_def nth_append)
  qed
  have new: "channel_at u driver k own t" "tokens_at (m_hAvail own) t = 0" "tokens_at (m_hSignal own) t = 0"
    using fresh ph t by (auto simp: server_fresh_def channel_at_def started_as_def farm_phase_def tokens_at_def runner_key_def)
  have "name_free u t y" if "y \<in> F" "\<forall>j<Suc k. names_apart u (m_name ((srv(k := own)) j)) y" for y
  proof -
    have "m_name own = key" using fresh by (simp add: server_fresh_def)
    with that(2) have "names_apart u (m_name srv0) y" "\<forall>j<k. names_apart u (m_name (srv j)) y"
      using nm by (auto simp: less_Suc_eq dest: spec [of _ k])
    with create_keeps_free [OF c, of y] ph that(1) eq show ?thesis by (simp add: farm_phase_def)
  qed
  moreover have "os_wf t" "\<forall>op. \<not> refuse t op" using fresh by (simp_all add: server_fresh_def)
  ultimately show ?thesis
    using ph t old new by (auto simp: farm_phase_def less_Suc_eq apart_sym)
qed

section \<open>A simulator with several units\<close>

text \<open>The arguments of an instantiation and what the system gives it; the key comes from the UUID.\<close>

record unit_start =
  us_os :: inst_os
  us_name :: string
  us_guid :: string
  us_dir :: string
  us_functions :: callbacks
  us_visible :: c_int
  us_logging :: c_int

definition unit_key :: "unit_start \<Rightarrow> string" where
  "unit_key w = c_str (snd (uuid4 (us_os w)))"

definition unit_request :: "unit_start \<Rightarrow> pb_msg" where
  "unit_request w = instantiate_request (us_name w) (us_guid w) (''file:'' @ us_dir w) (us_visible w) (us_logging w)"

datatype sim_call = StartUnit unit_start | CallUnit "nat option" fmi_call

datatype sim_answer = UnitStarted "nat option" | UnitAnswered fmi_answer

definition farm_runtime ::
  "unix \<Rightarrow> string \<Rightarrow> (pb_msg \<Rightarrow> byte list) \<Rightarrow> (pb_kind \<Rightarrow> byte list \<Rightarrow> pb_msg) \<Rightarrow> nat list \<Rightarrow>
   ((nat \<Rightarrow> test_driver tool, 'z) fmu_world_scheme) runtime" where
  "farm_runtime u driver ser parse order =
     \<lparr>rt_ser = ser, rt_parse = parse, rt_env = processes_env u driver (it_handle ser parse) order\<rparr>"

text \<open>A call of the library's functions, and the order in which the processes run while it waits.\<close>

definition simulate ::
  "unix \<Rightarrow> string \<Rightarrow> (pb_msg \<Rightarrow> byte list) \<Rightarrow> (pb_kind \<Rightarrow> byte list \<Rightarrow> pb_msg) \<Rightarrow> nat list \<times> sim_call \<Rightarrow>
   (sim_answer, (nat \<Rightarrow> test_driver tool, 'z) fmu_world_scheme) prog" where
  "simulate u driver ser parse call =
     (case call of
        (order, StartUnit w) \<Rightarrow>
          andThen (fmi2Instantiate u (farm_runtime u driver ser parse order) (us_os w) (us_name w) (us_guid w)
            (''file:'' @ us_dir w) (Some (us_functions w)) (us_visible w) (us_logging w)) (\<lambda>c. ret (UnitStarted c))
      | (order, CallUnit c f) \<Rightarrow>
          andThen (perform (farm_runtime u driver ser parse order) c f) (\<lambda>r. ret (UnitAnswered r)))"

text \<open>
  The specification: a list of stores, each with its key. An instantiation appends one and returns its handle; a
  call is the store's and concerns no other. The handles are the addresses from \<open>base\<close> on.
\<close>

definition sim_spec :: "nat \<Rightarrow> nat list \<times> sim_call \<Rightarrow> (string \<times> store) list \<Rightarrow> sim_answer \<times> (string \<times> store) list" where
  "sim_spec base call a =
     (case snd call of
        StartUnit w \<Rightarrow> (UnitStarted (Some (base + length a)), a @ [(unit_key w, constants (store_of test_driver_init))])
      | CallUnit c f \<Rightarrow>
          (let i = the c - base; (r, st) = store_spec f (snd (a ! i))
           in (UnitAnswered r, a[i := (fst (a ! i), st)])))"

text \<open>
  What a call may be: an instantiation with a prepared directory under a key whose names are free and do
  not meet those of the others, and a call with the handle of an instance. Its process runs in the wait.
\<close>

definition sim_ok ::
  "(pb_msg \<Rightarrow> byte list) \<Rightarrow> unix \<Rightarrow> string \<Rightarrow> string set \<Rightarrow> nat \<Rightarrow> nat list \<times> sim_call \<Rightarrow> (string \<times> store) list \<Rightarrow> bool" where
  "sim_ok ser u driver F base call a \<longleftrightarrow>
     (case call of
        (order, StartUnit w) \<Rightarrow>
          length a \<in> set order \<and> driver_prepared (us_os w) (us_dir w) driver (unit_key w) \<and>
          signal_names_distinct u (unit_key w) \<and> unit_key w \<in> F \<and> list_all (\<lambda>(k, _). names_apart u k (unit_key w)) a \<and>
          pb_utf8 (unit_request w) \<and> fits ser (unit_request w)
      | (order, CallUnit c f) \<Rightarrow>
          c \<noteq> None \<and> base \<le> the c \<and> the c < base + length a \<and> the c - base \<in> set order \<and>
          call_ok ser f (snd (a ! (the c - base))))"

section \<open>The relation\<close>

definition instance_at :: "nat \<Rightarrow> IpcServer \<Rightarrow> ('p, 'z) fmu_world_scheme \<Rightarrow> bool" where
  "instance_at c srv s \<longleftrightarrow> getFmuContainer (g_clients s) (Some c) = Some c \<and>
     (\<exists>fc. containers s c = Some fc \<and> proxy_server (m_proxy fc) = srv)"

definition farm_of ::
  "unix \<Rightarrow> string \<Rightarrow> string set \<Rightarrow> nat \<Rightarrow> (nat \<Rightarrow> IpcServer) \<Rightarrow> (nat \<Rightarrow> test_driver) \<Rightarrow>
   (nat \<Rightarrow> test_driver tool, 'z) fmu_world_scheme \<Rightarrow> (string \<times> store) list \<Rightarrow> bool" where
  "farm_of u driver F base srv st s a \<longleftrightarrow>
     (\<forall>i. \<exists>w. farm_phase u driver F (length a) (base + length a) srv i 0 0 w st s) \<and>
     (\<forall>i<length a. instance_at (base + i) (srv i) s \<and> td_good (st i) \<and> a ! i = (m_name (srv i), store_of (st i))) \<and>
     (\<forall>i\<ge>length a. st i = test_driver_init)"

lemma farm_phase_any:
  "farm_phase u driver F k n srv i 0 0 w st s \<Longrightarrow> farm_phase u driver F k n srv j 0 0 (message_at (srv j) s) st s"
  by (simp add: farm_phase_def)

text \<open>In it each instance is a component, and a step of a component leads back to it.\<close>

lemma farm_component:
  fixes s :: "(nat \<Rightarrow> test_driver tool, 'z) fmu_world_scheme"
  assumes farm: "farm_of u driver F base srv st s a" and i: "i < length a" "i \<in> set order"
  obtains fc where "proxy_server (m_proxy fc) = srv i"
    and "component (farm_ready u driver F (length a) (base + length a) srv st order i) (\<lambda>s. tool_state (peer s i)) (base + i) fc s (snd (a ! i))"
proof -
  from farm i obtain fc w where fc: "containers s (base + i) = Some fc" "proxy_server (m_proxy fc) = srv i"
    and ph: "farm_phase u driver F (length a) (base + length a) srv i 0 0 w st s" by (fastforce simp: farm_of_def instance_at_def)
  have st: "tool_state (peer s i) = st i" using ph by (simp add: farm_phase_def)
  with farm_phase_any [OF ph, of i] i fc have "farm_ready u driver F (length a) (base + length a) srv st order i (srv i) s"
    by (simp add: farm_ready_def)
  with farm i fc st show thesis by (intro that) (auto simp: component_def farm_of_def instance_at_def)
qed

lemma farm_of_component:
  fixes t :: "(nat \<Rightarrow> test_driver tool, 'z) fmu_world_scheme"
  assumes c: "component (farm_ready u driver F (length a) (base + length a) srv st order i) (\<lambda>s. tool_state (peer s i)) (base + i) fc t x"
    and mine: "a ! i = (m_name (srv i), x)"
    and others: "\<And>j. j < length a \<Longrightarrow> j \<noteq> i \<Longrightarrow> instance_at (base + j) (srv j) t \<and> td_good (st j) \<and> a ! j = (m_name (srv j), store_of (st j))"
    and idle: "\<And>j. length a \<le> j \<Longrightarrow> st j = test_driver_init"
  shows "farm_of u driver F base (srv(i := proxy_server (m_proxy fc))) (st(i := tool_state (peer t i))) t a"
proof -
  from c have ready: "farm_ready u driver F (length a) (base + length a) srv st order i (proxy_server (m_proxy fc)) t"
    and good: "td_good (tool_state (peer t i))" "x = store_of (tool_state (peer t i))"
    and inst: "instance_at (base + i) (proxy_server (m_proxy fc)) t" by (auto simp: component_def instance_at_def)
  from ready have i: "i < length a" and nm: "m_name (proxy_server (m_proxy fc)) = m_name (srv i)"
    and ph: "farm_phase u driver F (length a) (base + length a) (srv(i := proxy_server (m_proxy fc))) i 0 0
      (message_at (proxy_server (m_proxy fc)) t) (st(i := tool_state (peer t i))) t" by (simp_all add: farm_ready_def)
  show ?thesis
    using farm_phase_any [OF ph] others idle i good inst mine nm by (auto simp: farm_of_def)
qed

text \<open>An instance whose process has just been launched is one already: the process need not have connected.\<close>

lemma farm_begins:
  fixes s :: "(nat \<Rightarrow> test_driver tool, 'z) fmu_world_scheme"
  assumes farm: "farm_of u driver F base srv st s a" and key: "key \<in> F" "\<forall>j<length a. names_apart u (m_name (srv j)) key"
    and order: "length a \<in> set order"
  shows "\<forall>own t in_dir. created_between u key own s t \<longrightarrow> server_fresh u key own t \<longrightarrow> peer t = peer s \<longrightarrow>
      launched t = launched s @ [([driver, key], in_dir)] \<longrightarrow> next_addr t = next_addr s + 1 \<longrightarrow>
      farm_ready u driver F (length (a @ [x])) (base + length (a @ [x])) (srv(length a := IpcServer_new 0 key)) st order (length a) own t \<and>
      tool_state (peer t (length a)) = test_driver_init"
proof (intro allI impI)
  fix own t in_dir
  assume t: "created_between u key own s t" "server_fresh u key own t" "peer t = peer s"
    "launched t = launched s @ [([driver, key], in_dir)]" "next_addr t = next_addr s + 1"
  obtain w where ph: "farm_phase u driver F (length a) (base + length a) srv 0 0 0 w st s"
    using farm unfolding farm_of_def by blast
  have "st (length a) = test_driver_init" using farm by (simp add: farm_of_def)
  then have "tool_state (peer t (length a)) = test_driver_init" "st(length a := test_driver_init) = st"
    using ph t(3) by (simp_all add: farm_phase_def fun_eq_iff)
  moreover have "m_name own = key" using t(2) by (simp add: server_fresh_def)
  ultimately show "farm_ready u driver F (length (a @ [x])) (base + length (a @ [x])) (srv(length a := IpcServer_new 0 key)) st order
      (length a) own t \<and> tool_state (peer t (length a)) = test_driver_init"
    using farm_phase_started [OF ph key t] order by (simp add: farm_ready_def)
qed

section \<open>Its steps\<close>

context protobuf_codec
begin

lemma farm_call:
  fixes s :: "(nat \<Rightarrow> test_driver tool, 'z) fmu_world_scheme"
  assumes farm: "farm_of u driver F base srv st s a" and i: "i < length a" "i \<in> set order" and ok: "call_ok ser f (snd (a ! i))"
  shows "\<exists>t srv' st'. perform (farm_runtime u driver ser parse order) (Some (base + i)) f s = Ret (fst (store_spec f (snd (a ! i)))) t \<and>
    farm_of u driver F base srv' st' t (a[i := (fst (a ! i), snd (store_spec f (snd (a ! i))))])"
proof -
  let ?k = "base + i" and ?x = "snd (store_spec f (snd (a ! i)))"
  let ?a = "a[i := (fst (a ! i), ?x)]"
  from farm_component [OF farm i] obtain fc where fc: "proxy_server (m_proxy fc) = srv i"
    and c: "component (farm_ready u driver F (length a) (base + length a) srv st order i) (\<lambda>s. tool_state (peer s i)) ?k fc s (snd (a ! i))" .
  from farm.perform_answers [OF c ok] obtain t d where
    run: "perform (farm_runtime u driver ser parse order) (Some ?k) f s = Ret (fst (store_spec f (snd (a ! i)))) t"
    and t: "component (farm_ready u driver F (length a) (base + length a) srv st order i) (\<lambda>s. tool_state (peer s i)) ?k
        (set_debug_printer d fc) t ?x" "g_clients t = g_clients s" "containers t = (containers s)(?k \<mapsto> set_debug_printer d fc)"
    by (auto simp: call_answers_def farm_runtime_def)
  have at: "instance_at (base + j) (srv j) s \<and> td_good (st j) \<and> a ! j = (m_name (srv j), store_of (st j))" if "j < length a" for j
    using farm that by (simp add: farm_of_def)
  have "farm_of u driver F base (srv(i := proxy_server (m_proxy (set_debug_printer d fc)))) (st(i := tool_state (peer t i))) t ?a"
  proof (rule farm_of_component)
    show "component (farm_ready u driver F (length ?a) (base + length ?a) srv st order i) (\<lambda>s. tool_state (peer s i)) ?k
        (set_debug_printer d fc) t ?x" using t(1) by simp
    show "?a ! i = (m_name (srv i), ?x)" using at i by simp
    show "instance_at (base + j) (srv j) t \<and> td_good (st j) \<and> ?a ! j = (m_name (srv j), store_of (st j))"
      if "j < length ?a" "j \<noteq> i" for j
      using at [of j] that t(2,3) by (simp add: instance_at_def)
    show "st j = test_driver_init" if "length ?a \<le> j" for j using farm that by (simp add: farm_of_def)
  qed
  with run show ?thesis by blast
qed

lemma farm_start:
  fixes s :: "(nat \<Rightarrow> test_driver tool, 'z) fmu_world_scheme"
  assumes farm: "farm_of u driver F base srv st s a" and ok: "sim_ok ser u driver F base (order, StartUnit w) a"
  shows "\<exists>t srv' st'. fmi2Instantiate u (farm_runtime u driver ser parse order) (us_os w) (us_name w) (us_guid w)
      (''file:'' @ us_dir w) (Some (us_functions w)) (us_visible w) (us_logging w) s = Ret (Some (base + length a)) t \<and>
    farm_of u driver F base srv' st' t (a @ [(unit_key w, constants (store_of test_driver_init))])"
proof -
  let ?i = "length a" and ?key = "unit_key w" and ?st = "\<lambda>j. tool_state (peer s j)"
  let ?a = "a @ [(?key, constants (store_of test_driver_init))]" and ?srv = "srv(?i := IpcServer_new 0 ?key)"
  from ok have prep: "driver_prepared (us_os w) (us_dir w) driver ?key" and names: "signal_names_distinct u ?key" "?key \<in> F"
    "\<forall>j<?i. names_apart u (fst (a ! j)) ?key" and order: "?i \<in> set order"
    and m: "pb_utf8 (unit_request w)" "fits ser (unit_request w)"
    by (auto simp: sim_ok_def list_all_length case_prod_beta)
  obtain v where ph: "farm_phase u driver F ?i (base + ?i) srv 0 0 0 v st s"
    using farm unfolding farm_of_def by blast
  then have sys: "system_willing u ?key s" and st: "st = ?st" and addr: "next_addr s = base + ?i"
    using names(1) by (auto simp: system_willing_def farm_phase_def)
  have at: "instance_at (base + j) (srv j) s \<and> td_good (st j) \<and> a ! j = (m_name (srv j), store_of (st j))" if "j < ?i" for j
    using farm that by (simp add: farm_of_def)
  then have apart: "\<forall>j<?i. names_apart u (m_name (srv j)) ?key" using names(3) by auto
  from farm.instantiate_run [where cb = "us_functions w", OF prep sys farm_begins [OF farm names(2) apart order] td_good_init m [unfolded unit_request_def],
      unfolded addr, folded farm_runtime_def] obtain t fc where
    run: "fmi2Instantiate u (farm_runtime u driver ser parse order) (us_os w) (us_name w) (us_guid w)
      (''file:'' @ us_dir w) (Some (us_functions w)) (us_visible w) (us_logging w) s = Ret (Some (base + ?i)) t"
    and t: "component (farm_ready u driver F (length ?a) (base + length ?a) ?srv st order ?i) (\<lambda>s. tool_state (peer s ?i)) (base + ?i) fc t
        (constants (store_of test_driver_init))"
      "g_clients t = base_clients (g_clients s) @ [Some (base + ?i)]" "containers t = (containers s)(base + ?i \<mapsto> fc)"
    by blast
  have "farm_of u driver F base (?srv(?i := proxy_server (m_proxy fc))) (st(?i := tool_state (peer t ?i))) t ?a"
  proof (rule farm_of_component [OF t(1)])
    show "instance_at (base + j) (?srv j) t \<and> td_good (st j) \<and> ?a ! j = (m_name (?srv j), store_of (st j))"
      if "j < length ?a" "j \<noteq> ?i" for j
      using at [of j] that t(2,3) by (auto simp: instance_at_def nth_append getFmuContainer_def base_clients_def split: if_splits)
    show "st j = test_driver_init" if "length ?a \<le> j" for j using farm that by (simp add: farm_of_def)
  qed simp
  with run show ?thesis by blast
qed

end

text \<open>So calls in any order refine the list of stores.\<close>

sublocale protobuf_codec \<subseteq>
  sim: call_refinement "simulate u driver ser parse" "sim_spec base" "sim_ok ser u driver F base"
    "\<lambda>s a. \<exists>srv st. farm_of u driver F base srv st s a"
    for u driver F base
proof unfold_locales
  fix s :: "(nat \<Rightarrow> test_driver tool, 'z) fmu_world_scheme" and a and c
  assume "\<exists>srv st. farm_of u driver F base srv st s a" and ok: "sim_ok ser u driver F base c a"
  then obtain srv st where farm: "farm_of u driver F base srv st s a" by blast
  obtain order call where c: "c = (order, call)" by (cases c)
  show "\<exists>s'. simulate u driver ser parse c s = Ret (fst (sim_spec base c a)) s' \<and>
      (\<exists>srv st. farm_of u driver F base srv st s' (snd (sim_spec base c a)))"
  proof (cases call)
    case (StartUnit w)
    from farm_start [OF farm ok [unfolded c StartUnit]] obtain t srv' st' where
      "fmi2Instantiate u (farm_runtime u driver ser parse order) (us_os w) (us_name w) (us_guid w)
        (''file:'' @ us_dir w) (Some (us_functions w)) (us_visible w) (us_logging w) s = Ret (Some (base + length a)) t"
      "farm_of u driver F base srv' st' t (a @ [(unit_key w, constants (store_of test_driver_init))])" by blast
    then show ?thesis by (intro exI [of _ t]) (simp add: c StartUnit simulate_def sim_spec_def, blast)
  next
    case (CallUnit h f)
    with ok c obtain i where h: "h = Some (base + i)" "i < length a" "i \<in> set order" "call_ok ser f (snd (a ! i))"
      by (auto simp: sim_ok_def intro: that [of "the h - base"])
    from farm_call [OF farm h(2-4)] obtain t srv' st' where
      "perform (farm_runtime u driver ser parse order) (Some (base + i)) f s = Ret (fst (store_spec f (snd (a ! i)))) t"
      "farm_of u driver F base srv' st' t (a[i := (fst (a ! i), snd (store_spec f (snd (a ! i))))])" by blast
    then show ?thesis
      by (intro exI [of _ t]) (simp add: c CallUnit h(1) simulate_def sim_spec_def case_prod_beta Let_def, blast)
  qed
qed

context protobuf_codec
begin

lemmas run_units = sim.run_refines

end

section \<open>Properties\<close>

text \<open>
  C6: Several units in one simulator: from a library that was just loaded, instances are created and
  called in any order, each with a driver of its own that the library launched; the processes run in any order
  while the library waits, and connect when they first do. Every call returns what the store of its own
  instance returns, whatever was called on the others in between.
\<close>

theorem instances_independent:
  fixes s :: "(nat \<Rightarrow> test_driver tool, 'z) fmu_world_scheme"
  assumes "protobuf_codec ser parse" and "os_wf s" and "\<And>op. \<not> refuse s op" and "launched s = []"
    and "peer s = (\<lambda>_. \<lparr>tool_client = None, tool_state = test_driver_init\<rparr>)"
    and "all_ok (sim_ok ser u driver {key. name_free u s key} (next_addr s)) (sim_spec (next_addr s)) calls []"
  shows "\<exists>t. run_all (simulate u driver ser parse) calls s = Ret (fst (spec_all (sim_spec (next_addr s)) calls [])) t"
proof -
  have "farm_of u driver {key. name_free u s key} (next_addr s) srv (\<lambda>_. test_driver_init) s []" for srv
    using assms(2-5) by (simp add: farm_of_def farm_phase_def)
  then have "\<exists>srv st. farm_of u driver {key. name_free u s key} (next_addr s) srv st s []" by blast
  from protobuf_codec.run_units [OF assms(1) this assms(6)] show ?thesis by blast
qed

text \<open>Two units; the second is created, set and read between the calls of the first.\<close>

definition ex_unit :: "string \<Rightarrow> unit_start" where
  "ex_unit key = \<lparr>us_os = ex_prepared\<lparr>uuid4 := (True, key)\<rparr>, us_name = ''i'', us_guid = ''g'', us_dir = ''/home/u'',
     us_functions = ex_callbacks, us_visible = 0, us_logging = 1\<rparr>"

definition ex_unit_calls :: "(nat list \<times> sim_call) list" where
  "ex_unit_calls =
     [([0], StartUnit (ex_unit ''key'')), ([0], CallUnit (Some 1) (CallSetReal [4] [5])),
      ([1, 0], StartUnit (ex_unit ''other'')), ([0, 1], CallUnit (Some 2) (CallSetReal [4] [6])),
      ([1, 0, 1], CallUnit (Some 1) (CallGetReal [4])), ([1], CallUnit (Some 2) (CallGetReal [4]))]"

definition ex_units :: "(nat \<Rightarrow> test_driver tool) fmu_world" where
  "ex_units = fmu_ext None (world0 (\<lambda>_. \<lparr>tool_client = None, tool_state = test_driver_init\<rparr>))"

lemma ex_units_facts:
  "os_wf ex_units" "\<not> refuse ex_units op" "launched ex_units = []" "next_addr ex_units = 1"
  "peer ex_units = (\<lambda>_. \<lparr>tool_client = None, tool_state = test_driver_init\<rparr>)" "name_free Linux ex_units key"
  by (simp_all add: ex_units_def fmu_ext_def world.defs world0_def os_wf_def name_free_def)

lemma ex_unit_key:
  "unit_key (ex_unit ''key'') = ''key''" "unit_key (ex_unit ''other'') = ''other''"
  by (simp_all add: unit_key_def ex_unit_def c_str_def)

lemma ex_unit_prepared:
  assumes "key \<in> {''key'', ''other''}"
  shows "driver_prepared (us_os (ex_unit key)) (us_dir (ex_unit key)) ''driver'' key"
    and "pb_utf8 (unit_request (ex_unit key))" and "fits wire_ser (unit_request (ex_unit key))"
  using ex_prepared_driver assms
  by (auto simp: ex_unit_def driver_prepared_def plain_def c_str_def unit_request_def instantiate_request_def pb_utf8_def
      between_def fits_def wire_lengths enc_string_def)

lemma ex_unit_calls_fit:
  "fits wire_ser (Fmi2SetRealRequest [4] [x])" "fits wire_ser (Fmi2GetRequest [4] 1)" "fits wire_ser (Fmi2GetRealReply [x])"
  by (simp_all add: fits_def wire_lengths)

theorem instances_independent_witness:
  "\<exists>t. run_all (simulate Linux ''driver'' wire_ser wire_parse) ex_unit_calls ex_units =
    Ret [UnitStarted (Some 1), UnitAnswered (Answer fmi2OK), UnitStarted (Some 2), UnitAnswered (Answer fmi2OK),
      UnitAnswered (AnswerReals fmi2OK [5]), UnitAnswered (AnswerReals fmi2OK [6])] t"
proof -
  have apart: "names_apart Linux ''key'' ''other''"
    by (simp add: names_apart_def signal_names_def connect_names_def base_names)
  have "all_ok (sim_ok wire_ser Linux ''driver'' {key. name_free Linux ex_units key} 1) (sim_spec 1) ex_unit_calls []"
    using ex_unit_calls_fit apart ex_unit_key
    by (simp add: ex_unit_calls_def sim_spec_def store_spec_def sim_ok_def td_ids_ok_def TD_SIZE_def ex_unit_prepared
        ex_units_facts signal_names_distinct_Linux)
  moreover have "fst (spec_all (sim_spec 1) ex_unit_calls []) =
    [UnitStarted (Some 1), UnitAnswered (Answer fmi2OK), UnitStarted (Some 2), UnitAnswered (Answer fmi2OK),
      UnitAnswered (AnswerReals fmi2OK [5]), UnitAnswered (AnswerReals fmi2OK [6])]"
    by (simp add: ex_unit_calls_def sim_spec_def store_spec_def constants_def)
  ultimately show ?thesis
    using instances_independent [OF wire.protobuf_codec_axioms ex_units_facts(1,2,3,5), of Linux "''driver''" ex_unit_calls] ex_units_facts(4) by simp
qed

end
