(* ===== verification/FmuTests.thy ===== *)
theory FmuTests
  imports Session
begin

text \<open>
  The integration tests of the wrapper (testfmu-integration/FMU_Tests.cpp): every test brings the
  fixture's component to a stage, makes a call through the loaded function pointers, states what it
  expects, and is torn down. They are run against the library and the integration driver, from the
  instantiation that launches the driver to the end.
\<close>

section \<open>Tests\<close>

datatype stage = Instantiated | Setuped | Initializing | Initialized

text \<open>
  A test makes one call and checks the answer; what it goes on with depends on that answer, which one
  test looks at.
\<close>

record fmu_test =
  test_name :: string
  test_stage :: stage
  test_call :: fmi_call
  test_expect :: "fmi_answer \<Rightarrow> bool list"
  test_rest :: "fmi_answer \<Rightarrow> (fmi_call \<times> (fmi_answer \<Rightarrow> bool list)) list"

definition INSTANCE_NAME :: string where
  "INSTANCE_NAME = ''instance1''"

definition fmu_test :: "string \<Rightarrow> stage \<Rightarrow> fmi_call \<Rightarrow> (fmi_answer \<Rightarrow> bool list) \<Rightarrow> fmu_test" where
  "fmu_test name stage c ex = \<lparr>test_name = name, test_stage = stage, test_call = c, test_expect = ex, test_rest = (\<lambda>_. [])\<rparr>"









section \<open>Running a test\<close>

fun function_of :: "fmi_call \<Rightarrow> FMU_function" where
  "function_of (CallSetReal _ _) = setReal"
| "function_of (CallSetInteger _ _) = setInteger"
| "function_of (CallSetBoolean _ _) = setBoolean"
| "function_of (CallSetString _ _) = setString"
| "function_of (CallGetReal _) = getReal"
| "function_of (CallGetInteger _) = getInteger"
| "function_of (CallGetBoolean _) = getBoolean"
| "function_of (CallGetString _) = getString"
| "function_of (CallSetupExperiment _ _ _ _ _) = setupExperiment"
| "function_of CallEnterInitializationMode = enterInitializationMode"
| "function_of CallExitInitializationMode = exitInitializationMode"
| "function_of (CallDoStep _ _ _) = doStep"
| "function_of CallTerminate = terminate"
| "function_of CallReset = reset"
| "function_of (CallSetDebugLogging _ _) = setDebugLogging"
| "function_of (CallGetStatus _) = FMU_function.getStatus"
| "function_of (CallGetRealStatus _) = getRealStatus"
| "function_of (CallGetIntegerStatus _) = getIntegerStatus"
| "function_of (CallGetBooleanStatus _) = getBooleanStatus"
| "function_of (CallGetStringStatus _) = getStringStatus"
| "function_of CallGetMaxStepsize = getMaxStepsize"
| "function_of (CallNotForwarded f) = f"

definition test_invoke ::
  "(('p, 'z) fmu_world_scheme) runtime \<Rightarrow> 'h helper_scheme \<Rightarrow> fmi_call \<Rightarrow> (fmi_answer, ('p, 'z) fmu_world_scheme) prog"
where
  "test_invoke rt fx c = through (loaded fx) (function_of c) (perform rt (comp fx) c)"



fun fixture_stage ::
  "unix \<Rightarrow> (('p, 'z) fmu_world_scheme) runtime \<Rightarrow> inst_os \<Rightarrow> string option \<Rightarrow> nat \<Rightarrow> stage \<Rightarrow> fixture \<Rightarrow>
   (fixture, ('p, 'z) fmu_world_scheme) prog"
where
  "fixture_stage u rt ios cwd addr Instantiated = fixture_instantiated u rt ios cwd addr INSTANCE_NAME GUID"
| "fixture_stage u rt ios cwd addr Setuped = fixture_setuped u rt ios cwd addr INSTANCE_NAME GUID"
| "fixture_stage u rt ios cwd addr Initializing = fixture_initializing u rt ios cwd addr INSTANCE_NAME GUID"
| "fixture_stage u rt ios cwd addr Initialized = fixture_initialized u rt ios cwd addr INSTANCE_NAME GUID"




text \<open>
  The tests of the loader (LibraryLoad_Tests.cpp): the library is opened once, and twice into one struct
  without being closed.
\<close>

definition test_loadsingle ::
  "(string \<Rightarrow> nat) \<Rightarrow> (nat \<Rightarrow> string \<Rightarrow> nat) \<Rightarrow> string option \<Rightarrow> string \<Rightarrow> FMU \<Rightarrow> bool list" where
  "test_loadsingle dlopen dlsym dlerror FMULIB f = [fst (loadDll True dlopen dlsym dlerror FMULIB f) = 1]"

definition test_loaddouble ::
  "(string \<Rightarrow> nat) \<Rightarrow> (nat \<Rightarrow> string \<Rightarrow> nat) \<Rightarrow> string option \<Rightarrow> string \<Rightarrow> FMU \<Rightarrow> bool list" where
  "test_loaddouble dlopen dlsym dlerror FMULIB f =
     (case loadDll True dlopen dlsym dlerror FMULIB f of (s, _, f, _) \<Rightarrow>
      case loadDll True dlopen dlsym dlerror FMULIB f of (s', _, _, _) \<Rightarrow> [s = 1, s' = 1])"

section \<open>Facts\<close>

text \<open>They pass for a library that opens and has the functions its header declares, as this one has.\<close>

lemma library_load_tests:
  assumes "dlopen FMULIB \<noteq> 0" and "list_all (\<lambda>name. dlsym (dlopen FMULIB) name \<noteq> 0) (declared_names True)"
  shows "test_loadsingle dlopen dlsym err FMULIB f = [True]" and "test_loaddouble dlopen dlsym err FMULIB f = [True, True]"
proof -
  have "fst (loadDll True dlopen dlsym err FMULIB f0) = 1" for f0
    using assms by (simp add: loadDll_eq [OF refl] missing_required filter_empty_conv list_all_iff)
  then show "test_loadsingle dlopen dlsym err FMULIB f = [True]" and "test_loaddouble dlopen dlsym err FMULIB f = [True, True]"
    by (simp_all add: test_loadsingle_def test_loaddouble_def case_prod_beta)
qed

lemma constants_idem [simp]: "constants (constants a) = constants a"
  by (simp add: constants_def)

lemma helper_calls:
  fixes hp :: "'h helper_scheme"
  shows "helper_setup rt hp = andThen (test_invoke rt hp (CallSetupExperiment 1 0x3FB999999999999A 0 1 0x3FF0000000000000))
      (\<lambda>a. ret (expect (a = Answer fmi2OK) hp))"
    and "helper_enter rt hp = andThen (test_invoke rt hp CallEnterInitializationMode) (\<lambda>a. ret (expect (a = Answer fmi2OK) hp))"
    and "helper_exit rt hp = andThen (test_invoke rt hp CallExitInitializationMode) (\<lambda>a. ret (expect (a = Answer fmi2OK) hp))"
  by (rule ext; simp add: helper_setup_def helper_enter_def helper_exit_def test_invoke_def through_def status_of_def
      andThen_def split: outcome.split)+

text \<open>A fixture whose library is loaded: every member of the struct that a co-simulation build has is filled.\<close>

definition fixture_loaded :: "'h helper_scheme \<Rightarrow> bool" where
  "fixture_loaded fx \<longleftrightarrow> dllHandle (loaded fx) \<noteq> 0 \<and>
     (\<forall>f. \<not> of_other_build True f \<longrightarrow> pointer (loaded fx) f \<noteq> 0)"

lemma in_this_build [simp]:
  "\<not> of_other_build True freeInstance" "\<not> of_other_build True instantiate" "\<not> of_other_build True setupExperiment"
  "\<not> of_other_build True enterInitializationMode" "\<not> of_other_build True exitInitializationMode"
  by (simp_all add: of_other_build_def members_of_def modelExchange_rows_def)



lemma fixture_loaded_simps [simp]:
  "fixture_loaded (expect b fx) = fixture_loaded fx" "comp (expect b fx) = comp fx"
  "isInstantiated (expect b fy) = isInstantiated fy" "expected (expect b fx) = expected fx @ [b]"
  by (simp_all add: fixture_loaded_def expect_def)

text \<open>How many expectations the fixture makes on the way to a stage.\<close>

fun stage_checks :: "stage \<Rightarrow> nat" where
  "stage_checks Instantiated = 0"
| "stage_checks Setuped = 1"
| "stage_checks Initializing = 2"
| "stage_checks Initialized = 3"

context driver_peer
begin

lemma invoke_served:
  assumes "served ready far k fc cs con s a" and "comp fx = Some k" and "fixture_loaded fx" and "call_ok ser c a"
    and "\<not> of_other_build True (function_of c)"
  shows "\<exists>t. test_invoke (drt) fx c s = Ret (fst (store_spec c a)) t \<and>
    served ready far k fc cs con t (snd (store_spec c a))"
  using store.step_refines [OF assms(1,4)] assms(2,3,5) by (simp add: test_invoke_def through_def fixture_loaded_def)

text \<open>A call that changes the mode only, with the fixture's expectation.\<close>

lemma mode_expected:
  assumes "served ready far k fc cs con s (constants a)" and "comp fx = Some k" and "fixture_loaded fx"
    and "call_ok ser c (constants a)" and "\<not> of_other_build True (function_of c)" and "store_spec c (constants a) = (Answer fmi2OK, constants a)"
  shows "\<exists>t. andThen (test_invoke (drt) fx c) (\<lambda>x. ret (expect (x = Answer fmi2OK) fx)) s =
      Ret (expect True fx) t \<and> served ready far k fc cs con t (constants a)"
  using invoke_served [OF assms(1-5)] assms(6) by auto

lemma stage_steps:
  assumes "comp fx = Some k" and "fixture_loaded fx" and "served ready far k fc cs con s (constants a)"
  shows "fits ser (Fmi2SetupExperimentRequest True 0x3FB999999999999A 0 True 0x3FF0000000000000) \<Longrightarrow>
      \<exists>t. helper_setup (drt) fx s = Ret (expect True fx) t \<and> served ready far k fc cs con t (constants a)"
    and "\<exists>t. helper_enter (drt) fx s = Ret (expect True fx) t \<and> served ready far k fc cs con t (constants a)"
    and "\<exists>t. helper_exit (drt) fx s = Ret (expect True fx) t \<and> served ready far k fc cs con t (constants a)"
  unfolding helper_calls
  by (rule mode_expected [OF assms(3,1,2)]; simp add: to_bool_def store_spec_def)+

text \<open>The fixture's way to a stage, from a component that was just instantiated.\<close>

lemma stage_run:
  fixes s :: "('p, 'z) fmu_world_scheme" and fx fx0 :: fixture
  assumes inst: "fixture_instantiated u (drt) ios cwd addr INSTANCE_NAME GUID fx0 s0 = Ret fx s"
    and fx: "comp fx = Some k" "fixture_loaded fx" "isInstantiated fx" and inv: "served ready far k fc cs con s (constants a)"
    and m: "fits ser (Fmi2SetupExperimentRequest True 0x3FB999999999999A 0 True 0x3FF0000000000000)"
  shows "\<exists>fx' t. fixture_stage u (drt) ios cwd addr stg fx0 s0 = Ret fx' t \<and>
    comp fx' = Some k \<and> fixture_loaded fx' \<and> isInstantiated fx' \<and>
    expected fx' = expected fx @ replicate (stage_checks stg) True \<and> served ready far k fc cs con t (constants a)"
proof -
  let ?rt = "drt"
  from stage_steps(1) [OF fx(1,2) inv m] obtain s1 where
    1: "helper_setup ?rt fx s = Ret (expect True fx) s1" "served ready far k fc cs con s1 (constants a)" by blast
  have fx1: "comp (expect True fx) = Some k" "fixture_loaded (expect True fx)" using fx by simp_all
  from stage_steps(2) [OF fx1 1(2)] obtain s2 where
    2: "helper_enter ?rt (expect True fx) s1 = Ret (expect True (expect True fx)) s2" "served ready far k fc cs con s2 (constants a)"
    by blast
  have fx2: "comp (expect True (expect True fx)) = Some k" "fixture_loaded (expect True (expect True fx))"
    using fx by simp_all
  from stage_steps(3) [OF fx2 2(2)] obtain s3 where
    3: "helper_exit ?rt (expect True (expect True fx)) s2 = Ret (expect True (expect True (expect True fx))) s3"
      "served ready far k fc cs con s3 (constants a)" by blast
  show ?thesis
    using inst inv fx 1 2 3
    by (cases stg) (simp_all add: fixture_setuped_def fixture_initializing_def fixture_initialized_def numeral_2_eq_2
        numeral_3_eq_3)
qed

text \<open>Tearing down frees once, however often it is asked to.\<close>

lemma teardown_run:
  fixes s :: "('p, 'z) fmu_world_scheme" and fx :: fixture
  assumes inv: "served ready far k fc cs con s a" and fx: "comp fx = Some k" "fixture_loaded fx" and "distinct cs"
    and del: "\<forall>t :: ('p, 'z) fmu_world_scheme. IpcServer_delete u (proxy_server (m_proxy fc)) t =
       Ret () (shm_unlink n (close_fd h t))"
  shows "\<exists>t. fixture_TearDown u (drt) fx s = Ret () t \<and>
    fmi2FreeInstance u (drt) (Some k) s = Ret () t \<and>
    g_clients t = remove1 (Some k) cs \<and> containers t = con(k := None)"
proof -
  let ?rt = "drt :: (('p, 'z) fmu_world_scheme) runtime"
  from inv obtain d where s: "component ready far k (set_debug_printer d fc) s a" "g_clients s = cs"
    "containers s = con(k \<mapsto> set_debug_printer d fc)" by (auto simp: served_def)
  from free_run [OF s(1)] del obtain t where t: "fmi2FreeInstance u ?rt (Some k) s = Ret () t" by fastforce
  have env: "env_keeps_lib (rt_env ?rt)" by (simp add: env_library)
  from s(1) have reg: "getFmuContainer (g_clients s) (Some k) = Some k" by (simp add: component_def)
  from free_registered [OF env reg t] s have eq: "g_clients t = remove1 (Some k) cs" "containers t = con(k := None)" by simp_all
  with assms(4) have "fmi2FreeInstance u ?rt (Some k) t = Ret () t"
    by (simp add: fmi2FreeInstance_def getFmuContainer_def)
  with t eq fx show ?thesis by (auto simp: fixture_TearDown_def through_def fixture_loaded_def)
qed

end

context protobuf_codec
begin

lemmas tool_invoke_served = tool.invoke_served [folded tool_runtime_def]

lemmas tool_stage_run = tool.stage_run [folded tool_runtime_def]

lemmas tool_teardown_run = tool.teardown_run [folded tool_runtime_def]

text \<open>The fixture's instantiation launches the driver.\<close>

lemma fixture_instantiated_run:
  fixes s :: "(test_driver tool, 'z) fmu_world_scheme" and fx :: fixture
  assumes "driver_prepared ios cwd driver key" and "system_willing u key s"
    and "launched s = []" and "peer s = \<lparr>tool_client = None, tool_state = q\<rparr>" and "td_good q"
    and "pb_utf8 (instantiate_request INSTANCE_NAME GUID (''file:'' @ cwd) 1 1)"
    and "fits ser (instantiate_request INSTANCE_NAME GUID (''file:'' @ cwd) 1 1)"
    and "fixture_loaded fx"
  shows "\<exists>t fc h fx'. fixture_instantiated u (tool_runtime u (started_key driver) ser parse) ios (Some cwd) addr INSTANCE_NAME GUID fx s
      = Ret fx' t \<and> comp fx' = Some (next_addr s) \<and> fixture_loaded fx' \<and> isInstantiated fx' \<and> expected fx' = expected fx \<and>
    served (tool_peer u (started_key driver)) (\<lambda>s. tool_state (peer s)) (next_addr s) fc (base_clients (g_clients s) @ [Some (next_addr s)]) (containers s) t
      (constants (store_of q)) \<and>
    (\<forall>t :: (test_driver tool, 'z) fmu_world_scheme. IpcServer_delete u (proxy_server (m_proxy fc)) t =
       Ret () (shm_unlink (getMappedName u SHARED_MEM_BASE_NAME key) (close_fd h t)))"
proof -
  let ?cb = "\<lparr>has_logger = True, cb_environment = addr\<rparr>"
  from tool_instantiate_run [OF assms(1-7), of ?cb] obtain t fc h where
    inst: "fmi2Instantiate u (tool_runtime u (started_key driver) ser parse) ios INSTANCE_NAME GUID (''file:'' @ cwd) (Some ?cb) 1 1 s =
      Ret (Some (next_addr s)) t"
    and t: "serving u (started_key driver) (next_addr s) fc t (constants (store_of q))"
      "g_clients t = base_clients (g_clients s) @ [Some (next_addr s)]" "containers t = (containers s)(next_addr s \<mapsto> fc)"
    and del: "\<forall>t :: (test_driver tool, 'z) fmu_world_scheme. IpcServer_delete u (proxy_server (m_proxy fc)) t =
       Ret () (shm_unlink (getMappedName u SHARED_MEM_BASE_NAME key) (close_fd h t))" by blast
  have "served (tool_peer u (started_key driver)) (\<lambda>s. tool_state (peer s)) (next_addr s) fc (base_clients (g_clients s) @ [Some (next_addr s)]) (containers s) t
      (constants (store_of q))"
    using component_served [OF t(1)] t(2,3) by (simp add: served_def)
  with inst del assms(8) show ?thesis
    by (intro exI [of _ t] exI [of _ fc] exI [of _ h] exI [of _
          "fx\<lparr>m_callback := Some ?cb, comp := Some (next_addr s), isInstantiated := True\<rparr>"])
      (simp add: fixture_instantiated_def through_def fixture_loaded_def Let_def)
qed

end




lemma fmu_test_simps [simp]:
  "test_call (fmu_test n g c e) = c" "test_expect (fmu_test n g c e) = e" "test_rest (fmu_test n g c e) = (\<lambda>_. [])"
  by (simp_all add: fmu_test_def)







section \<open>Properties\<close>




end
