(* ===== verification/IpcMain.thy ===== *)
theory IpcMain
  imports Channel
begin

text \<open>
  The command line tool (libshmipc/ipcmain.cpp): started as \<open>key client\<close> it answers one message by
  itself, started as \<open>key server data\<close> it sends the data as a message and waits for the answer.
  What it prints is not modelled.
\<close>

section \<open>The program\<close>





section \<open>The two processes together\<close>




section \<open>Properties\<close>



end
