(* ===== verification/UnitTests.thy ===== *)
theory UnitTests
  imports LaunchedTool IpcMain Launch Uri
begin

text \<open>
  The unit tests of the layers below the FMI functions: of a channel with its two ends in two threads
  (testlibshmipc/FmiIpc_Tests.cpp), and of the URI conversion, the configuration file and the launcher
  (testlibshmfmu). The expectations are shown to hold, or the circumstances in which they do.
\<close>

section \<open>The channel\<close>

text \<open>
  The client's thread: it tries to connect until it succeeds, here at most \<open>n\<close> times; a client that
  failed is deleted. The message it got is a pointer into the shared memory, and is sent back as it is.
  The result says whether the loop came to its end.
\<close>

fun runClient :: "unix \<Rightarrow> ('a os_scheme) env \<Rightarrow> nat \<Rightarrow> string \<Rightarrow> nat \<Rightarrow> (bool, 'a os_scheme) prog" where
  "runClient u env timeout key 0 = ret False"
| "runClient u env timeout key (Suc n) =
     (\<lambda>s. case IpcClient_connect u (IpcClient_new 1 key) s of
        (success, client, s) \<Rightarrow>
          if success then
            andThen (getMessage env client timeout) (\<lambda>message. case message of
              None \<Rightarrow> andThen (IpcClient_delete u client) (\<lambda>_. ret True)
            | Some p \<Rightarrow>
                andThen (load_msg p) (\<lambda>m.
                andThen (sendReply client m) (\<lambda>_.
                andThen (IpcClient_delete u client) (\<lambda>_. ret True)))) s
          else andThen (IpcClient_delete u client) (\<lambda>_. runClient u env timeout key n) s)"

text \<open>\<open>strlen\<close> and the bytes it counts, in the array that the pointer leads into.\<close>

definition strlen_bytes :: "byte list \<Rightarrow> byte list option" where
  "strlen_bytes data = (if 0 \<in> set data then Some (takeWhile (\<lambda>b. b \<noteq> 0) data) else None)"

text \<open>
  The server's thread: the result of \<open>create\<close>, the message sent and the one received. The message has
  the bytes of the C string \<open>data\<close>. Nothing is looked at on the way: a failed \<open>create\<close> is followed by
  \<open>send\<close>, and its result is dereferenced.
\<close>

definition runServer ::
  "unix \<Rightarrow> ('a os_scheme) env \<Rightarrow> nat \<Rightarrow> string \<Rightarrow> byte list \<Rightarrow> (bool \<times> SharedFmiMessage \<times> SharedFmiMessage, 'a os_scheme) prog"
where
  "runServer u env timeout key data s =
     (case IpcServer_create u (IpcServer_new 0 key) s of
        (running, server, s) \<Rightarrow>
          andThen (need OutOfBounds (strlen_bytes data)) (\<lambda>bs.
          andThen (need OutOfBounds (with_payload (SharedFmiMessage_zero\<lparr>cmd := cmd_code cmd_fmi2DoStep\<rparr>) bs)) (\<lambda>m.
          andThen (IpcServer_send env server m timeout) (\<lambda>messageR.
          andThen (need NullDeref messageR) (\<lambda>p.
          andThen (load_msg p) (\<lambda>r.
          andThen (IpcServer_delete u (IpcServer_close server)) (\<lambda>_. ret (running, m, r))))))) s)"

text \<open>What the client's thread does while the server waits.\<close>

definition client_thread :: "unix \<Rightarrow> nat \<Rightarrow> string \<Rightarrow> ('a os_scheme) env" where
  "client_thread u timeout key d s =
     (case runClient u (\<lambda>_ s. s) timeout key 1 s of Ret _ t \<Rightarrow> t | _ \<Rightarrow> s)"

text \<open>The expectations of the two tests.\<close>

definition single_test_expects :: "bool \<times> SharedFmiMessage \<times> SharedFmiMessage \<Rightarrow> bool list" where
  "single_test_expects result =
     (case result of (running, s, r) \<Rightarrow>
        [protoBufMsgSize s = protoBufMsgSize r,
         c_str (map (\<lambda>b. char_of (unat b)) (protoBufMsg s)) = c_str (map (\<lambda>b. char_of (unat b)) (protoBufMsg r))] @
        map (\<lambda>i. protoBufMsg s ! i = protoBufMsg r ! i) [0..<nat (sint (protoBufMsgSize s))])"

text \<open>In the state in which the server waits, the client's thread runs to its end and leaves the message and a token.\<close>

lemma client_thread_answers:
  assumes fresh: "server_fresh u key srv s" and h: "m_pBuf srv = Some p" "m_hAvail srv = Sig a" "m_hSignal srv = Sig g"
  shows "sem_val (client_thread u timeout key d (sent_state p a m s)) g = 1 \<and>
    load_msg p (sem_take g (client_thread u timeout key d (sent_state p a m s))) =
      Ret m (sem_take g (client_thread u timeout key d (sent_state p a m s)))"
proof -
  from fresh_connect [OF fresh, of 1 p a m] obtain cl f n where
    c: "IpcClient_connect u (IpcClient_new 1 key) (sent_state p a m s) = (True, cl, (sent_state p a m s)\<lparr>fds := f, next_fd := n\<rparr>)"
    and same: "same_channel srv cl" and named: "m_hMapFileName cl \<noteq> None" by metis
  from fresh h have v: "a \<noteq> g" "0 < shm_size (shm_objs s p)" "sem_val s g = 0"
    by (auto simp: server_fresh_def server_ready_def)
  note run = fresh_answer [OF same h v refl]
  let ?t = "s\<lparr>shm_objs := (shm_objs s)(p := (shm_objs s p)\<lparr>shm_mem := \<lparr>message = m\<rparr>\<rparr>), fds := f, next_fd := n,
    sem_val := (sem_val s)(a := 0, g := 1)\<rparr>"
  obtain t where t: "IpcClient_delete u cl ?t = Ret () t" "shm_objs t = shm_objs ?t" "sem_val t = sem_val ?t"
    using client_deleted [OF named] by blast
  have "runClient u (\<lambda>_ s. s) timeout key 1 (sent_state p a m s) = Ret True t"
    using c t(1) run by (simp add: numeral_eq_Suc andThen_def)
  then have "client_thread u timeout key d (sent_state p a m s) = t" by (simp add: client_thread_def)
  then show ?thesis using t v by (simp add: sem_take_def load_msg_def)
qed

text \<open>Nobody answers before the deadline.\<close>

lemma send_unanswered:
  assumes "m_pBuf srv = Some p" and "m_hAvail srv = Sig a" and "m_hSignal srv = Sig g" and "a \<noteq> g"
    and "0 < shm_size (shm_objs s p)" and "sem_val s a = 0" and "sem_val s g = 0" and "timeout \<noteq> 0"
  shows "\<exists>t. IpcServer_send (\<lambda>_ s. s) srv m timeout s = Ret None t"
proof -
  have "\<exists>t. signalWait (\<lambda>_ s. s) (Sig g) timeout (sent_state p a m s) = Ret False t"
    using assms by (auto simp: signalWait_def sent_state_def Let_def)
  with assms(1-7) show ?thesis
    by (auto simp: IpcServer_send_def store_msg_def signalPost_Sig SEM_VALUE_MAX_def sent_state_def andThen_def)
qed

text \<open>What the server's thread has once \<open>create\<close> returned.\<close>

lemma test_server_created:
  fixes s :: "'a os_scheme"
  assumes "system_willing u key s"
  obtains srv t p a g where "IpcServer_create u (IpcServer_new 0 key) s = (True, srv, t)"
    and "server_fresh u key srv t" and "clock t = clock s" and "m_pBuf srv = Some p" and "m_hAvail srv = Sig a"
    and "m_hSignal srv = Sig g" and "a \<noteq> g" and "0 < shm_size (shm_objs t p)" and "sem_val t a = 0"
    and "sem_val t g = 0" and "\<not> refuse t (OpSemWait g)"
    and "\<And>w :: 'a os_scheme. \<exists>v. IpcServer_delete u (IpcServer_close srv) w = Ret () v \<and> sem_val v = sem_val w"
proof -
  let ?srv = "IpcServer_new 0 key"
  have name: "m_name ?srv = key" by (simp add: IpcServer_new_def IpcBase_new_def IpcBase.defs)
  from assms have w: "os_wf s" "\<And>op. \<not> refuse s op" "signal_names_distinct u key" by (simp_all add: system_willing_def)
  obtain ok srv t where c0: "IpcServer_create u ?srv s = (ok, srv, t)" by (metis prod_cases3)
  have ok: "ok" and fresh: "server_fresh u key srv t" using created_fresh [OF w name c0] by blast+
  then have c: "IpcServer_create u ?srv s = (True, srv, t)" using c0 by simp
  have del: "\<exists>v. IpcServer_delete u (IpcServer_close srv) w = Ret () v \<and> sem_val v = sem_val w" for w :: "'a os_scheme"
    using IpcServer_create_done(2) [OF w(1) _ c, unfolded name, OF w(3), of w]
    by (simp add: IpcServer_delete_close shm_unlink_def close_fd_def)
  from fresh obtain p a g where "m_pBuf srv = Some p" "m_hAvail srv = Sig a" "m_hSignal srv = Sig g" "a \<noteq> g"
      "0 < shm_size (shm_objs t p)" "sem_val t a = 0" "sem_val t g = 0" "\<not> refuse t (OpSemWait g)"
    by (auto simp: server_fresh_def server_ready_def)
  with that [OF c fresh clock_create [OF c]] del show thesis by blast
qed

text \<open>
  C24: The two tests of the channel, \<open>singleTest\<close> without a timeout and \<open>singleTestTimeout10\<close> with 10
  ms, for any C string that fits the buffer and on a system that refuses nothing, by what the client's
  thread does while the server's thread waits in \<open>send\<close>. If it runs (and the wait accepts the
  deadline), the server's thread ends: it created its channel, the message sent carries the string up
  to its first NUL, the message received is the message sent, and the test's expectations hold. If it
  does not get to run, then with a timeout the server's thread dereferences the NULL that \<open>send\<close>
  returned, and without one it waits for ever.
\<close>

theorem ipc_single_test:
  fixes s :: "'a os_scheme"
  assumes "system_willing u key s" and "strlen_bytes data = Some bs" and "length bs \<le> SharedFmiBufferSize"
    and "deadline_valid (clock s) timeout"
  shows "(\<exists>sent received t. runServer u (client_thread u timeout key) timeout key data s = Ret (True, sent, received) t \<and>
      payload sent = Some bs \<and> received = sent \<and> (\<forall>e \<in> set (single_test_expects (True, sent, received)). e)) \<and>
    runServer u (\<lambda>_ s. s) timeout key data s = (if timeout = 0 then Blocks else Fault NullDeref)"
proof -
  obtain srv t p a g where c: "IpcServer_create u (IpcServer_new 0 key) s = (True, srv, t)"
    and fresh: "server_fresh u key srv t" and now: "clock t = clock s"
    and h: "m_pBuf srv = Some p" "m_hAvail srv = Sig a" "m_hSignal srv = Sig g" "a \<noteq> g"
      "0 < shm_size (shm_objs t p)" "sem_val t a = 0" "sem_val t g = 0" "\<not> refuse t (OpSemWait g)"
    and del: "\<And>w :: 'a os_scheme. \<exists>v. IpcServer_delete u (IpcServer_close srv) w = Ret () v \<and> sem_val v = sem_val w"
    using test_server_created [OF assms(1)] by metis
  let ?m0 = "SharedFmiMessage_zero\<lparr>cmd := cmd_code cmd_fmi2DoStep\<rparr>"
  have wf: "msg_wf ?m0" using msg_wf_zero by (simp add: msg_wf_def)
  obtain m where m: "with_payload ?m0 bs = Some m" using with_payload_fits [OF wf assms(3)] by blast
  let ?e = "client_thread u timeout key None (sent_state p a m t)"
  note ans = client_thread_answers [OF fresh h(1-3), of timeout]
  have env: "client_thread u timeout key d (sent_state p a m t) = ?e" for d by (simp add: client_thread_def)
  have send: "IpcServer_send (client_thread u timeout key) srv m timeout t = Ret (Some p) (sem_take g ?e)"
    by (rule send_answered [where t = ?e, OF h]) (use assms(4) now ans env in simp_all)
  have load: "load_msg p (sem_take g ?e) = Ret m (sem_take g ?e)" using ans by blast
  obtain v where "IpcServer_delete u (IpcServer_close srv) (sem_take g ?e) = Ret () v" using del by blast
  then have run: "runServer u (client_thread u timeout key) timeout key data s = Ret (True, m, m) v"
    using c m send load assms(2) by (simp add: runServer_def andThen_def need_def)
  have pay: "payload m = Some bs" by (rule payload_with_payload [OF m wf])
  have alone: "runServer u (\<lambda>_ s. s) timeout key data s = (if timeout = 0 then Blocks else Fault NullDeref)"
  proof (cases "timeout = 0")
    case True
    have "IpcServer_send (\<lambda>_ s. s) srv m timeout t = Blocks"
      using h True by (simp add: IpcServer_send_def store_msg_def signalPost_Sig SEM_VALUE_MAX_def andThen_def signalWait_def)
    with True c m assms(2) show ?thesis by (simp add: runServer_def andThen_def need_def)
  next
    case False
    from send_unanswered [OF h(1-7) False, of m] obtain w where
      "IpcServer_send (\<lambda>_ s. s) srv m timeout t = Ret None w" by blast
    with False c m assms(2) show ?thesis by (simp add: runServer_def andThen_def need_def)
  qed
  show ?thesis
    by (intro conjI exI [of _ m] exI [of _ v] run pay refl alone) (auto simp: single_test_expects_def)
qed

theorem ipc_single_test_witness:
  "(\<exists>sent received t. runServer Linux (client_thread Linux 10 ''key'') 10 ''key'' [97, 98, 99, 0] os_init =
      Ret (True, sent, received) t \<and> payload sent = Some [97, 98, 99] \<and> received = sent) \<and>
   runServer Linux (\<lambda>_ s. s) 10 ''key'' [97, 98, 99, 0] os_init = Fault NullDeref"
proof -
  have w: "system_willing Linux ''key'' os_init" and d: "deadline_valid (clock os_init) 10"
    and b: "strlen_bytes [97, 98, 99, 0] = Some [97, 98, 99]"
    by (simp_all add: system_willing_def signal_names_distinct_Linux deadline_valid_def deadline_def strlen_bytes_def)
  have "length ([97, 98, 99] :: byte list) \<le> SharedFmiBufferSize" by (simp add: SharedFmiBufferSize_def)
  from ipc_single_test [OF w b this d] show ?thesis by auto
qed

section \<open>The URI conversion\<close>

text \<open>The tests of URI_Tests.cpp for each platform, as pairs of the URI and the path expected.\<close>

definition native :: "string \<Rightarrow> string" where
  "native = map (\<lambda>c. if c = CHR ''/'' then CHR 0x5C else c)"

fun URI_tests :: "platform \<Rightarrow> (string \<times> string) list" where
  "URI_tests Windows =
     [(''file:/c:/Users/user%20name/temp'', native ''c:/Users/user name/temp/''),
      (''file:///c:/Users/user%20name/temp'', native ''c:/Users/user name/temp/'')]"
| "URI_tests Unix =
     [(''file:/Users/grs/temp'', ''/Users/grs/temp/''),
      (''file:///Users/user%20name/temp/'', ''/Users/user name/temp/'')]"

text \<open>The examples that the comment above the tests gives.\<close>

fun URI_examples :: "platform \<Rightarrow> (string \<times> string) list" where
  "URI_examples Windows =
     [(''file:/c:/Users/user%20name/temp'', native ''c:/Users/user name/temp/''),
      (''file:///c:/Users/user%20name/temp'', native ''c:/Users/user name/temp/''),
      (''file://server/Users/user%20name/temp'', native ''//server/Users/user name/temp/''),
      (''file:/c:/server/Users/user%20name/temp'', native ''//server/Users/user name/temp/'')]"
| "URI_examples Unix =
     [(''file:/Users/grs/temp'', ''/Users/grs/temp/''),
      (''file:///Users/user%20name/temp/'', ''/Users/user name/temp/'')]"

definition uri_test_holds :: "platform \<Rightarrow> (nat \<Rightarrow> char) \<Rightarrow> string \<times> string \<Rightarrow> bool" where
  "uri_test_holds p junk test =
     (case URIToNativePath p junk (Some (fst test)) () of Ret (Some path) _ \<Rightarrow> path = snd test | _ \<Rightarrow> False)"

lemma uri_test_run:
  assumes "uri_path_start p uri () = Ret k ()" and "k < length uri" and "length uri < 2 ^ 31"
  shows "uri_test_holds p junk (uri, e) = (c_str (with_separator p (uri_decode p (drop k uri))) = e)"
  using URIToNativePath_run [OF assms(1,2), of junk] assms(3) by (simp add: uri_test_holds_def)

lemma blank_char: "char_of (32 :: nat) = CHR '' ''"
  by code_simp

lemmas uri_eval = blank_char uri_path_start_def strncmp_eq_def uri_at_def get_at_def need_def andThen_def with_separator_def
  c_str_def native_def hex_byte_def isxdigit_def hex_value_def code_def

text \<open>The tests pass, whatever the fresh buffer holds.\<close>

lemma uri_tests_pass: "map (uri_test_holds p junk) (URI_tests p) = [True, True]"
proof (cases p)
  case Windows
  have "uri_test_holds Windows junk (URI_tests Windows ! 0)"
    by (simp add: uri_test_run [where k = 6] uri_eval)
  moreover have "uri_test_holds Windows junk (URI_tests Windows ! 1)"
    by (simp add: uri_test_run [where k = 8] uri_eval)
  ultimately show ?thesis using Windows by simp
next
  case Unix
  have "uri_test_holds Unix junk (URI_tests Unix ! 0)"
    by (simp add: uri_test_run [where k = 5] uri_eval)
  moreover have "uri_test_holds Unix junk (URI_tests Unix ! 1)"
    by (simp add: uri_test_run [where k = 7] uri_eval)
  ultimately show ?thesis using Unix by simp
qed

text \<open>
  Of the examples of the comment the last does not hold: a drive is not left out, and its first directory
  is not taken for a server.
\<close>

lemma uri_examples_drive:
  "uri_test_holds Windows junk (URI_examples Windows ! 2)"
  "\<not> uri_test_holds Windows junk (URI_examples Windows ! 3)"
  "URIToNativePath Windows junk (Some (fst (URI_examples Windows ! 3))) s =
     Ret (Some (native ''c:/server/Users/user name/temp/'')) s"
proof -
  show "uri_test_holds Windows junk (URI_examples Windows ! 2)"
    by (simp add: uri_test_run [where k = 5] uri_eval)
  show "\<not> uri_test_holds Windows junk (URI_examples Windows ! 3)"
    by (simp add: uri_test_run [where k = 6] uri_eval)
  show "URIToNativePath Windows junk (Some (fst (URI_examples Windows ! 3))) s =
     Ret (Some (native ''c:/server/Users/user name/temp/'')) s"
    by (subst URIToNativePath_run [where k = 6]) (simp_all add: uri_eval)
qed

section \<open>The configuration file and the launcher\<close>

text \<open>The two files of the tests, and the argument both tests pass for the port.\<close>

definition config_test :: string where
  "config_test = text_file [] [''false'', ''java'', ''-jar'',
     ''fmi-interpreter-0.0.1-SNAPSHOT-jar-with-dependencies.jar'', ''-p'']"

definition config_test_echo :: string where
  "config_test_echo = text_file [] [''false'', ''echo'']"

definition test_port :: string where
  "test_port = ''8000some name''"

definition config_parse_expects :: "ConfigFile \<Rightarrow> bool" where
  "config_parse_expects cf \<longleftrightarrow>
     take 3 (m_args cf) = [''java'', ''-jar'', ''fmi-interpreter-0.0.1-SNAPSHOT-jar-with-dependencies.jar'']"

lemma config_parse_passes: "config_parse_expects (ConfigFile_new (Some config_test) test_port)"
  unfolding config_test_def test_port_def
  by (subst config_file_launches) (auto simp: plain_def config_parse_expects_def)

text \<open>The launcher's tests expect nothing but that \<open>launch\<close> and \<open>terminate\<close> come back.\<close>

definition launch_test :: "launch_os \<Rightarrow> string \<Rightarrow> (process \<times> c_int option \<times> JavaLauncher) list \<times> (string list \<times> bool) option" where
  "launch_test os contents =
     (let config = ConfigFile_new (Some contents) test_port;
          (returns, started) = launch os (JavaLauncher_new False ''/'' (m_args config))
      in (map (\<lambda>(who, status, jl). (who, status, JavaLauncher_terminate jl)) returns, started))"

text \<open>
  The first of them, \<open>launchfail\<close>, is meant to start a program that is not there. What comes back then is
  the test program itself, twice: the process that could not be replaced goes on with the tests too.
\<close>

lemma launchfail_returns_twice:
  assumes "fork1 os \<noteq> -1" and "fork2 os \<noteq> -1" and "\<not> exec_ok os"
  shows "map fst (fst (launch_test os contents)) = [Caller, Grandchild]" and "snd (launch_test os contents) = None"
  using assms by (simp_all add: launch_test_def launch_def Let_def)

lemma launch_echo:
  assumes "fork1 os \<noteq> -1" and "fork2 os \<noteq> -1" and "exec_ok os"
  shows "map fst (fst (launch_test os config_test_echo)) = [Caller]"
    and "snd (launch_test os config_test_echo) = Some ([''echo'', test_port], chdir_ok os)"
proof -
  have "m_args (ConfigFile_new (Some config_test_echo) test_port) = [''echo'', test_port]"
    unfolding config_test_echo_def test_port_def by (subst config_file_launches) (auto simp: plain_def)
  with assms show "map fst (fst (launch_test os config_test_echo)) = [Caller]"
    and "snd (launch_test os config_test_echo) = Some ([''echo'', test_port], chdir_ok os)"
    by (simp_all add: launch_test_def launch_def JavaLauncher_new_def Let_def)
qed

end
