(* ===== verification/FmuProxyTests.thy ===== *)
theory FmuProxyTests
  imports LaunchedTool RemoteTestDriver
begin

text \<open>
  The tests of the proxy (testlibshmfmi/FmuProxy_Tests.cpp and FmuProxyTest.h). Each of them runs a
  service thread that connects, answers one message and ends; a test that makes two calls starts a new
  thread in between. The tests are run over the shared memory from the creation of the server to its
  end.
\<close>

section \<open>The service thread\<close>

text \<open>
  \<open>service\<close> says whether a thread was started that has not ended, \<open>late\<close> whether the scheduler lets it
  run only after any deadline that the test's own thread waits for has passed.
\<close>

record 'p service_world = "'p world" +
  service :: bool
  late :: bool

text \<open>
  The thread while the test's own thread waits: it connects, answers and ends; in a wait with a deadline
  only if it is not late. A thread that gets to run earlier connects and then waits for the message,
  which makes no difference to a test that waits for its answer. The connect loop is looked at for one
  attempt: the test's own thread waits, so that nothing differs for the next (\<open>driver_connects_iff\<close>).
\<close>

definition service_env ::
  "unix \<Rightarrow> (pb_msg \<Rightarrow> byte list) \<Rightarrow> (pb_kind \<Rightarrow> byte list \<Rightarrow> pb_msg) \<Rightarrow> string \<Rightarrow>
   ((test_driver, 'z) service_world_scheme) env" where
  "service_env u ser parse key d s =
     (if service s \<and> (d = None \<or> \<not> late s)
      then (case remoteTestDriverSingle u ser parse (\<lambda>_ s. s) key 1 s of
              Ret ended t \<Rightarrow> t\<lparr>service := \<not> ended\<rparr> | _ \<Rightarrow> s)
      else s)"

text \<open>
  Joining the thread waits for its end, without a deadline; \<open>resetServiceThread\<close> then starts another
  one.
\<close>

definition service_join ::
  "(('p, 'z) service_world_scheme) env \<Rightarrow> (unit, ('p, 'z) service_world_scheme) prog" where
  "service_join env s = (let t = env None s in if service t then Blocks else Ret () t)"

definition service_start :: "(unit, ('p, 'z) service_world_scheme) prog" where
  "service_start s = Ret () (s\<lparr>service := True\<rparr>)"

definition resetServiceThread ::
  "(('p, 'z) service_world_scheme) env \<Rightarrow> (unit, ('p, 'z) service_world_scheme) prog" where
  "resetServiceThread env = andThen (service_join env) (\<lambda>_. service_start)"

lemma service_joined [simp]:
  "\<not> service s \<Longrightarrow> service_env u ser parse key d s = s"
  "\<not> service s \<Longrightarrow> service_join (service_env u ser parse key) s = Ret () s"
  by (simp_all add: service_env_def service_join_def)

text \<open>The handler as the proxy sees it: there for one message, then gone.\<close>

fun one_shot ::
  "(SharedFmiMessage \<Rightarrow> (SharedFmiMessage, 'p) prog) \<Rightarrow> SharedFmiMessage \<Rightarrow> (SharedFmiMessage, bool \<times> 'p) prog"
where
  "one_shot h m (running, q) =
     (if running then (case h m q of Fault e \<Rightarrow> Fault e | Blocks \<Rightarrow> Blocks | Ret r q' \<Rightarrow> Ret r (False, q')) else Blocks)"

fun one_shot_serves ::
  "('p \<Rightarrow> fmi2Command \<Rightarrow> pb_msg \<Rightarrow> pb_msg \<Rightarrow> 'p \<Rightarrow> bool) \<Rightarrow> bool \<times> 'p \<Rightarrow> fmi2Command \<Rightarrow> pb_msg \<Rightarrow> pb_msg \<Rightarrow>
   bool \<times> 'p \<Rightarrow> bool" where
  "one_shot_serves serves (b, q) c m r (b', q') = (b \<and> \<not> b' \<and> serves q c m r q')"

section \<open>One call\<close>

lemma client_turn_posted:
  fixes t :: "('p, 'z) world_scheme"
  assumes "m_hAvail cl = Sig a" and "m_hSignal cl = Sig g" and "m_pBuf cl = Some p" and "a \<noteq> g"
    and "sem_val t a = 1" and "sem_val t g = 0" and "0 < shm_size (shm_objs t p)"
    and "h (message (shm_mem (shm_objs t p))) (peer t) = Ret r q"
  shows "client_turn h cl t = Ret () ((after_exchange r q p t)\<lparr>sem_val := (sem_val t)(a := 0, g := 1)\<rparr>)"
  using assms
  by (simp add: client_turn_def getMessage_def sendReply_def signalWait_def INFINITE_def
      andThen_def chan_acts after_exchange_def)

text \<open>What the thread makes of the state in which the proxy waits.\<close>

lemma service_runs:
  fixes s :: "(test_driver, 'z) service_world_scheme"
  assumes fresh: "server_fresh u key srv s" and run: "service s" "d = None \<or> \<not> late s" and h: "td_handle ser parse m (peer s) = Ret r q"
    and srv: "m_pBuf srv = Some p" "m_hAvail srv = Sig a" "m_hSignal srv = Sig g"
  shows "\<exists>f n. service_env u ser parse key d (sent_state p a m s) =
      (after_exchange r q p s)\<lparr>fds := f, next_fd := n, sem_val := (sem_val s)(a := 0, g := 1), service := False\<rparr> \<and>
    os_wf (s\<lparr>fds := f, next_fd := n\<rparr>)"
proof -
  let ?s = "sent_state p a m s"
  from fresh have v: "a \<noteq> g" "sem_val s g = 0" "0 < shm_size (shm_objs s p)"
    using srv by (auto simp: server_fresh_def server_ready_def)
  from fresh_connect [OF fresh, of 0 p a m] obtain cl f n where
    c0: "IpcClient_connect u (IpcClient_new 0 key) ?s = (True, cl, ?s\<lparr>fds := f, next_fd := n\<rparr>)"
    and same: "same_channel srv cl" and wf: "os_wf (s\<lparr>fds := f, next_fd := n\<rparr>)" by metis
  define s' where s': "s' = ?s\<lparr>fds := f, next_fd := n\<rparr>"
  have c: "IpcClient_connect u (IpcClient_new 0 key) ?s = (True, cl, s')" using c0 s' by simp
  have cl: "m_pBuf cl = Some p" "m_hAvail cl = Sig a" "m_hSignal cl = Sig g"
    using same srv by (simp_all add: same_channel_def)
  have at: "sem_val s' a = 1" "sem_val s' g = 0" "0 < shm_size (shm_objs s' p)" "peer s' = peer s"
    "message (shm_mem (shm_objs s' p)) = m"
    using v by (simp_all add: s')
  have "td_turn ser parse (\<lambda>_ s. s) cl s' = client_turn (td_handle ser parse) cl s'"
    using cl at by (intro td_turn_client [where a = a and p = p]) simp_all
  also have "\<dots> = Ret () ((after_exchange r q p s')\<lparr>sem_val := (sem_val s')(a := 0, g := 1)\<rparr>)"
    using cl v at h by (intro client_turn_posted) simp_all
  also have "(after_exchange r q p s')\<lparr>sem_val := (sem_val s')(a := 0, g := 1)\<rparr> =
      (after_exchange r q p s)\<lparr>fds := f, next_fd := n, sem_val := (sem_val s)(a := 0, g := 1)\<rparr>"
    by (simp add: s' sent_state_def after_exchange_def)
  finally have "remoteTestDriverSingle u ser parse (\<lambda>_ s. s) key 1 ?s = Ret True
      ((after_exchange r q p s)\<lparr>fds := f, next_fd := n, sem_val := (sem_val s)(a := 0, g := 1)\<rparr>)"
    using c by (simp add: remoteTestDriverSingle_def remoteTestDriver_def td_connect_def andThen_def numeral_eq_Suc)
  moreover have "service ?s" "d = None \<or> \<not> late ?s" using run by (simp_all add: sent_state_def)
  ultimately show ?thesis using wf by (intro exI [of _ f] exI [of _ n]) (simp add: service_env_def)
qed

text \<open>
  Whether the thread answers within the millisecond that \<open>FmuProxy::fmi2FreeInstance\<close> waits; the
  deadline must also be one that the system accepts.
\<close>

definition prompt :: "('p, 'z) service_world_scheme \<Rightarrow> bool" where
  "prompt s \<longleftrightarrow> \<not> late s \<and> deadline_valid (clock s) 1"

definition service_ready :: "bool \<Rightarrow> unix \<Rightarrow> string \<Rightarrow> IpcServer \<Rightarrow> ('p, 'z) service_world_scheme \<Rightarrow> bool" where
  "service_ready b u key srv s \<longleftrightarrow> server_fresh u key srv s \<and> prompt s = b"

lemma service_flag [simp]:
  fixes s :: "('p, 'z) service_world_scheme"
  shows "server_fresh u key srv (s\<lparr>service := x\<rparr>) = server_fresh u key srv s"
    and "service_ready b u key srv (s\<lparr>service := x\<rparr>) = service_ready b u key srv s"
    and "prompt (s\<lparr>service := x\<rparr>) = prompt s"
  by (simp_all add: service_ready_def server_fresh_def server_ready_def os_wf_def prompt_def)

lemma service_send:
  fixes s :: "(test_driver, 'z) service_world_scheme"
  assumes ready: "service_ready b u key srv s" and run: "service s" and h: "td_handle ser parse m (peer s) = Ret r q"
    and timeout: "timeout = INFINITE \<or> timeout = 1 \<and> b"
  shows "\<exists>p t. IpcServer_send (service_env u ser parse key) srv m timeout s = Ret (Some p) t \<and> load_msg p t = Ret r t \<and>
    service_ready b u key srv t \<and> \<not> service t \<and> peer t = q"
proof -
  let ?d = "if timeout = INFINITE then None else Some (deadline (clock s) timeout)"
  from ready have fresh: "server_fresh u key srv s" and b: "prompt s = b" by (simp_all add: service_ready_def)
  then obtain p a g where srv: "m_pBuf srv = Some p" "m_hAvail srv = Sig a" "m_hSignal srv = Sig g" "a \<noteq> g"
      "0 < shm_size (shm_objs s p)" "sem_val s a = 0" "sem_val s g = 0" "\<not> refuse s (OpSemWait g)"
    by (auto simp: server_fresh_def server_ready_def)
  have may: "?d = None \<or> \<not> late s" and valid: "deadline_valid (clock s) timeout"
    using timeout b by (auto simp: prompt_def)
  from service_runs [OF fresh run may h srv(1-3)] obtain f n where
    env: "service_env u ser parse key ?d (sent_state p a m s) =
      (after_exchange r q p s)\<lparr>fds := f, next_fd := n, sem_val := (sem_val s)(a := 0, g := 1), service := False\<rparr>"
    and wf: "os_wf (s\<lparr>fds := f, next_fd := n\<rparr>)" by blast
  let ?e = "(after_exchange r q p s)\<lparr>fds := f, next_fd := n, sem_val := (sem_val s)(a := 0, g := 1), service := False\<rparr>"
  let ?t = "(after_exchange r q p s)\<lparr>fds := f, next_fd := n, service := False\<rparr>"
  have "IpcServer_send (service_env u ser parse key) srv m timeout s = Ret (Some p) (sem_take g ?e)"
    by (rule send_answered_at [OF srv valid]) (use env in \<open>simp_all add: INFINITE_def\<close>)
  moreover have "sem_take g ?e = ?t"
    using srv by (simp add: sem_take_def after_exchange_def fun_upd_idem)
  moreover have "os_wf ?t" using wf by (simp add: after_exchange_def os_wf_def)
  then have "service_ready b u key srv ?t"
    using ready by (auto simp: service_ready_def server_fresh_def server_ready_def after_exchange_def prompt_def)
  ultimately show ?thesis
    using srv by (intro exI [of _ p] exI [of _ ?t]) (simp add: after_exchange_def load_msg_def)
qed

text \<open>A thread that is not prompt leaves the wait of a millisecond to its deadline.\<close>

lemma service_missed:
  fixes s :: "(test_driver, 'z) service_world_scheme"
  assumes ready: "service_ready False u key srv s" and run: "service s"
  shows "\<exists>p a. m_pBuf srv = Some p \<and> m_hAvail srv = Sig a \<and>
    IpcServer_send (service_env u ser parse key) srv m 1 s = Ret None (sent_state p a m s)"
proof -
  from ready have fresh: "server_fresh u key srv s" and b: "\<not> prompt s" by (simp_all add: service_ready_def)
  then obtain p a g where srv: "m_pBuf srv = Some p" "m_hAvail srv = Sig a" "m_hSignal srv = Sig g" "a \<noteq> g"
      "0 < shm_size (shm_objs s p)" "sem_val s a = 0" "sem_val s g = 0" "\<not> refuse s (OpSemWait g)"
    by (auto simp: server_fresh_def server_ready_def)
  have "signalWait (service_env u ser parse key) (Sig g) 1 (sent_state p a m s) = Ret False (sent_state p a m s)"
    using srv b by (auto simp: signalWait_def prompt_def deadline_valid_def service_env_def sent_state_def Let_def)
  with srv show ?thesis
    by (simp add: IpcServer_send_def store_msg_def signalPost_Sig SEM_VALUE_MAX_def sent_state_def andThen_def)
qed

lemma service_exchange:
  fixes s :: "(test_driver, 'z) service_world_scheme"
  assumes ready: "service_ready b u key srv s" and h: "one_shot (td_handle ser parse) m (service s, peer s) = Ret r q"
  shows "\<exists>s'. exchange (service_env u ser parse key) srv INFINITE m s = Ret (Some r) s' \<and> service_ready b u key srv s' \<and>
    (service s', peer s') = q"
proof -
  from h obtain q' where run: "service s" "td_handle ser parse m (peer s) = Ret r q'" and q: "q = (False, q')"
    by (auto split: if_splits outcome.splits)
  from service_send [OF ready run, of INFINITE] q show ?thesis
    by (auto simp: exchange_def andThen_def)
qed

text \<open>So the thread is a peer of the contract, for any proxy.\<close>

sublocale protobuf_codec \<subseteq>
  service: proxy_peer "service_env u ser parse key" px "service_ready b u key (proxy_server px)"
    "\<lambda>s. (service s, peer s)" "one_shot (td_handle ser parse)" ser parse "one_shot_serves (td_serves ser)"
    for b u key px
proof unfold_locales
  fix s :: "(test_driver, 'z) service_world_scheme" and m r q
  assume "service_ready b u key (proxy_server px) s" and "one_shot (td_handle ser parse) m (service s, peer s) = Ret r q"
  then show "\<exists>s'. exchange (service_env u ser parse key) (proxy_server px) INFINITE m s = Ret (Some r) s' \<and>
      service_ready b u key (proxy_server px) s' \<and> (service s', peer s') = q"
    by (rule service_exchange)
next
  fix q c m r q' sm
  assume "one_shot_serves (td_serves ser) q c m r q'" and sm: "cmd sm = cmd_code c" "msg_wf sm" "payload sm = Some (ser m)"
  then have "td_serves ser (snd q) c m r (snd q')" and f: "fst q" "\<not> fst q'" by (cases q; cases q'; simp)+
  from td_handle_run [OF protobuf_codec_axioms this(1) sm] f
  show "\<exists>rep. one_shot (td_handle ser parse) sm q = Ret rep q' \<and> payload rep = Some (ser r)"
    by (cases q; cases q') auto
next
  fix q c m r q'
  assume "one_shot_serves (td_serves ser) q c m r q'"
  then have "td_serves ser (snd q) c m r (snd q')" by (cases q; cases q'; simp)
  then show "kind_of r = reply_kind c \<and> pb_utf8 r"
    by (auto simp: td_serves_def dest: td_answer_class)
qed

section \<open>The tests\<close>

text \<open>
  A test with its expectations: of a status, of a status and a value returned with it, and of a set
  that is followed by a get for a new thread. What a call overwrites is zero before.
\<close>

definition status_test :: "(proxy_status, 's) prog \<Rightarrow> (bool list, 's) prog" where
  "status_test m = andThen m (\<lambda>st. ret [st = px_OK])"

definition value_test :: "'v \<Rightarrow> (proxy_status \<times> 'v, 's) prog \<Rightarrow> (bool list, 's) prog" where
  "value_test v m = andThen m (\<lambda>(st, x). ret [st = px_OK, x = v])"

definition set_get_test ::
  "(('p, 'z) service_world_scheme) runtime \<Rightarrow> 'v list \<Rightarrow> (proxy_status, ('p, 'z) service_world_scheme) prog \<Rightarrow>
   (proxy_status \<times> 'v list, ('p, 'z) service_world_scheme) prog \<Rightarrow> (bool list, ('p, 'z) service_world_scheme) prog" where
  "set_get_test rt vals setter getter =
     andThen setter (\<lambda>st. andThen (resetServiceThread (rt_env rt)) (\<lambda>_. andThen getter (\<lambda>(st', res).
       ret ([st = px_OK, st' = px_OK] @ map2 (=) vals res))))"

definition test_texts :: "string list" where
  "test_texts = [''Test string: a'', ''Test string: b'', ''Test string: c'']"

text \<open>The tests of the calls that set the simulation up.\<close>

definition proxy_tests_mode ::
  "(('p, 'z) service_world_scheme) runtime \<Rightarrow> FmuProxy \<Rightarrow> ((bool list, ('p, 'z) service_world_scheme) prog) list" where
  "proxy_tests_mode rt px =
     [andThen (FmuProxy_fmi2Instantiate rt px ''my instance'' ''dcnkjvnrevirehvljkfnvf'' ''/tmp'' ''localhost'' 1 1)
        (\<lambda>b. ret [b]),
      andThen (FmuProxy_fmi2FreeInstance rt px) (\<lambda>_. ret []),
      status_test (FmuProxy_fmi2EnterInitializationMode rt px),
      status_test (FmuProxy_fmi2ExitInitializationMode rt px),
      status_test (FmuProxy_fmi2SetupExperiment rt px 1 0x3FB999999999999A 0 1 0x3FF199999999999A),
      status_test (FmuProxy_fmi2Terminate rt px),
      status_test (FmuProxy_fmi2SetDebugLogging rt px 1 3 [''all'', ''all+1'', ''all+2''])]"

text \<open>Of the data; the last of them sends a string that fills the buffer by itself.\<close>

definition overflow_text :: string where
  "overflow_text = replicate SharedFmiBufferSize (CHR ''a'')"

definition proxy_tests_data ::
  "(('p, 'z) service_world_scheme) runtime \<Rightarrow> FmuProxy \<Rightarrow> ((bool list, ('p, 'z) service_world_scheme) prog) list" where
  "proxy_tests_data rt px =
     [set_get_test rt [0x3FF199999999999A, 0x400199999999999A, 0x400A666666666666]
        (FmuProxy_fmi2SetReal rt px [1, 2, 3] 3 [0x3FF199999999999A, 0x400199999999999A, 0x400A666666666666])
        (FmuProxy_fmi2GetReal rt px [1, 2, 3] 3 [0, 0, 0]),
      set_get_test rt [1, 0, 1] (FmuProxy_fmi2SetBoolean rt px [1, 2, 3] 3 [1, 0, 1])
        (FmuProxy_fmi2GetBoolean rt px [1, 2, 3] 3 [0, 0, 0]),
      set_get_test rt [1, 0, 1] (FmuProxy_fmi2SetInteger rt px [1, 2, 3] 3 [1, 0, 1])
        (FmuProxy_fmi2GetInteger rt px [1, 2, 3] 3 [0, 0, 0]),
      set_get_test rt test_texts (FmuProxy_fmi2SetString rt px [1, 2, 3] 3 test_texts)
        (FmuProxy_fmi2GetString rt px [1, 2, 3] 3 [[], [], []]),
      andThen (FmuProxy_fmi2SetString rt px [1, 2, 3] 1 [overflow_text]) (\<lambda>st.
      andThen (FmuProxy_fmi2GetString rt px [1, 2, 3] 1 [[]]) (\<lambda>(st', _). ret [st = px_Fatal, st' = px_OK]))]"

text \<open>Of the step and the queries, with 100.5, 100, true and a text for the values.\<close>

definition proxy_tests_status ::
  "(('p, 'z) service_world_scheme) runtime \<Rightarrow> FmuProxy \<Rightarrow> ((bool list, ('p, 'z) service_world_scheme) prog) list" where
  "proxy_tests_status rt px =
     [status_test (FmuProxy_fmi2DoStep rt px 0 0x3FB999999999999A 0),
      value_test px_OK (FmuProxy_fmi2GetStatus rt px px_LastSuccessfulTime px_Fatal),
      value_test 0x4059200000000000 (FmuProxy_fmi2GetRealStatus rt px px_LastSuccessfulTime 0),
      value_test 100 (FmuProxy_fmi2GetIntegerStatus rt px px_LastSuccessfulTime 0),
      value_test 1 (FmuProxy_fmi2GetBooleanStatus rt px px_Terminated 0),
      value_test ''waiting'' (FmuProxy_fmi2GetStringStatus rt px px_DoStepStatus [])]"

definition FmuProxy_Tests ::
  "(('p, 'z) service_world_scheme) runtime \<Rightarrow> FmuProxy \<Rightarrow> ((bool list, ('p, 'z) service_world_scheme) prog) list" where
  "FmuProxy_Tests rt px = proxy_tests_mode rt px @ proxy_tests_data rt px @ proxy_tests_status rt px"

section \<open>The fixture\<close>

fun MEM_KEY :: "unix \<Rightarrow> string" where
  "MEM_KEY Linux = ''shmFmiTestLinux''"
| "MEM_KEY (Apple h) = ''shmFmiTestApple''"

definition proxy_SetUp :: "unix \<Rightarrow> (bool \<times> FmuProxy, ('p, 'z) service_world_scheme) prog" where
  "proxy_SetUp u s =
     (let client = FmuProxy_new 0 (MEM_KEY u);
          client = client\<lparr>proxy_server := enableConsoleDebug (FmuProxy_getChannel client)\<rparr>
      in case FmuProxy_initialize u client s of
           (success, client, s) \<Rightarrow> andThen service_start (\<lambda>_. ret (success, client)) s)"

definition proxy_TearDown :: "unix \<Rightarrow> (('p, 'z) service_world_scheme) runtime \<Rightarrow> FmuProxy \<Rightarrow> (unit, ('p, 'z) service_world_scheme) prog"
where
  "proxy_TearDown u rt client = andThen (FmuProxy_delete u client) (\<lambda>_. service_join (rt_env rt))"

definition service_runtime ::
  "unix \<Rightarrow> (pb_msg \<Rightarrow> byte list) \<Rightarrow> (pb_kind \<Rightarrow> byte list \<Rightarrow> pb_msg) \<Rightarrow> ((test_driver, 'z) service_world_scheme) runtime" where
  "service_runtime u ser parse = \<lparr>rt_ser = ser, rt_parse = parse, rt_env = service_env u ser parse (MEM_KEY u)\<rparr>"

text \<open>Test number \<open>i\<close> with its fixture, and any sequence of them.\<close>

definition run_proxy_test ::
  "unix \<Rightarrow> (pb_msg \<Rightarrow> byte list) \<Rightarrow> (pb_kind \<Rightarrow> byte list \<Rightarrow> pb_msg) \<Rightarrow> nat \<Rightarrow>
   (bool list, (test_driver, 'z) service_world_scheme) prog" where
  "run_proxy_test u ser parse i =
     andThen (proxy_SetUp u) (\<lambda>(success, client).
     andThen (FmuProxy_Tests (service_runtime u ser parse) client ! i) (\<lambda>bs.
     andThen (proxy_TearDown u (service_runtime u ser parse) client) (\<lambda>_. ret (success # bs))))"

fun run_proxy_tests ::
  "unix \<Rightarrow> (pb_msg \<Rightarrow> byte list) \<Rightarrow> (pb_kind \<Rightarrow> byte list \<Rightarrow> pb_msg) \<Rightarrow> nat list \<Rightarrow>
   (bool list, (test_driver, 'z) service_world_scheme) prog" where
  "run_proxy_tests u ser parse [] = ret []"
| "run_proxy_tests u ser parse (i # is) =
     andThen (run_proxy_test u ser parse i) (\<lambda>bs. andThen (run_proxy_tests u ser parse is) (\<lambda>rest. ret (bs @ rest)))"

section \<open>The channel by itself\<close>

text \<open>
  The file's first test has no proxy. Its thread tries to connect until it succeeds, here at most \<open>n\<close>
  times, and calls itself for that, so that the clients that failed are deleted when it returns. It
  changes the command of the message where it lies and sends it back.
\<close>

fun clientThread :: "unix \<Rightarrow> ('a os_scheme) env \<Rightarrow> nat \<Rightarrow> (bool, 'a os_scheme) prog" where
  "clientThread u env 0 = ret False"
| "clientThread u env (Suc n) =
     (\<lambda>s. case IpcClient_connect u (IpcClient_new 0 (MEM_KEY u)) s of
        (success, client, s) \<Rightarrow>
          if \<not> success then
            andThen (clientThread u env n) (\<lambda>ended.
            if ended then andThen (IpcClient_delete u client) (\<lambda>_. ret True) else ret False) s
          else
            andThen (getMessage env client 0) (\<lambda>msg.
            andThen (need NullDeref msg) (\<lambda>p.
            andThen (load_msg p) (\<lambda>m.
            andThen (andThen (store_msg p (m\<lparr>cmd := cmd_code cmd_fmi2DoStep\<rparr>))
              (\<lambda>_. sendReply client (m\<lparr>cmd := cmd_code cmd_fmi2DoStep\<rparr>))) (\<lambda>_.
            andThen (IpcClient_delete u client) (\<lambda>_. ret True))))) s)"

definition basetest_env :: "unix \<Rightarrow> (('p, 'z) service_world_scheme) env" where
  "basetest_env u d s =
     (if service s
      then (case clientThread u (\<lambda>_ s. s) 1 s of Ret ended t \<Rightarrow> t\<lparr>service := \<not> ended\<rparr> | _ \<Rightarrow> s)
      else s)"

text \<open>The message is on the stack: all of it but the command is what was there.\<close>

definition shmbasetest :: "unix \<Rightarrow> SharedFmiMessage \<Rightarrow> (bool list, ('p, 'z) service_world_scheme) prog" where
  "shmbasetest u msg s =
     (case IpcServer_create u (IpcServer_new 0 (MEM_KEY u)) s of
        (created, server, s) \<Rightarrow>
          andThen service_start (\<lambda>_.
          andThen (IpcServer_send (basetest_env u) server (msg\<lparr>cmd := cmd_code cmd_fmi2SetupExperiment\<rparr>) 0) (\<lambda>_.
          andThen (service_join (basetest_env u)) (\<lambda>_.
          andThen (IpcServer_delete u (IpcServer_close server)) (\<lambda>_. ret [created, True])))) s)"

lemma basetest_env_answers:
  fixes s :: "('p, 'z) service_world_scheme"
  assumes fresh: "server_fresh u (MEM_KEY u) srv s" and run: "service s"
    and srv: "m_pBuf srv = Some p" "m_hAvail srv = Sig a" "m_hSignal srv = Sig g"
  shows "\<exists>t. (\<forall>d. basetest_env u d (sent_state p a m s) = t) \<and> \<not> service t \<and> sem_val t g = 1 \<and>
    message (shm_mem (shm_objs t p)) = m\<lparr>cmd := cmd_code cmd_fmi2DoStep\<rparr>"
proof -
  from fresh srv have v: "a \<noteq> g" "0 < shm_size (shm_objs s p)" "sem_val s g = 0"
    by (auto simp: server_fresh_def server_ready_def)
  from fresh_connect [OF fresh, of 0 p a m] obtain cl f n where
    c: "IpcClient_connect u (IpcClient_new 0 (MEM_KEY u)) (sent_state p a m s) = (True, cl, (sent_state p a m s)\<lparr>fds := f, next_fd := n\<rparr>)"
    and same: "same_channel srv cl" and named: "m_hMapFileName cl \<noteq> None" by metis
  note answer = fresh_answer [OF same srv v refl]
  let ?r = "m\<lparr>cmd := cmd_code cmd_fmi2DoStep\<rparr>"
  let ?t = "s\<lparr>shm_objs := (shm_objs s)(p := (shm_objs s p)\<lparr>shm_mem := \<lparr>message = ?r\<rparr>\<rparr>), fds := f, next_fd := n,
    sem_val := (sem_val s)(a := 0, g := 1)\<rparr>"
  obtain t where t: "IpcClient_delete u cl ?t = Ret () t" "shm_objs t = shm_objs ?t" "sem_val t = sem_val ?t"
    using client_deleted [OF named] by blast
  have "clientThread u (\<lambda>_ s. s) 1 (sent_state p a m s) = Ret True t"
    using c t(1) answer
    by (simp add: numeral_eq_Suc andThen_def [of "getMessage _ _ _"] andThen_def [of "need _ _"] andThen_def [of "load_msg _"]
        andThen_def [of "andThen _ _"] andThen_def [of "IpcClient_delete _ _"] need_def)
  then have "basetest_env u d (sent_state p a m s) = t\<lparr>service := False\<rparr>" for d
    using run by (simp add: basetest_env_def sent_state_def)
  then show ?thesis using t(2,3) v by (intro exI [of _ "t\<lparr>service := False\<rparr>"]) simp
qed

text \<open>The test passes, its thread has ended, and the reply it does not look at was there.\<close>

lemma shmbasetest_passes:
  fixes s :: "('p, 'z) service_world_scheme"
  assumes "system_willing u (MEM_KEY u) s"
  shows "\<exists>t p. shmbasetest u msg s = Ret [True, True] t \<and> \<not> service t \<and>
    message (shm_mem (shm_objs t p)) = msg\<lparr>cmd := cmd_code cmd_fmi2DoStep\<rparr>"
proof -
  let ?srv0 = "IpcServer_new 0 (MEM_KEY u)"
  have name: "m_name ?srv0 = MEM_KEY u" by (simp add: IpcServer_new_def IpcBase_new_def IpcBase.defs)
  from assms have w: "os_wf s" "\<And>op. \<not> refuse s op" "signal_names_distinct u (MEM_KEY u)"
    by (simp_all add: system_willing_def)
  obtain ok srv s1 where c0: "IpcServer_create u ?srv0 s = (ok, srv, s1)" by (metis prod_cases3)
  have ok: "ok" and fresh: "server_fresh u (MEM_KEY u) srv s1" using created_fresh [OF w name c0] by blast+
  then have c: "IpcServer_create u ?srv0 s = (True, srv, s1)" using c0 by simp
  let ?s = "s1\<lparr>service := True\<rparr>" and ?m = "msg\<lparr>cmd := cmd_code cmd_fmi2SetupExperiment\<rparr>"
  have fresh: "server_fresh u (MEM_KEY u) srv ?s" using fresh by simp
  then obtain p a g where h: "m_pBuf srv = Some p" "m_hAvail srv = Sig a" "m_hSignal srv = Sig g" "a \<noteq> g"
      "0 < shm_size (shm_objs ?s p)" "sem_val ?s a = 0" "sem_val ?s g = 0" "\<not> refuse ?s (OpSemWait g)"
    by (auto simp: server_fresh_def server_ready_def)
  from basetest_env_answers [OF fresh _ h(1-3), of ?m] obtain e where
    e: "\<And>d. basetest_env u d (sent_state p a ?m ?s) = e" "\<not> service e" "sem_val e g = 1"
      "message (shm_mem (shm_objs e p)) = msg\<lparr>cmd := cmd_code cmd_fmi2DoStep\<rparr>" by auto
  have "IpcServer_send (basetest_env u) srv ?m 0 ?s = Ret (Some p) (sem_take g e)"
    by (rule send_answered [where t = e, OF h]) (use e deadline_valid_INFINITE [of "clock ?s"] in \<open>simp_all add: INFINITE_def\<close>)
  moreover obtain t where "IpcServer_delete u (IpcServer_close srv) (sem_take g e) = Ret () t"
      "service t = service e" "shm_objs t = shm_objs e"
    using IpcServer_create_done(2) [OF w(1) _ c, unfolded name, OF w(3), of "sem_take g e"]
    by (simp add: IpcServer_delete_close shm_unlink_def close_fd_def sem_take_def)
  ultimately have "shmbasetest u msg s = Ret [True, True] t \<and> \<not> service t \<and>
      message (shm_mem (shm_objs t p)) = msg\<lparr>cmd := cmd_code cmd_fmi2DoStep\<rparr>"
    using c e by (simp add: shmbasetest_def service_start_def service_join_def basetest_env_def andThen_def sem_take_def)
  then show ?thesis by blast
qed

section \<open>Passing\<close>

text \<open>
  Between the tests and during one. The string that the overflow test reads may be any that protobuf
  carries and the buffer holds.
\<close>

definition driver_sane :: "test_driver \<Rightarrow> bool" where
  "driver_sane q \<longleftrightarrow> td_wf q \<and> utf8 (strings q ! 1) \<and> length (strings q ! 1) \<le> 9000"

definition test_begun :: "bool \<Rightarrow> unix \<Rightarrow> FmuProxy \<Rightarrow> (test_driver, 'z) service_world_scheme \<Rightarrow> bool" where
  "test_begun b u px s \<longleftrightarrow> service_ready b u (MEM_KEY u) (proxy_server px) s \<and> service s \<and> driver_sane (peer s)"

definition test_done :: "bool \<Rightarrow> unix \<Rightarrow> FmuProxy \<Rightarrow> (test_driver, 'z) service_world_scheme \<Rightarrow> bool" where
  "test_done b u px s \<longleftrightarrow> service_ready b u (MEM_KEY u) (proxy_server px) s \<and> \<not> service s \<and> driver_sane (peer s)"

definition passes ::
  "bool \<Rightarrow> unix \<Rightarrow> FmuProxy \<Rightarrow> (bool list, (test_driver, 'z) service_world_scheme) prog \<Rightarrow> bool" where
  "passes b u px test \<longleftrightarrow>
     (\<forall>s. test_begun b u px s \<longrightarrow> (\<exists>bs t. test s = Ret bs t \<and> list_all id bs \<and> test_done b u px t))"

lemma passesI:
  "(\<And>s. test_begun b u px s \<Longrightarrow> \<exists>bs t. test s = Ret bs t \<and> list_all id bs \<and> test_done b u px t) \<Longrightarrow> passes b u px test"
  by (simp add: passes_def)

lemma getStatus_Ok [simp]: "getStatus (Fmi2StatusReply Status_Ok) s = Ret px_OK s"
  by (simp add: getStatus_def Status_defs)

context protobuf_codec
begin

lemma service_call:
  fixes s :: "(test_driver, 'z) service_world_scheme"
  assumes "test_begun b u px s" and "td_serves ser (peer s) c m r q" and "length (ser m) \<le> 10000" and "driver_sane q"
  shows "\<exists>t. FmuProxy_send (service_runtime u ser parse) px c m s = Ret (Some r) t \<and> test_done b u px t \<and> peer t = q"
  using service.send [of b u "MEM_KEY u" px s c m r "(False, q)"] assms
  by (auto simp: service_runtime_def test_begun_def test_done_def)

lemma status_passes:
  assumes "\<And>q. td_answer c m q = Some (Fmi2StatusReply Status_Ok, q)" and "c \<noteq> cmd_fmi2Log" and "td_request_kind c = None"
    and "pb_utf8 m" and "length (ser m) \<le> 10000"
  shows "passes b u px (status_test (sendRetStatus (service_runtime u ser parse) px c m) ::
    (bool list, (test_driver, 'z) service_world_scheme) prog)"
proof (rule passesI)
  fix s :: "(test_driver, 'z) service_world_scheme"
  assume s: "test_begun b u px s"
  have "td_serves ser (peer s) c m (Fmi2StatusReply Status_Ok) (peer s)"
    using assms ser_ok_reply [OF protobuf_codec_axioms] by (simp add: td_serves_def pb_utf8_no_strings SharedFmiBufferSize_def)
  from service_call [OF s this assms(5)] s obtain t where
    "FmuProxy_send (service_runtime u ser parse) px c m s = Ret (Some (Fmi2StatusReply Status_Ok)) t" "test_done b u px t"
    by (auto simp: test_begun_def)
  then show "\<exists>bs t. status_test (sendRetStatus (service_runtime u ser parse) px c m) s = Ret bs t \<and>
      list_all id bs \<and> test_done b u px t"
    by (simp add: status_test_def sendRetStatus_def andThen_def)
qed

lemma value_passes:
  assumes "\<And>q. td_answer c m q = Some (r, q)" and "c \<noteq> cmd_fmi2Log" and "\<And>k. td_request_kind c = Some k \<Longrightarrow> kind_of m = k"
    and "pb_utf8 m" and "length (ser m) \<le> 10000" and "pb_utf8 r" and "length (ser r) \<le> 10000" and "content r = Some v"
  shows "passes b u px (value_test v (get_one (service_runtime u ser parse) px c m content old) ::
    (bool list, (test_driver, 'z) service_world_scheme) prog)"
proof (rule passesI)
  fix s :: "(test_driver, 'z) service_world_scheme"
  assume s: "test_begun b u px s"
  have "td_serves ser (peer s) c m r (peer s)"
    using assms by (simp add: td_serves_def SharedFmiBufferSize_def)
  from service_call [OF s this assms(5)] s obtain t where
    "FmuProxy_send (service_runtime u ser parse) px c m s = Ret (Some r) t" "test_done b u px t"
    by (auto simp: test_begun_def)
  then show "\<exists>bs t. value_test v (get_one (service_runtime u ser parse) px c m content old) s = Ret bs t \<and>
      list_all id bs \<and> test_done b u px t"
    using assms(8) by (simp add: value_test_def get_one_def andThen_def)
qed

text \<open>A set whose values a get returns, whatever the driver had.\<close>

lemma set_get_passes:
  assumes q: "\<And>q. driver_sane q \<Longrightarrow> \<exists>q'. driver_sane q' \<and>
      td_answer c (req ids vs) q = Some (Fmi2StatusReply Status_Ok, q') \<and>
      td_answer c' (Fmi2GetRequest ids (of_nat (length ids))) q' = Some (r, q')"
    and c: "c \<noteq> cmd_fmi2Log" "td_request_kind c = Some (kind_of (req ids vs))" "c' \<noteq> cmd_fmi2Log"
      "td_request_kind c' = Some K_GetRequest"
    and m: "pb_utf8 (req ids vs)" "length (ser (req ids vs)) \<le> 10000" "pb_utf8 r" "length (ser r) \<le> 10000"
      "length (ser (Fmi2GetRequest ids (of_nat (length ids)))) \<le> 10000"
    and v: "content r = Some (True, vs)" "length vs = length ids" "length out = length ids" "n = length ids"
  shows "passes b u px (set_get_test (service_runtime u ser parse) vs (set_values (service_runtime u ser parse) px c req ids n vs)
    (get_values (service_runtime u ser parse) px c' content ids n out) ::
    (bool list, (test_driver, 'z) service_world_scheme) prog)"
proof (rule passesI)
  fix s :: "(test_driver, 'z) service_world_scheme"
  assume s: "test_begun b u px s"
  let ?rt = "service_runtime u ser parse :: ((test_driver, 'z) service_world_scheme) runtime"
  from s q [of "peer s"] obtain q' where q': "driver_sane q'"
    "td_answer c (req ids vs) (peer s) = Some (Fmi2StatusReply Status_Ok, q')"
    "td_answer c' (Fmi2GetRequest ids (of_nat (length ids))) q' = Some (r, q')"
    by (auto simp: test_begun_def)
  have "td_serves ser (peer s) c (req ids vs) (Fmi2StatusReply Status_Ok) q'"
    using c m(1) q'(2) ser_ok_reply [OF protobuf_codec_axioms]
    by (simp add: td_serves_def pb_utf8_no_strings SharedFmiBufferSize_def)
  from service_call [OF s this m(2) q'(1)] obtain t where
    t: "FmuProxy_send ?rt px c (req ids vs) s = Ret (Some (Fmi2StatusReply Status_Ok)) t" "test_done b u px t" "peer t = q'"
    by blast
  let ?t = "t\<lparr>service := True\<rparr>"
  have reset: "resetServiceThread (rt_env ?rt) t = Ret () ?t" and t': "test_begun b u px ?t" "peer ?t = q'"
    using t by (simp_all add: resetServiceThread_def service_runtime_def service_start_def test_done_def test_begun_def)
  have "td_serves ser (peer ?t) c' (Fmi2GetRequest ids (of_nat (length ids))) r q'"
    using c m q'(3) t'(2) by (simp add: td_serves_def pb_utf8_no_strings SharedFmiBufferSize_def)
  from service_call [OF t'(1) this m(5) q'(1)] obtain w where
    w: "FmuProxy_send ?rt px c' (Fmi2GetRequest ids (of_nat (length ids))) ?t = Ret (Some r) w" "test_done b u px w" by blast
  have "set_values ?rt px c req ids n vs s = Ret px_OK t"
    using t(1) v get_prefix_all [of vs] by (simp add: set_values_def sendRetStatus_def andThen_def)
  moreover have "get_values ?rt px c' content ids n out ?t = Ret (px_OK, vs) w"
    using w(1) v by (simp add: get_values_def createGetRequest_def)
  moreover have "list_all id (map2 (=) vs vs)" by (induction vs) simp_all
  ultimately show "\<exists>bs t. set_get_test ?rt vs (set_values ?rt px c req ids n vs) (get_values ?rt px c' content ids n out) s =
      Ret bs t \<and> list_all id bs \<and> test_done b u px t"
    using w(2) reset by (simp add: set_get_test_def andThen_def)
qed

end

section \<open>Each test\<close>

abbreviation (input) wire_runtime :: "unix \<Rightarrow> ((test_driver, 'z) service_world_scheme) runtime" where
  "wire_runtime u \<equiv> service_runtime u wire_ser wire_parse"

lemma instantiate_passes:
  "passes b u px (andThen (FmuProxy_fmi2Instantiate (wire_runtime u) px ''my instance'' ''dcnkjvnrevirehvljkfnvf'' ''/tmp''
     ''localhost'' 1 1) (\<lambda>b. ret [b]) :: (bool list, (test_driver, 'z) service_world_scheme) prog)"
proof (rule passesI)
  fix s :: "(test_driver, 'z) service_world_scheme"
  assume s: "test_begun b u px s"
  let ?m = "Fmi2InstantiateRequest ''my instance'' ''dcnkjvnrevirehvljkfnvf'' ''/tmp'' True True ''localhost''"
  have m: "length (wire_ser ?m) \<le> 10000"
    by (simp add: wire_lengths enc_string_def)
  have "td_serves wire_ser (peer s) cmd_fmi2Instantiate ?m (Fmi2StatusReply Status_Ok) (peer s)"
    using ser_ok_reply [OF wire.protobuf_codec_axioms]
    by (simp add: td_serves_def pb_utf8_def between_def SharedFmiBufferSize_def)
  from wire.service_call [OF s this m] s obtain t where
    "FmuProxy_send (wire_runtime u) px cmd_fmi2Instantiate ?m s = Ret (Some (Fmi2StatusReply Status_Ok)) t"
    "test_done b u px t" by (auto simp: test_begun_def)
  then show "\<exists>bs t. andThen (FmuProxy_fmi2Instantiate (wire_runtime u) px ''my instance'' ''dcnkjvnrevirehvljkfnvf'' ''/tmp''
     ''localhost'' 1 1) (\<lambda>b. ret [b]) s = Ret bs t \<and> list_all id bs \<and> test_done b u px t"
    by (simp add: FmuProxy_fmi2Instantiate_def andThen_def c_str_def to_bool_def)
qed

lemma free_passes:
  "passes True u px (andThen (FmuProxy_fmi2FreeInstance (wire_runtime u) px) (\<lambda>_. ret []) ::
     (bool list, (test_driver, 'z) service_world_scheme) prog)"
proof (rule passesI)
  fix s :: "(test_driver, 'z) service_world_scheme"
  assume s: "test_begun True u px s"
  have empty: "wire_ser Fmi2Empty = []" using wire.ser_default [of K_Empty] by simp
  obtain m where m: "request_message cmd_fmi2FreeInstance (wire_ser Fmi2Empty) = Some m"
    using request_small(2) [of "wire_ser Fmi2Empty"] empty by auto
  have "td_serves wire_ser (peer s) cmd_fmi2FreeInstance Fmi2Empty Fmi2Empty (peer s)"
    using empty by (simp add: td_serves_def pb_utf8_no_strings)
  from td_handle_run [OF wire.protobuf_codec_axioms this request_message_Some [OF m]] obtain r where
    "td_handle wire_ser wire_parse m (peer s) = Ret r (peer s)" by blast
  from service_send [OF _ _ this, of True u "MEM_KEY u" "proxy_server px" 1] s obtain p t where
    "IpcServer_send (service_env u wire_ser wire_parse (MEM_KEY u)) (proxy_server px) m 1 s = Ret (Some p) t"
    "test_done True u px t"
    by (fastforce simp: test_begun_def test_done_def service_ready_def)
  then show "\<exists>bs t. andThen (FmuProxy_fmi2FreeInstance (wire_runtime u) px) (\<lambda>_. ret []) s = Ret bs t \<and>
      list_all id bs \<and> test_done True u px t"
    using m by (simp add: FmuProxy_fmi2FreeInstance_def andThen_def need_def service_runtime_def)
qed

lemma logging_passes:
  "passes b u px (status_test (FmuProxy_fmi2SetDebugLogging (wire_runtime u) px 1 3 [''all'', ''all+1'', ''all+2'']) ::
     (bool list, (test_driver, 'z) service_world_scheme) prog)"
proof -
  have "FmuProxy_fmi2SetDebugLogging (wire_runtime u) px 1 3 [''all'', ''all+1'', ''all+2''] =
      (sendRetStatus (wire_runtime u) px cmd_fmi2SetDebugLogging
        (Fmi2SetDebugLoggingRequest True 3 [''all'', ''all+1'', ''all+2'']) ::
        (proxy_status, (test_driver, 'z) service_world_scheme) prog)"
    by (simp add: FmuProxy_fmi2SetDebugLogging_def get_prefix_def fun_eq_iff andThen_def c_str_def to_bool_def)
  moreover have "passes b u px (status_test (sendRetStatus (wire_runtime u) px cmd_fmi2SetDebugLogging
        (Fmi2SetDebugLoggingRequest True 3 [''all'', ''all+1'', ''all+2''])) ::
        (bool list, (test_driver, 'z) service_world_scheme) prog)"
    by (rule wire.status_passes) (simp_all add: pb_utf8_def between_def wire_lengths enc_string_def)
  ultimately show ?thesis by simp
qed

lemma mode_passes:
  fixes ts :: "((bool list, (test_driver, 'z) service_world_scheme) prog) list"
  assumes "ts = proxy_tests_mode (wire_runtime u) px"
  shows "length ts = 7" and "passes True u px (ts ! 1)" and "list_all (passes b u px) (hd ts # drop 2 ts)"
proof -
  show "length ts = 7" using assms by (simp add: proxy_tests_mode_def)
  show "passes True u px (ts ! 1)" using assms by (simp add: proxy_tests_mode_def free_passes)
  have each: "passes b u px (status_test (FmuProxy_fmi2EnterInitializationMode (wire_runtime u) px) ::
      (bool list, (test_driver, 'z) service_world_scheme) prog)"
    "passes b u px (status_test (FmuProxy_fmi2ExitInitializationMode (wire_runtime u) px) ::
      (bool list, (test_driver, 'z) service_world_scheme) prog)"
    "passes b u px (status_test (FmuProxy_fmi2SetupExperiment (wire_runtime u) px 1 0x3FB999999999999A 0 1 0x3FF199999999999A) ::
      (bool list, (test_driver, 'z) service_world_scheme) prog)"
    "passes b u px (status_test (FmuProxy_fmi2Terminate (wire_runtime u) px) ::
      (bool list, (test_driver, 'z) service_world_scheme) prog)"
    unfolding FmuProxy_fmi2EnterInitializationMode_def FmuProxy_fmi2ExitInitializationMode_def
      FmuProxy_fmi2SetupExperiment_def FmuProxy_fmi2Terminate_def
    by (rule wire.status_passes; simp add: pb_utf8_no_strings wire_lengths to_bool_def)+
  show "list_all (passes b u px) (hd ts # drop 2 ts)"
    using assms by (simp add: proxy_tests_mode_def instantiate_passes logging_passes each)
qed

lemma status_tests_pass:
  "list_all (passes b u px) (proxy_tests_status (wire_runtime u) px ::
     ((bool list, (test_driver, 'z) service_world_scheme) prog) list)"
proof -
  have "passes b u px (status_test (FmuProxy_fmi2DoStep (wire_runtime u) px 0 0x3FB999999999999A 0) ::
      (bool list, (test_driver, 'z) service_world_scheme) prog)"
    unfolding FmuProxy_fmi2DoStep_def
    by (rule wire.status_passes; simp add: pb_utf8_no_strings wire_lengths to_bool_def)
  moreover have "passes b u px (status_test (sendRetStatus (wire_runtime u) px cmd_fmi2GetStatus (Fmi2StatusRequest 2)) ::
      (bool list, (test_driver, 'z) service_world_scheme) prog)"
    by (rule wire.status_passes; simp add: pb_utf8_no_strings wire_lengths to_bool_def)
  then have "passes b u px (value_test px_OK (FmuProxy_fmi2GetStatus (wire_runtime u) px px_LastSuccessfulTime px_Fatal) ::
      (bool list, (test_driver, 'z) service_world_scheme) prog)"
    by (fastforce simp: passes_def value_test_def status_test_def FmuProxy_fmi2GetStatus_def andThen_def
        split: outcome.splits)
  moreover have "passes b u px (value_test 0x4059200000000000 (FmuProxy_fmi2GetRealStatus (wire_runtime u) px px_LastSuccessfulTime 0) ::
      (bool list, (test_driver, 'z) service_world_scheme) prog)"
    unfolding FmuProxy_fmi2GetRealStatus_def createGetStatusRequest.simps
    by (rule wire.value_passes [where r = "Fmi2RealStatusReply 0x4059200000000000"])
      (simp_all add: pb_utf8_def between_def wire_lengths c_str_def enc_string_def)
  moreover have "passes b u px (value_test 100 (FmuProxy_fmi2GetIntegerStatus (wire_runtime u) px px_LastSuccessfulTime 0) ::
      (bool list, (test_driver, 'z) service_world_scheme) prog)"
    unfolding FmuProxy_fmi2GetIntegerStatus_def createGetStatusRequest.simps
    by (rule wire.value_passes [where r = "Fmi2IntegerStatusReply 100"])
      (simp_all add: pb_utf8_def between_def wire_lengths c_str_def enc_string_def)
  moreover have "passes b u px (value_test 1 (FmuProxy_fmi2GetBooleanStatus (wire_runtime u) px px_Terminated 0) ::
      (bool list, (test_driver, 'z) service_world_scheme) prog)"
    unfolding FmuProxy_fmi2GetBooleanStatus_def createGetStatusRequest.simps
    by (rule wire.value_passes [where r = "Fmi2BooleanStatusReply True"])
      (simp_all add: pb_utf8_def between_def wire_lengths of_bool_int_def)
  moreover have "passes b u px (value_test ''waiting'' (FmuProxy_fmi2GetStringStatus (wire_runtime u) px px_DoStepStatus []) ::
      (bool list, (test_driver, 'z) service_world_scheme) prog)"
    unfolding FmuProxy_fmi2GetStringStatus_def createGetStatusRequest.simps
    by (rule wire.value_passes [where r = "Fmi2StringStatusReply ''waiting''"])
      (simp_all add: pb_utf8_def between_def wire_lengths c_str_def enc_string_def)
  ultimately show ?thesis by (simp add: proxy_tests_status_def)
qed

text \<open>What the driver has after the three references were set.\<close>

lemma td_store_three: "length arr = TD_SIZE \<Longrightarrow> td_store [1, 2, 3] [a, b, c] arr = Some (arr[1 := a, 2 := b, 3 := c])"
  by (simp add: put_at_def TD_SIZE_def)

lemma td_fetch_three: "length arr = TD_SIZE \<Longrightarrow> td_fetch [1, 2, 3] arr = Some [arr ! 1, arr ! 2, arr ! 3]"
  by (simp add: get_at_def TD_SIZE_def)

lemmas test_data = driver_sane_def td_wf_def td_store_three td_fetch_three

lemma real_test_passes:
  "passes b u px (set_get_test (wire_runtime u) [0x3FF199999999999A, 0x400199999999999A, 0x400A666666666666]
     (FmuProxy_fmi2SetReal (wire_runtime u) px [1, 2, 3] 3 [0x3FF199999999999A, 0x400199999999999A, 0x400A666666666666])
     (FmuProxy_fmi2GetReal (wire_runtime u) px [1, 2, 3] 3 [0, 0, 0]) ::
     (bool list, (test_driver, 'z) service_world_scheme) prog)"
  unfolding FmuProxy_fmi2SetReal_def FmuProxy_fmi2GetReal_def
  by (rule wire.set_get_passes [where r = "Fmi2GetRealReply [0x3FF199999999999A, 0x400199999999999A, 0x400A666666666666]"])
    (auto simp: test_data TD_SIZE_def pb_utf8_no_strings wire_lengths simp del: td_store.simps td_fetch.simps)

lemma boolean_test_passes:
  "passes b u px (set_get_test (wire_runtime u) [1, 0, 1] (FmuProxy_fmi2SetBoolean (wire_runtime u) px [1, 2, 3] 3 [1, 0, 1])
     (FmuProxy_fmi2GetBoolean (wire_runtime u) px [1, 2, 3] 3 [0, 0, 0]) ::
     (bool list, (test_driver, 'z) service_world_scheme) prog)"
  unfolding FmuProxy_fmi2SetBoolean_def FmuProxy_fmi2GetBoolean_def
  by (rule wire.set_get_passes [where r = "Fmi2GetBooleanReply [True, False, True]"])
    (auto simp: test_data TD_SIZE_def pb_utf8_no_strings wire_lengths to_bool_def of_bool_int_def
      simp del: td_store.simps td_fetch.simps)

lemma integer_test_passes:
  "passes b u px (set_get_test (wire_runtime u) [1, 0, 1] (FmuProxy_fmi2SetInteger (wire_runtime u) px [1, 2, 3] 3 [1, 0, 1])
     (FmuProxy_fmi2GetInteger (wire_runtime u) px [1, 2, 3] 3 [0, 0, 0]) ::
     (bool list, (test_driver, 'z) service_world_scheme) prog)"
  unfolding FmuProxy_fmi2SetInteger_def FmuProxy_fmi2GetInteger_def
  by (rule wire.set_get_passes [where r = "Fmi2GetIntegerReply [1, 0, 1]"])
    (auto simp: test_data TD_SIZE_def pb_utf8_no_strings wire_lengths simp del: td_store.simps td_fetch.simps)

lemma test_texts_facts: "map c_str test_texts = test_texts" "list_all utf8 test_texts" "utf8 (test_texts ! 0)"
    "length (test_texts ! 0) = 14"
  by (simp_all add: test_texts_def c_str_def between_def)

lemma string_test_passes:
  "passes b u px (set_get_test (wire_runtime u) test_texts (FmuProxy_fmi2SetString (wire_runtime u) px [1, 2, 3] 3 test_texts)
     (FmuProxy_fmi2GetString (wire_runtime u) px [1, 2, 3] 3 [[], [], []]) ::
     (bool list, (test_driver, 'z) service_world_scheme) prog)"
  unfolding FmuProxy_fmi2SetString_def FmuProxy_fmi2GetString_def
proof (rule wire.set_get_passes [where r = "Fmi2GetStringReply test_texts True"])
  fix q assume q: "driver_sane q"
  let ?q = "q\<lparr>strings := (strings q)[1 := test_texts ! 0, 2 := test_texts ! 1, 3 := test_texts ! 2]\<rparr>"
  have "td_store [1, 2, 3] test_texts (strings q) = Some (strings ?q)"
    using q by (simp add: driver_sane_def td_wf_def td_store_three test_texts_def del: td_store.simps)
  moreover have "td_fetch [1, 2, 3] (strings ?q) = Some test_texts"
    using q by (simp add: driver_sane_def td_wf_def td_fetch_three TD_SIZE_def test_texts_def del: td_fetch.simps)
  moreover have "driver_sane ?q"
    using q by (simp add: driver_sane_def td_wf_def TD_SIZE_def test_texts_facts)
  ultimately show "\<exists>q'. driver_sane q' \<and>
      td_answer cmd_fmi2SetString (Fmi2SetStringRequest [1, 2, 3] (map c_str test_texts)) q =
        Some (Fmi2StatusReply Status_Ok, q') \<and>
      td_answer cmd_fmi2GetString (Fmi2GetRequest [1, 2, 3] (of_nat (length [1 :: c_int, 2, 3]))) q' =
        Some (Fmi2GetStringReply test_texts True, q')"
    by (intro exI [of _ ?q]) (simp add: test_texts_facts del: td_store.simps td_fetch.simps)
qed (simp_all add: test_texts_facts pb_utf8_def, simp_all add: test_texts_def wire_lengths enc_string_def)

text \<open>The request with the long string is refused by the proxy; the thread is still there for the get.\<close>

lemma overflow_length:
  "10000 < length (wire_ser (Fmi2SetStringRequest [1] [overflow_text]))"
  "length (wire_ser (Fmi2SetStringRequest [1] [overflow_text])) < 11000"
  by (simp_all add: wire_lengths overflow_text_def enc_string_def SharedFmiBufferSize_def del: replicate.simps)

lemma overflow_refused: "\<not> request_fits (wire_ser (Fmi2SetStringRequest [1] [overflow_text]))"
  using overflow_length request_fits_iff [of "wire_ser (Fmi2SetStringRequest [1] [overflow_text])"] by simp

lemma enc_varint_short: "n < 16384 \<Longrightarrow> length (enc_varint n) \<le> 2"
  by (auto simp: enc_varint.simps [of n] enc_varint.simps [of "n div 128"])

lemma reply_length: "length s \<le> 9000 \<Longrightarrow> length (wire_ser (Fmi2GetStringReply [s] True)) \<le> 10000"
  using enc_varint_short [of "length s"]
  by (simp add: wire_ser_def enc_fields_def wire_puts enc_string_def enc_bool_simps enc_varint.simps [of 1]
      enc_varint.simps [of "Suc 0"] enc_varint.simps [of 8] enc_varint.simps [of 10] enc_varint.simps [of 16])

lemma overflow_test_passes:
  "passes b u px (andThen (FmuProxy_fmi2SetString (wire_runtime u) px [1, 2, 3] 1 [overflow_text]) (\<lambda>st.
     andThen (FmuProxy_fmi2GetString (wire_runtime u) px [1, 2, 3] 1 [[]]) (\<lambda>(st', _).
       ret [st = px_Fatal, st' = px_OK])) :: (bool list, (test_driver, 'z) service_world_scheme) prog)"
proof (rule passesI)
  fix s :: "(test_driver, 'z) service_world_scheme"
  assume s: "test_begun b u px s"
  have "c_str overflow_text = overflow_text" by (rule c_str_id) (simp add: overflow_text_def)
  then have set_run: "FmuProxy_fmi2SetString (wire_runtime u) px [1, 2, 3] 1 [overflow_text] s = Ret px_Fatal s"
    using overflow_refused
    by (simp add: FmuProxy_fmi2SetString_def set_values_def get_prefix_def sendRetStatus_def FmuProxy_send_def rpc_def
        service_runtime_def andThen_def)
  let ?m = "Fmi2GetRequest [1] 1" and ?r = "Fmi2GetStringReply [strings (peer s) ! 1] True"
  have sane: "driver_sane (peer s)" using s by (simp add: test_begun_def)
  have "td_serves wire_ser (peer s) cmd_fmi2GetString ?m ?r (peer s)"
    using sane reply_length [of "strings (peer s) ! 1"]
    by (simp add: td_serves_def driver_sane_def td_wf_def TD_SIZE_def get_at_def pb_utf8_def SharedFmiBufferSize_def)
  from wire.service_call [OF s this _ sane] obtain t where
    "FmuProxy_send (wire_runtime u) px cmd_fmi2GetString ?m s = Ret (Some ?r) t" "test_done b u px t"
    by (auto simp: wire_lengths)
  then show "\<exists>bs t. andThen (FmuProxy_fmi2SetString (wire_runtime u) px [1, 2, 3] 1 [overflow_text]) (\<lambda>st.
     andThen (FmuProxy_fmi2GetString (wire_runtime u) px [1, 2, 3] 1 [[]]) (\<lambda>(st', _). ret [st = px_Fatal, st' = px_OK])) s =
      Ret bs t \<and> list_all id bs \<and> test_done b u px t"
    using set_run
    by (simp add: andThen_def FmuProxy_fmi2GetString_def get_values_def createGetRequest_def get_prefix_def put_prefix_def
        need_def)
qed

lemma data_passes:
  "list_all (passes b u px) (proxy_tests_data (wire_runtime u) px ::
     ((bool list, (test_driver, 'z) service_world_scheme) prog) list)"
  using real_test_passes [of b u px] boolean_test_passes [of b u px] integer_test_passes [of b u px] string_test_passes [of b u px]
    overflow_test_passes [of b u px]
  by (simp add: proxy_tests_data_def)

text \<open>All of them if the thread is prompt, and otherwise all but the one of \<open>fmi2FreeInstance\<close>.\<close>

lemma proxy_tests_pass_each:
  assumes "i < 18" and "b \<or> i \<noteq> 1"
  shows "passes b u px (FmuProxy_Tests (wire_runtime u) px ! i :: (bool list, (test_driver, 'z) service_world_scheme) prog)"
proof -
  let ?m = "proxy_tests_mode (wire_runtime u) px :: ((bool list, (test_driver, 'z) service_world_scheme) prog) list"
  let ?d = "proxy_tests_data (wire_runtime u) px @ proxy_tests_status (wire_runtime u) px ::
    ((bool list, (test_driver, 'z) service_world_scheme) prog) list"
  note m = mode_passes [where ?'z = 'z and u = u and px = px, OF refl]
  have d: "length ?d = 11" "list_all (passes b u px) ?d"
    using data_passes [of b u px] status_tests_pass [of b u px]
    by (simp_all only: list_all_append) (simp_all add: proxy_tests_data_def proxy_tests_status_def)
  show ?thesis
  proof (cases "i < 7")
    case True
    consider "i = 0" | "i = 1" | j where "i = Suc (Suc j)" by (metis One_nat_def not0_implies_Suc)
    then have "passes b u px (?m ! i)"
    proof cases
      case 1
      then show ?thesis using m(1) m(3) [where b = b] by (cases ?m) simp_all
    next
      case 2
      then show ?thesis using m(2) assms(2) by auto
    next
      case 3
      have "list_all (passes b u px) (drop 2 ?m)" using m(3) [where b = b] by simp
      with 3 m(1) True have "passes b u px (drop 2 ?m ! j)" by (simp add: list_all_length)
      with 3 m(1) True show ?thesis by (simp add: nth_drop)
    qed
    with m(1) True show ?thesis by (simp add: FmuProxy_Tests_def nth_append)
  next
    case False
    then show ?thesis using m(1) d assms(1) by (simp add: FmuProxy_Tests_def nth_append list_all_length del: length_append)
  qed
qed

section \<open>The fixture around them\<close>

text \<open>Between two tests.\<close>

definition suite_ready :: "bool \<Rightarrow> unix \<Rightarrow> (test_driver, 'z) service_world_scheme \<Rightarrow> bool" where
  "suite_ready b u s \<longleftrightarrow> system_willing u (MEM_KEY u) s \<and> prompt s = b \<and> \<not> service s \<and> driver_sane (peer s)"

lemma more_service:
  fixes s t :: "('p, 'z) service_world_scheme"
  assumes "os.more t = os.more s"
  shows "peer t = peer s" and "service t = service s" and "late t = late s"
  using assms by (cases s; cases t; simp)+

lemma setup_run:
  fixes s :: "(test_driver, 'z) service_world_scheme"
  assumes s: "suite_ready b u s"
  shows "\<exists>px t h. proxy_SetUp u s = Ret (True, px) t \<and> test_begun b u px t \<and>
    (\<forall>w :: (test_driver, 'z) service_world_scheme. FmuProxy_delete u px w =
       Ret () (shm_unlink (getMappedName u SHARED_MEM_BASE_NAME (MEM_KEY u)) (close_fd h w)))"
proof -
  let ?px = "FmuProxy_new 0 (MEM_KEY u)" and ?srv0 = "enableConsoleDebug (IpcServer_new 0 (MEM_KEY u))"
  have key: "c_str (MEM_KEY u) = MEM_KEY u" by (cases u) (simp_all add: c_str_def)
  have name: "m_name ?srv0 = MEM_KEY u" by (simp add: IpcServer_new_def IpcBase_new_def IpcBase.defs enableConsoleDebug_def)
  from s have w: "os_wf s" "\<And>op. \<not> refuse s op" "signal_names_distinct u (MEM_KEY u)"
    by (simp_all add: suite_ready_def system_willing_def)
  obtain ok srv t where c0: "IpcServer_create u ?srv0 s = (ok, srv, t)" by (metis prod_cases3)
  have ok: "ok" and fresh: "server_fresh u (MEM_KEY u) srv t" using created_fresh [OF w name c0] by blast+
  then have c: "IpcServer_create u ?srv0 s = (True, srv, t)" using c0 by simp
  have "proxy_SetUp u s = Ret (True, ?px\<lparr>proxy_server := srv\<rparr>) (t\<lparr>service := True\<rparr>)"
    using c by (simp add: proxy_SetUp_def FmuProxy_new_def FmuProxy_getChannel_def FmuProxy_initialize_def key service_start_def
        andThen_def)
  moreover have "test_begun b u (?px\<lparr>proxy_server := srv\<rparr>) (t\<lparr>service := True\<rparr>)"
    using s fresh clock_create [OF c] more_service [OF more_create [OF c]]
    by (simp add: test_begun_def suite_ready_def) (simp add: service_ready_def prompt_def)
  moreover have "FmuProxy_delete u (?px\<lparr>proxy_server := srv\<rparr>) w =
      Ret () (shm_unlink (getMappedName u SHARED_MEM_BASE_NAME (MEM_KEY u)) (close_fd (m_hMapFile srv) w))"
    for w :: "(test_driver, 'z) service_world_scheme"
    using IpcServer_create_done(2) [OF w(1) _ c, unfolded name, OF w(3), of w] by (simp add: FmuProxy_delete_def)
  ultimately show ?thesis by blast
qed

lemma proxy_test_run:
  fixes s :: "(test_driver, 'z) service_world_scheme"
  assumes s: "suite_ready b u s" and i: "i < 18" "b \<or> i \<noteq> 1"
  shows "\<exists>bs t. run_proxy_test u wire_ser wire_parse i s = Ret bs t \<and> bs \<noteq> [] \<and> list_all id bs \<and> suite_ready b u t \<and>
    shm_names t (getMappedName u SHARED_MEM_BASE_NAME (MEM_KEY u)) = None"
proof -
  let ?n = "getMappedName u SHARED_MEM_BASE_NAME (MEM_KEY u)"
  from setup_run [OF s] obtain px s1 h where up: "proxy_SetUp u s = Ret (True, px) s1" and begun: "test_begun b u px s1"
    and del: "\<And>w :: (test_driver, 'z) service_world_scheme. FmuProxy_delete u px w = Ret () (shm_unlink ?n (close_fd h w))"
    by blast
  from proxy_tests_pass_each [OF i, of u px] begun obtain bs s2 where
    run: "(FmuProxy_Tests (wire_runtime u) px ! i) s1 = Ret bs s2" and bs: "list_all id bs" and fin: "test_done b u px s2"
    by (auto simp: passes_def)
  let ?t = "shm_unlink ?n (close_fd h s2)"
  have "service ?t = service s2" "peer ?t = peer s2" "clock ?t = clock s2" "late ?t = late s2" "refuse ?t = refuse s2" "os_wf s2 \<Longrightarrow> os_wf ?t"
    "shm_names ?t ?n = None"
    by (simp_all add: shm_unlink_def close_fd_def os_wf_def)
  then have "service_join (rt_env (wire_runtime u)) ?t = Ret () ?t" "suite_ready b u ?t" "shm_names ?t ?n = None"
    using fin s by (simp_all add: service_runtime_def test_done_def suite_ready_def system_willing_def service_ready_def
        server_fresh_def prompt_def)
  moreover from this(1) have "run_proxy_test u wire_ser wire_parse i s = Ret (True # bs) ?t"
    using up run del by (simp add: run_proxy_test_def proxy_TearDown_def andThen_def)
  ultimately show ?thesis using bs by auto
qed

text \<open>
  With a thread that is not prompt the test of \<open>fmi2FreeInstance\<close> does not end: the call gives up,
  deleting the proxy takes the name of the memory away, and the thread, for which the tear down then
  waits, can never connect.
\<close>

lemma service_nameless:
  fixes s :: "(test_driver, 'z) service_world_scheme"
  assumes "os_wf s" and "service s" and "shm_names s (getMappedName u SHARED_MEM_BASE_NAME key) = None"
  shows "service_join (service_env u ser parse key) s = Blocks"
proof -
  have "\<not> connectable u key s" using assms(3) by (simp add: connectable_def)
  then have "\<nexists>cl t. td_connect u (\<lambda>_ s. s) key 1 s = Ret (Some cl) t"
    and fine: "td_connect u (\<lambda>_ s. s) key 1 s \<noteq> Blocks" "\<forall>e. td_connect u (\<lambda>_ s. s) key 1 s \<noteq> Fault e"
    using driver_connects_iff [OF assms(1), of "\<lambda>_ s. s" u key 1] by auto
  then obtain t where "td_connect u (\<lambda>_ s. s) key 1 s = Ret None t"
    by (metis not_Some_eq outcome.exhaust)
  then have "remoteTestDriverSingle u ser parse (\<lambda>_ s. s) key 1 s = Ret False t"
    by (simp add: remoteTestDriverSingle_def remoteTestDriver_def andThen_def)
  then have "service (service_env u ser parse key None s)" using assms(2) by (simp add: service_env_def)
  then show ?thesis by (simp add: service_join_def)
qed

lemma free_test_hangs:
  fixes s :: "(test_driver, 'z) service_world_scheme"
  assumes s: "suite_ready False u s"
  shows "run_proxy_test u wire_ser wire_parse 1 s = Blocks"
proof -
  let ?n = "getMappedName u SHARED_MEM_BASE_NAME (MEM_KEY u)"
  from setup_run [OF s] obtain px s1 h where up: "proxy_SetUp u s = Ret (True, px) s1" and begun: "test_begun False u px s1"
    and del: "\<And>w :: (test_driver, 'z) service_world_scheme. FmuProxy_delete u px w = Ret () (shm_unlink ?n (close_fd h w))"
    by blast
  obtain m where m: "request_message cmd_fmi2FreeInstance (wire_ser Fmi2Empty) = Some m"
    using request_small(2) [of "wire_ser Fmi2Empty"] wire.ser_default [of K_Empty] by auto
  from service_missed [of u "MEM_KEY u" "proxy_server px" s1 wire_ser wire_parse m] begun obtain p a where
    "IpcServer_send (service_env u wire_ser wire_parse (MEM_KEY u)) (proxy_server px) m 1 s1 = Ret None (sent_state p a m s1)"
    by (auto simp: test_begun_def)
  then have free: "FmuProxy_fmi2FreeInstance (wire_runtime u) px s1 = Ret () (sent_state p a m s1)"
    using m by (simp add: FmuProxy_fmi2FreeInstance_def andThen_def need_def service_runtime_def)
  let ?t = "shm_unlink ?n (close_fd h (sent_state p a m s1))"
  have "os_wf (sent_state p a m s1)" "service ?t" "shm_names ?t ?n = None"
    using begun by (simp_all add: test_begun_def service_ready_def server_fresh_def shm_unlink_def close_fd_def)
      (simp add: sent_state_def)
  then have "service_join (service_env u wire_ser wire_parse (MEM_KEY u)) ?t = Blocks"
    by (intro service_nameless) (simp_all add: shm_unlink_def close_fd_def os_wf_def)
  with up free del show ?thesis
    by (simp add: run_proxy_test_def proxy_TearDown_def andThen_def FmuProxy_Tests_def proxy_tests_mode_def service_runtime_def)
qed

text \<open>
  C18: The eighteen tests of the proxy, in any order and any number of times in one process, on a
  system that refuses nothing, with protobuf's wire format and a service thread that answers
  whenever the test waits without a deadline. The one call with a deadline is \<open>fmi2FreeInstance\<close> (a
  millisecond), in test number 1. If the thread is prompt, that is, answers within it, and the
  clock's nanoseconds leave room for it, or if that test is not among those run, every test returns
  with all its expectations true, the fixture's included; each leaves the thread ended and the name
  of its memory gone, and the next finds the values. If the thread has not even connected by the
  deadline, the run never returns: that test hangs in its tear down.
\<close>

theorem proxy_tests_pass:
  fixes s :: "(test_driver, 'z) service_world_scheme"
  assumes "suite_ready b u s" and "list_all (\<lambda>i. i < 18) is"
  shows "if b \<or> 1 \<notin> set is
    then \<exists>bs t. run_proxy_tests u wire_ser wire_parse is s = Ret bs t \<and> list_all id bs \<and> length is \<le> length bs \<and>
      suite_ready b u t \<and> (is \<noteq> [] \<longrightarrow> shm_names t (getMappedName u SHARED_MEM_BASE_NAME (MEM_KEY u)) = None)
    else run_proxy_tests u wire_ser wire_parse is s = Blocks"
  using assms
proof (induction "is" arbitrary: s)
  case (Cons i "is")
  from Cons.prems have s: "suite_ready b u s" "i < 18" and rest: "list_all (\<lambda>i. i < 18) is" by simp_all
  show ?case
  proof (cases "b \<or> i \<noteq> 1")
    case True
    from proxy_test_run [OF s True] obtain bs t where
      t: "run_proxy_test u wire_ser wire_parse i s = Ret bs t" "0 < length bs" "list_all id bs" "suite_ready b u t"
        "shm_names t (getMappedName u SHARED_MEM_BASE_NAME (MEM_KEY u)) = None" by blast
    show ?thesis
    proof (cases "b \<or> 1 \<notin> set is")
      case more: True
      with Cons.IH [OF t(4) rest] obtain bs' t' where t': "run_proxy_tests u wire_ser wire_parse is t = Ret bs' t'"
        "list_all id bs'" "length is \<le> length bs'" "suite_ready b u t'"
        "is \<noteq> [] \<longrightarrow> shm_names t' (getMappedName u SHARED_MEM_BASE_NAME (MEM_KEY u)) = None" by auto
      have "run_proxy_tests u wire_ser wire_parse (i # is) s = Ret (bs @ bs') t'"
        using t(1) t'(1) by (simp add: andThen_def)
      moreover have "shm_names t' (getMappedName u SHARED_MEM_BASE_NAME (MEM_KEY u)) = None"
        using t(5) t'(1,5) by (cases "is") simp_all
      moreover obtain b0 bs0 where "bs = b0 # bs0" using t(2) by (cases bs) simp_all
      ultimately have body: "\<exists>bs t. run_proxy_tests u wire_ser wire_parse (i # is) s = Ret bs t \<and> list_all id bs \<and>
          length (i # is) \<le> length bs \<and> suite_ready b u t \<and>
          shm_names t (getMappedName u SHARED_MEM_BASE_NAME (MEM_KEY u)) = None"
        using t(3) t'(2-4) by (intro exI [of _ "bs @ bs'"] exI [of _ t']) (simp add: id_def)
      have c: "b \<or> 1 \<notin> set (i # is)" using True more by auto
      show ?thesis by (subst if_P [OF c]) (use body in blast)
    next
      case False
      with Cons.IH [OF t(4) rest] t(1) have "run_proxy_tests u wire_ser wire_parse (i # is) s = Blocks"
        by (simp add: andThen_def)
      with False show ?thesis by simp
    qed
  next
    case False
    then have "\<not> b" "i = 1" by simp_all
    with free_test_hangs [of u s] s(1) show ?thesis by (simp add: andThen_def)
  qed
qed simp

text \<open>The whole suite twice, in the order of the file, in the initial system.\<close>

definition ex_suite :: "test_driver service_world" where
  "ex_suite = world.extend (os.extend os_init (world.fields test_driver_init)) (service_world.fields False False)"

lemma ex_suite_ready: "suite_ready True Linux ex_suite"
  by (simp add: suite_ready_def prompt_def ex_suite_def system_willing_def signal_names_distinct_Linux world.defs os.defs
      service_world.defs os_init_def os_wf_def deadline_valid_def deadline_def driver_sane_def test_driver_init_def TD_SIZE_def td_wf_def)

theorem proxy_tests_pass_witness:
  "\<exists>bs t. run_proxy_tests Linux wire_ser wire_parse ([0..<18] @ [0..<18]) ex_suite = Ret bs t \<and> list_all id bs \<and>
    36 \<le> length bs"
proof -
  have "list_all (\<lambda>i. i < 18) ([0..<18] @ [0..<18])" by (simp add: list_all_iff)
  from proxy_tests_pass [OF ex_suite_ready this] show ?thesis by auto
qed

end
