(* ===== verification/Spec2Isabelle.thy ===== *)
theory Spec2Isabelle
  imports WinChannel SemTimedwait JniPeer InstanceThreads ManyInstances FmuTests UnitTests FmuProxyTests
begin

text \<open>
  A model of the native half of shm-fmi: an FMI 2.0 co-simulation library whose implementation
  runs in another process. A simulator loads \<open>libshmfmu\<close> and calls the FMI functions; each call is
  packed into a protobuf message, copied into a shared memory buffer, handed over with a pair of
  POSIX semaphores, and answered by the remote process (a Java program, or the C++ test driver).

  1. The parts, bottom up, and the theory of each.

  - \<open>ShmPrelude\<close>: the machine types (\<open>c_int\<close>, \<open>c_double\<close> as its 64 bits, \<open>byte\<close>); programs as state
    transformers into \<open>outcome\<close>: \<open>Ret\<close> with a value and a state, \<open>Fault\<close> for undefined behaviour and
    signals (null pointer, array bound, bus error, use of freed memory), \<open>Blocks\<close> for a call that
    never returns. Array access with bounds, C strings, and the frame predicate \<open>keeps\<close> with its
    rules.
  - \<open>SharedFmiMessage\<close> (\<open>libshmipc/SharedFmiMessage.h\<close>): commands, message, shared region.
  - \<open>Posix\<close>: the calls of the operating system the program makes (\<open>shm_open\<close>, \<open>ftruncate\<close>, \<open>mmap\<close>,
    \<open>sem_open\<close>, \<open>sem_post\<close>, \<open>sem_wait\<close>, \<open>sem_timedwait\<close>, the unlink calls), over a state with
    objects, names, descriptors and semaphore values. What the system may refuse is a field of the
    state, how many passes the watch-dog thread of a new server makes before anything else happens
    (\<open>thread_lead\<close>) another; what others do while a thread waits is the argument \<open>env\<close>.
  - \<open>IpcBase\<close>, \<open>IpcServer\<close>, \<open>IpcClient\<close> (the files of these names under \<open>libshmipc\<close>): the two ends of
    a channel, every method. Fields keep the names of the code.
  - \<open>Rendezvous\<close>: what \<open>create\<close>, \<open>connect\<close> and the destructors do to the system's names, alone and
    after one another.
  - \<open>Channel\<close>: the protocol of \<open>IpcServer::send\<close> against \<open>getMessage\<close> and \<open>sendReply\<close>, at the grain
    of single semaphore operations and buffer accesses, as the step relation \<open>chan_step\<close>; and the same
    exchange as one call (\<open>exchange\<close>), with the interface \<open>request_reply\<close> that the layers above use.
    \<open>ChannelRefinement\<close> gives the abstract specification, a peer that answers in one atomic step, and
    the refinement mapping from the interleaved threads to it.
  - \<open>Win32\<close>, \<open>WinIpc\<close>, \<open>WinRendezvous\<close>, \<open>WinChannel\<close>: the same files of \<open>libshmipc\<close> in their Windows
    branches, over the calls of that system (named file mappings, auto-reset events, handles); what
    the two ends do to its names; and the protocol over events, related to \<open>chan_step\<close>.
  - \<open>Proto\<close> (\<open>libshmfmi/service.proto\<close>): the messages, their kinds, default values, and
    \<open>protobuf_codec\<close>, the documented behaviour of the protobuf runtime the code relies on: a parsed
    message is the serialised one, the empty message serialises to nothing, and conversely parsing
    nothing gives the defaults. The runtime itself is not under \<open>src\<close>. \<open>Wire\<close> shows that the laws can
    be met: the published wire format for these messages, with the proof that it is such a codec.
  - \<open>FmuProxy\<close> (\<open>libshmfmi/FmuProxy.cpp\<close>): the FMI calls as messages, every method.
    \<open>ProxyProperties\<close> states what they do for arbitrary peers.
  - \<open>RemoteTestDriver\<close> (\<open>testlibshmfmi/RemoteTestDriver.cpp\<close>): the peer of the repository's tests, the
    only one in C++; the calls of the proxy against it, end to end.
  - \<open>Uri\<close> (\<open>libshmfmu/uri.c\<close>): percent decoding of the resource location, with every array access,
    and its lengths as the code has them, unsigned ints that wrap at \<open>2 ^ 32\<close>.
  - \<open>Launch\<close> (\<open>ConfigFile.cpp\<close>, \<open>JavaLauncher.cpp\<close>): the file that says how to start the remote process,
    and starting it.
  - \<open>Fmu\<close> (\<open>libshmfmu/fmu.cpp\<close>, \<open>FmuContainer.cpp\<close>): the exported FMI functions, the registry of
    instances, instantiation, the callback thread. \<open>FmuProperties\<close> states what they guarantee.
  - \<open>SemTimedwait\<close> (\<open>libshmipc/sem_timedwait.cpp\<close>): the polling replacement of \<open>sem_timedwait\<close> on macOS.
  - \<open>IpcMain\<close> (\<open>libshmipc/ipcmain.cpp\<close>): the command line tool, as server and as client.
  - \<open>JniPeer\<close> (\<open>sharedmemory.cpp\<close> and \<open>sharedmemoryserver.cpp\<close> under \<open>shmfmi-server/src/main/native\<close>):
    the native methods through which the Java program reads requests, answers them and sends its log;
    that program (\<open>ProtocolDriver.java\<close>) is a parameter, any function of the bytes it reads and of its own
    state, which may answer or not.
  - \<open>IntegrationDriver\<close> (\<open>testfmu-integration/RemoteTestDriver.cpp\<close>, \<open>runner/testrunner.cpp\<close>): the process
    the integration tests launch in the Java program's place.
  - \<open>FmuLoader\<close> (\<open>testfmu-integration/fmu-loader.c\<close>, \<open>include/fmi2.h\<close> and the FMI headers): the tables of
    names, types and struct members, and \<open>loadDll\<close> over them.
  - \<open>TestHarness\<close> (\<open>FMULoadHelper.h\<close>, \<open>FMU_TestsFixture.h\<close>, \<open>fmuLogger.c\<close>, \<open>resource_location.cpp\<close>): what the
    integration tests do with all of the above.
  - \<open>InstanceThreads\<close> (\<open>fmu.cpp\<close> again): the callback thread of an instance and the thread that frees it,
    interleaved between any two of their accesses to the container.
  - \<open>LaunchedTool\<close>: the process at the other end from its start, before it has connected; it connects
    when it first gets to run and then answers, as the runner does. \<open>FmuStore\<close> and \<open>FmuQueries\<close>: the
    calls of a simulation as calls on a store of values, which is the abstract specification of the
    library with the integration driver behind it, in whatever way the driver is reached. \<open>Session\<close>: a simulation from \<open>fmi2Instantiate\<close>, which
    launches that process, to \<open>fmi2FreeInstance\<close>.
  - \<open>ManyChannels\<close>: any number of channels in one system, opened one after another by
    \<open>IpcServer::create\<close> and \<open>IpcClient::connect\<close>, each with its own process, and requests on them in
    any order. \<open>ManyInstances\<close>: a simulator that creates several instances and calls them in any
    order, each with the driver that was launched for it.
  - \<open>FmuTests\<close> (\<open>FMU_Tests.cpp\<close>, \<open>LibraryLoad_Tests.cpp\<close>): the integration tests, test by test. \<open>UnitTests\<close>
    (\<open>FmiIpc_Tests.cpp\<close>, \<open>URI_Tests.cpp\<close>, \<open>ConfigFile_Tests.cpp\<close>, \<open>JavaLauncher_Tests.cpp\<close>) and
    \<open>FmuProxyTests\<close> (\<open>FmuProxy_Tests.cpp\<close>, \<open>FmuProxyTest.h\<close>): those of the layers below.

  2. The interfaces. \<open>request_reply\<close> says what a layer may assume of one request: on a
  resting channel a call returns the peer's answer, moves the peer as its handler does, and leaves
  the channel at rest. It is interpreted on \<open>IpcServer::send\<close> against a client that
  runs \<open>getMessage\<close>, the handler and \<open>sendReply\<close> (\<open>ipc\<close>, in
  \<open>Channel\<close>), and on the Windows ends (\<open>win_ipc\<close>, in \<open>WinChannel\<close>). \<open>typed_peer\<close>
  extends it and \<open>protobuf_codec\<close> to typed messages, and \<open>proxy_peer\<close> fixes a proxy at the
  calling end. \<open>tool_ipc\<close> is the first contract for a process that has yet to connect. Three peers
  provide \<open>proxy_peer\<close> for every codec, each by a \<open>sublocale\<close>: the test driver (also as the service thread of
  the proxy's tests, which answers once and ends), the integration
  driver, and a Java program behind the native methods that keeps the contract \<open>java_serves\<close> (what holds
  for any other is stated in \<open>JniPeer\<close> without that contract). \<open>driver_peer\<close> is what the functions of an instance may assume of the driver behind
  it: that its server is answered, in states that the library's own data do not affect. The calls and
  the instantiation are proved over it, once, for the one process of a simulation (\<open>tool\<close>, in
  \<open>FmuQueries\<close>) and for one of several (\<open>farm\<close>, in \<open>ManyInstances\<close>). \<open>refinement_mapping\<close>, interpreted on the two threads of a
  channel and on the Windows channel, carries runs and their invariants from a specification to its
  implementation. What a proxy's method returns is proved once, for all. \<open>call_refinement\<close> relates an
  implementation and a specification call by call and yields it for lists of calls; it is interpreted
  on the FMI functions and the store, on the calls of several channels, and on a simulator's
  instantiations and calls of several instances.

  3. What the lemmas show. In \<open>Rendezvous\<close>, when creating and connecting succeed, that
  the two ends then share a mapping and three distinct semaphores, that channels under different
  keys do not disturb each other and when they do, and what a failed attempt destroys. In
  \<open>Channel\<close>, by an invariant over all interleavings: replies answer their own requests
  in order, exclusive access to the buffer, and an exact bound of eight steps for each message with
  progress until then; that the threads refine atomic request and reply; and that a finite timeout
  breaks all that. In the theories for Windows: that the two ends meet and leave nothing behind,
  what a server inherits from its predecessor, and that without timeouts events do what the
  semaphores do. In \<open>FmuProxy\<close> to \<open>RemoteTestDriver\<close>: the guard against
  too large requests and the sizes it misses, that no reply is read as an object of
  another class, the status codes, how far the proxy trusts what it is sent, and that what is set is
  what is read back, for each type. In \<open>Uri\<close>: for which inputs the
  conversion is memory safe, and that it inverts percent encoding. In \<open>FmuProperties\<close>:
  the registry's invariant, that every lookup that succeeds finds a live container, and what each
  outcome of instantiation leaves behind. In \<open>SemTimedwait\<close>: that the loop ends under
  a fair clock, what success and giving up then mean, and when a 32-bit wrap makes it give up at once. In \<open>IpcMain\<close>:
  the exchange of the two processes from start to end. In \<open>JniPeer\<close>: that the Java program
  is given the proxy's requests and its answers are what the proxy returns, that the proxy hangs when
  there is none, and what connecting and starting leave behind when
  they fail. In \<open>FmuLoader\<close>: when a library loads, what every pointer is, and that the
  types of all casts agree with the headers. In \<open>TestHarness\<close>: that the directory, the
  configuration file and the key that the helpers prepare are the ones an instantiation uses, and
  that its calls then succeed. In \<open>InstanceThreads\<close>: that the pieces of the thread are the thread, that
  no interleaving lets it touch a container that was destroyed, and that the join ends. In \<open>Session\<close>:
  that a simulation with any list of calls gets the answers of the store and leaves the library as it
  found it. In \<open>ManyChannels\<close>: that each channel's answers are those of its own process, whatever
  is called on the others in between. In \<open>ManyInstances\<close>: the same for instances, from their creation
  on, and that a new one disturbs none of the others. In \<open>FmuTests\<close>, \<open>UnitTests\<close> and \<open>FmuProxyTests\<close>: under which
  conditions on the system and on the other thread the tests pass, and that those with a timeout crash
  or hang when that thread is late.

  4. Bounds and fuel. A call that does not return is the outcome \<open>Blocks\<close>. The
  watch-dog thread is a recursion over the values its loop condition reads. Some loops have a
  number of passes as an argument, and a result that says whether they ended within it: the connect
  loops of the test driver, of the callback thread and of the channel tests' clients, for the first two of which \<open>driver_connects_iff\<close>
  and \<open>callback_first_attempt_decides\<close> say how many passes are enough, for every
  number; and the callback thread's receive loop, which a program ends only by clearing the
  instance's \<open>active\<close>. The polling loop on macOS has fuel, and
  \<open>mac_timedwait_returns\<close> gives an amount that is enough. The runner calls its driver
  for ever, so its calls are counted.

  5. What is not modelled. The layers above \<open>libshmipc\<close> over its Windows branches, and there the
  passes of the watch-dog thread between the other calls; the text of debug output; the Java half,
  which the native methods meet as a parameter; the test of two libraries at once (\<open>FMU_DualLoad_Tests.cpp\<close>);
  the replacement of \<open>clock_gettime\<close> in \<open>sem_timedwait.h\<close>, which computes with doubles;
  vendored code (the JNI headers and access bridge, \<open>mingw.thread.h\<close>); reuse of an address by the
  allocator after a free (addresses only grow), so that a stale handle never meets a new instance
  here; memory that the threads share outside the channel and one instance's container (the registry
  is used by one thread at a time, as FMI requires of its caller; an access to a field of a container
  is atomic). A semaphore's waiting queue has no order: who waits is decided by the step relation.
\<close>

end
